(* ===== verification/Prelude.thy ===== *)
theory Prelude
  imports Main "HOL-Library.Word" "HOL-Library.State_Monad"
begin

text \<open>
  Shared vocabulary of the development: the machine integers of the C sources, byte-addressed
  packet memory with little-endian loads and stores (the x86 hosts the DPDK programs run on),
  the byte-swapping macros of DPDK, and the lemmas that let the simplifier read a field back
  out of a memory other fields have been written to.
\<close>

unbundle bit_operations_syntax

section \<open>Collections and types\<close>

named_theorems mem_simps \<open>reading loads back through stores and copies\<close>
named_theorems frame_simps \<open>single bytes of a memory after stores and copies\<close>

type_synonym u8 = "8 word"
type_synonym u16 = "16 word"
type_synonym u32 = "32 word"
type_synonym u64 = "64 word"

text \<open>Memory relative to the start of a packet or of an object: byte offsets to bytes.\<close>

type_synonym mem = "nat \<Rightarrow> u8"

section \<open>Counters\<close>

lemma word_less_Suc: "x \<noteq> - 1 \<Longrightarrow> x < x + (1 :: 'a::len word)"
proof -
  assume "x \<noteq> - 1"
  then have "1 + x \<noteq> 0" by (metis add.commute add_eq_0_iff)
  then have "unat (1 + x) = Suc (unat x)" by (rule unatSuc)
  then show ?thesis by (simp add: word_less_nat_alt add.commute)
qed

lemma word_add_of_nat_inj:
  assumes "i < 2 ^ LENGTH('a)" "j < 2 ^ LENGTH('a)" "x + of_nat i = x + (of_nat j :: 'a::len word)"
  shows "i = j"
  using assms by (metis add_left_cancel mod_less unat_of_nat)

lemma map_count_append:
  "map (\<lambda>i. x + of_nat i) [0..<a] @ map (\<lambda>i. x + of_nat a + of_nat i) [0..<b]
    = map (\<lambda>i. x + (of_nat i :: 'a::len word)) [0..<a + b]"
  by (induction b) (simp_all add: add.assoc)

section \<open>Sign extension\<close>

lemma bit31_small: "unat (v :: u32) < 2 ^ 31 \<Longrightarrow> \<not> bit v 31"
proof
  assume small: "unat v < 2 ^ 31" and "bit v 31"
  then have "bit (unat v) 31" by (simp add: bit_unsigned_iff)
  then have "odd (unat v div 2 ^ 31)" by (metis bit_iff_odd)
  with small show False by simp
qed

lemma scast_nonneg:
  assumes "unat (v :: u32) < 2 ^ 31" shows "(scast v :: u64) = ucast v"
proof (rule bit_word_eqI)
  fix n
  have "n = 31 \<or> n < 31" if "bit v n"
    using bit_imp_le_length[OF that] by auto
  then show "bit (scast v :: u64) n = bit (ucast v :: u64) n" if "n < LENGTH(64)"
    using bit31_small[OF assms] that by (auto simp: bit_simps min_def)
qed

lemma unat_ucast_u16 [simp]: "unat (ucast (w :: u16) :: u64) = unat w" "unat (ucast (w :: u16) :: u32) = unat w"
  using unsigned_less[where ?'a = nat, of w] by (simp_all add: unsigned_ucast_eq take_bit_nat_eq_self)

lemma byte_eqI:
  assumes "bit a 0 = bit b 0" "bit a 1 = bit b 1" "bit a 2 = bit b 2" "bit a 3 = bit b 3"
    "bit a 4 = bit b 4" "bit a 5 = bit b 5" "bit a 6 = bit b 6" "bit a 7 = bit b 7"
  shows "a = (b :: u8)"
proof (rule bit_word_eqI)
  fix n assume "n < LENGTH(8)"
  then have "n \<in> {0,1,2,3,4,5,6,7}" by auto
  with assms show "bit a n = bit b n" by auto
qed

section \<open>Loads, stores and copies\<close>

definition ld16 :: "nat \<Rightarrow> mem \<Rightarrow> u16" where
  "ld16 a m = ucast (m a) OR push_bit 8 (ucast (m (a + 1)))"

definition ld32 :: "nat \<Rightarrow> mem \<Rightarrow> u32" where
  "ld32 a m = ucast (ld16 a m) OR push_bit 16 (ucast (ld16 (a + 2) m))"

definition st8 :: "nat \<Rightarrow> u8 \<Rightarrow> mem \<Rightarrow> mem" where
  "st8 a v m = m(a := v)"

definition st16 :: "nat \<Rightarrow> u16 \<Rightarrow> mem \<Rightarrow> mem" where
  "st16 a v m = m(a := ucast v, a + 1 := ucast (drop_bit 8 v))"

definition st32 :: "nat \<Rightarrow> u32 \<Rightarrow> mem \<Rightarrow> mem" where
  "st32 a v m = st16 (a + 2) (ucast (drop_bit 16 v)) (st16 a (ucast v) m)"

definition ld64 :: "nat \<Rightarrow> mem \<Rightarrow> u64" where
  "ld64 a m = ucast (ld32 a m) OR push_bit 32 (ucast (ld32 (a + 4) m))"

definition st64 :: "nat \<Rightarrow> u64 \<Rightarrow> mem \<Rightarrow> mem" where
  "st64 a v m = st32 (a + 4) (ucast (drop_bit 32 v)) (st32 a (ucast v) m)"

definition memset :: "nat \<Rightarrow> u8 \<Rightarrow> nat \<Rightarrow> mem \<Rightarrow> mem" where
  "memset d c n m = (\<lambda>a. if d \<le> a \<and> a < d + n then c else m a)"

text \<open>\<open>memcpy d src s n m\<close> copies \<open>n\<close> bytes of \<open>src\<close> from offset \<open>s\<close> to offset \<open>d\<close> of \<open>m\<close>.\<close>

definition memcpy :: "nat \<Rightarrow> mem \<Rightarrow> nat \<Rightarrow> nat \<Rightarrow> mem \<Rightarrow> mem" where
  "memcpy d src s n m = (\<lambda>a. if d \<le> a \<and> a < d + n then src (s + (a - d)) else m a)"

definition bytes_at :: "nat \<Rightarrow> nat \<Rightarrow> mem \<Rightarrow> u8 list" where
  "bytes_at a n m = map (\<lambda>i. m (a + i)) [0..<n]"

section \<open>Byte order\<close>

text \<open>
  \<open>rte_cpu_to_be_N\<close> and \<open>rte_be_to_cpu_N\<close> are the same byte swap on the little-endian hosts
  of the project.
\<close>

definition bswap16 :: "u16 \<Rightarrow> u16" where
  "bswap16 w = push_bit 8 w OR drop_bit 8 w"

definition bswap32 :: "u32 \<Rightarrow> u32" where
  "bswap32 w = push_bit 16 (ucast (bswap16 (ucast w))) OR ucast (bswap16 (ucast (drop_bit 16 w)))"

definition bswap64 :: "u64 \<Rightarrow> u64" where
  "bswap64 w = push_bit 32 (ucast (bswap32 (ucast w))) OR ucast (bswap32 (ucast (drop_bit 32 w)))"

lemma bswap16_bswap16 [simp]: "bswap16 (bswap16 w) = w"
  unfolding bswap16_def
  by (rule bit_word_eqI) (auto simp: bit_simps)

lemma ucast_bswap32_lo: "ucast (bswap32 w) = bswap16 (ucast (drop_bit 16 w) :: u16)"
  unfolding bswap32_def by (rule bit_word_eqI) (auto simp: bit_simps)

lemma ucast_bswap32_hi: "ucast (drop_bit 16 (bswap32 w)) = bswap16 (ucast w :: u16)"
  unfolding bswap32_def by (rule bit_word_eqI) (auto simp: bit_simps dest: bit_imp_le_length)

lemma word32_halves: "push_bit 16 (ucast (ucast (drop_bit 16 w) :: u16)) OR ucast (ucast w :: u16) = (w :: u32)"
  by (rule bit_word_eqI) (auto simp: bit_simps)

lemma bswap32_bswap32 [simp]: "bswap32 (bswap32 w) = w"
  by (subst bswap32_def) (simp add: ucast_bswap32_lo ucast_bswap32_hi word32_halves)

lemma bswap16_inj [simp]: "bswap16 a = bswap16 b \<longleftrightarrow> a = b"
  by (metis bswap16_bswap16)

lemma bswap32_inj [simp]: "bswap32 a = bswap32 b \<longleftrightarrow> a = b"
  by (metis bswap32_bswap32)

section \<open>Reading fields back\<close>

lemma st8_same [mem_simps]: "st8 a v m a = v"
  by (simp add: st8_def)

lemma st8_other [mem_simps]: "b \<noteq> a \<Longrightarrow> st8 a v m b = m b"
  by (simp add: st8_def)

lemma st16_byte [mem_simps]: "b + 1 \<le> a \<or> a + 2 \<le> b \<Longrightarrow> st16 a v m b = m b"
  by (auto simp: st16_def)

lemma st32_byte [mem_simps]: "b + 1 \<le> a \<or> a + 4 \<le> b \<Longrightarrow> st32 a v m b = m b"
  by (auto simp: st32_def st16_def)

lemma memcpy_byte [mem_simps]: "b + 1 \<le> d \<or> d + n \<le> b \<Longrightarrow> memcpy d src s n m b = m b"
  by (auto simp: memcpy_def)

lemma ld16_st8 [mem_simps]: "b + 2 \<le> a \<or> a + 1 \<le> b \<Longrightarrow> ld16 b (st8 a v m) = ld16 b m"
  by (auto simp: ld16_def st8_def)

lemma ld16_st16_same [mem_simps]: "ld16 a (st16 a v m) = v"
  unfolding ld16_def st16_def
  by (rule bit_word_eqI) (auto simp: bit_simps)

lemma ld16_st16 [mem_simps]: "b + 2 \<le> a \<or> a + 2 \<le> b \<Longrightarrow> ld16 b (st16 a v m) = ld16 b m"
  by (auto simp: ld16_def st16_def)

lemma ld16_st32 [mem_simps]: "b + 2 \<le> a \<or> a + 4 \<le> b \<Longrightarrow> ld16 b (st32 a v m) = ld16 b m"
  by (auto simp: st32_def ld16_st16)

lemma ld16_memcpy [mem_simps]:
  "b + 2 \<le> d \<or> d + n \<le> b \<Longrightarrow> ld16 b (memcpy d src s n m) = ld16 b m"
  by (auto simp: ld16_def memcpy_def)

lemma ld32_st8 [mem_simps]: "b + 4 \<le> a \<or> a + 1 \<le> b \<Longrightarrow> ld32 b (st8 a v m) = ld32 b m"
  by (auto simp: ld32_def ld16_st8)

lemma ld32_st16 [mem_simps]: "b + 4 \<le> a \<or> a + 2 \<le> b \<Longrightarrow> ld32 b (st16 a v m) = ld32 b m"
  by (auto simp: ld32_def ld16_st16)

lemma ld32_st32_same [mem_simps]: "ld32 a (st32 a v m) = v"
  unfolding ld32_def st32_def
  by (simp add: ld16_st16_same ld16_st16) (subst or.commute, rule word32_halves)

lemma ld32_st32 [mem_simps]: "b + 4 \<le> a \<or> a + 4 \<le> b \<Longrightarrow> ld32 b (st32 a v m) = ld32 b m"
  by (auto simp: ld32_def ld16_st32)

lemma ld32_memcpy [mem_simps]:
  "b + 4 \<le> d \<or> d + n \<le> b \<Longrightarrow> ld32 b (memcpy d src s n m) = ld32 b m"
  by (auto simp: ld32_def ld16_memcpy)

lemma ld64_st64_same [mem_simps]: "ld64 a (st64 a v m) = v"
proof -
  have "ucast (ucast v :: u32) OR push_bit 32 (ucast (ucast (drop_bit 32 v) :: u32)) = v"
    by (rule bit_word_eqI) (auto simp: bit_simps)
  then show ?thesis by (simp add: ld64_def st64_def ld32_st32_same ld32_st32)
qed

lemma ld16_cong:
  assumes "\<And>i. i < 2 \<Longrightarrow> m (a + i) = m' (b + i)"
  shows "ld16 a m = ld16 b m'"
  using assms[of 0] assms[of 1] by (simp add: ld16_def)

lemma ld32_cong:
  assumes "\<And>i. i < 4 \<Longrightarrow> m (a + i) = m' (b + i)"
  shows "ld32 a m = ld32 b m'"
proof -
  have "m (a + 2 + i) = m' (b + 2 + i)" if "i < 2" for i
    using assms[of "2 + i"] that by (simp add: add.assoc)
  then have "ld16 (a + 2) m = ld16 (b + 2) m'" by (rule ld16_cong)
  moreover have "ld16 a m = ld16 b m'" by (rule ld16_cong) (simp add: assms)
  ultimately show ?thesis by (simp add: ld32_def)
qed

lemma ld64_cong:
  assumes "\<And>i. i < 8 \<Longrightarrow> m (a + i) = m' (b + i)"
  shows "ld64 a m = ld64 b m'"
proof -
  have "ld32 a m = ld32 b m'" by (rule ld32_cong) (simp add: assms)
  moreover have "ld32 (a + 4) m = ld32 (b + 4) m'" by (rule ld32_cong) (simp add: assms add.assoc)
  ultimately show ?thesis by (simp add: ld64_def)
qed

lemma ld64_st64 [mem_simps]: "b + 8 \<le> a \<or> a + 8 \<le> b \<Longrightarrow> ld64 b (st64 a v m) = ld64 b m"
  by (auto simp: ld64_def st64_def ld32_st32)

lemma ld64_st32 [mem_simps]: "b + 8 \<le> a \<or> a + 4 \<le> b \<Longrightarrow> ld64 b (st32 a v m) = ld64 b m"
  by (auto simp: ld64_def ld32_st32)

lemma ld64_st8 [mem_simps]: "b + 8 \<le> a \<or> a + 1 \<le> b \<Longrightarrow> ld64 b (st8 a v m) = ld64 b m"
  by (auto simp: ld64_def ld32_st8)

lemma ld64_memset [mem_simps]: "b + 8 \<le> d \<or> d + n \<le> b \<Longrightarrow> ld64 b (memset d c n m) = ld64 b m"
  by (intro ld64_cong) (auto simp: memset_def)

lemma bytes_at_st8 [mem_simps]:
  "b + n \<le> a \<or> a + 1 \<le> b \<Longrightarrow> bytes_at b n (st8 a v m) = bytes_at b n m"
  by (auto simp: bytes_at_def st8_def)

lemma bytes_at_st16 [mem_simps]:
  "b + n \<le> a \<or> a + 2 \<le> b \<Longrightarrow> bytes_at b n (st16 a v m) = bytes_at b n m"
  by (auto simp: bytes_at_def st16_def)

lemma bytes_at_st32 [mem_simps]:
  "b + n \<le> a \<or> a + 4 \<le> b \<Longrightarrow> bytes_at b n (st32 a v m) = bytes_at b n m"
  by (auto simp: st32_def bytes_at_st16)

lemma bytes_at_memcpy_same [mem_simps]:
  "bytes_at d n (memcpy d src s n m) = bytes_at s n src"
  by (simp add: bytes_at_def memcpy_def)

lemma bytes_at_memcpy [mem_simps]:
  "b + k \<le> d \<or> d + n \<le> b \<Longrightarrow> bytes_at b k (memcpy d src s n m) = bytes_at b k m"
  by (auto simp: bytes_at_def memcpy_def)

lemma bytes_at_0 [simp]: "bytes_at a 0 m = []"
  by (simp add: bytes_at_def)

lemma length_bytes_at [simp]: "length (bytes_at a n m) = n"
  by (simp add: bytes_at_def)

lemma st8_frame [frame_simps]: "x \<noteq> a \<Longrightarrow> st8 a v m x = m x"
  by (simp add: st8_def)

lemma st16_frame [frame_simps]: "x \<notin> {a..<a + 2} \<Longrightarrow> st16 a v m x = m x"
  by (auto simp: st16_def)

lemma st32_frame [frame_simps]: "x \<notin> {a..<a + 4} \<Longrightarrow> st32 a v m x = m x"
  by (auto simp: st32_def st16_def)

lemma memcpy_frame [frame_simps]: "x \<notin> {d..<d + n} \<Longrightarrow> memcpy d src s n m x = m x"
  by (auto simp: memcpy_def)

section \<open>Programs in a state monad\<close>

lemma run_bind [simp]: "run_state (State_Monad.bind m f) s = (case run_state m s of (a, s') \<Rightarrow> run_state (f a) s')"
  by (simp add: State_Monad.bind_def)

lemma run_return [simp]: "run_state (State_Monad.return a) s = (a, s)"
  by (simp add: State_Monad.return_def)

end
