(* ===== verification/Paxos_Voting.thy ===== *)
theory Paxos_Voting
  imports Main
begin

text \<open>
  The contract a set of acceptors owes to its clients, as two locales.  \<open>quorum_system\<close>: any two
  quorums meet.  \<open>ballot_voting\<close>: in every reachable state votes are cast for proposals only, a
  round has one proposal, and a proposal is safe with respect to every earlier round.  From
  these laws alone follows agreement: two chosen values are equal.
\<close>

definition majority :: "nat \<Rightarrow> nat set \<Rightarrow> bool" where
  "majority n Q \<longleftrightarrow> Q \<subseteq> {..<n} \<and> n < 2 * card Q"

locale quorum_system =
  fixes quorum :: "'a set \<Rightarrow> bool"
  assumes quorum_meet: "quorum Q \<Longrightarrow> quorum R \<Longrightarrow> \<exists>a. a \<in> Q \<and> a \<in> R"

locale ballot_voting = quorum_system quorum
  for quorum :: "'a set \<Rightarrow> bool" +
  fixes reach :: "'s \<Rightarrow> bool"
    and proposed :: "'s \<Rightarrow> 'b::linorder \<Rightarrow> 'v \<Rightarrow> bool"
    and voted :: "'s \<Rightarrow> 'a \<Rightarrow> 'b \<Rightarrow> 'v \<Rightarrow> bool"
  assumes voted_proposed: "reach s \<Longrightarrow> voted s a b v \<Longrightarrow> proposed s b v"
    and proposed_unique: "reach s \<Longrightarrow> proposed s b v \<Longrightarrow> proposed s b w \<Longrightarrow> v = w"
    and proposed_safe: "reach s \<Longrightarrow> proposed s b v \<Longrightarrow> proposed s c u \<Longrightarrow> c < b \<Longrightarrow>
      \<exists>Q. quorum Q \<and> (\<forall>a w. a \<in> Q \<longrightarrow> voted s a c w \<longrightarrow> w = v)"
begin

lemma chosen_lower:
  assumes "reach s" "quorum Q" "\<And>a. a \<in> Q \<Longrightarrow> voted s a c w"
    and "quorum R" "\<And>a. a \<in> R \<Longrightarrow> voted s a b v" and "c < b"
  shows "w = v"
proof -
  obtain x where x: "x \<in> Q" "x \<in> R" using quorum_meet [OF assms(2,4)] by blast
  have "proposed s b v" "proposed s c w"
    using voted_proposed assms(1,3,5) x by blast+
  then obtain P where P: "quorum P" "\<And>a w. a \<in> P \<Longrightarrow> voted s a c w \<Longrightarrow> w = v"
    using proposed_safe assms(1,6) by blast
  obtain y where "y \<in> Q" "y \<in> P" using quorum_meet [OF assms(2) P(1)] by blast
  then show ?thesis using P(2) assms(3) by blast
qed

lemma agreement:
  assumes "reach s" "quorum Q" "\<And>a. a \<in> Q \<Longrightarrow> voted s a c w"
    and "quorum R" "\<And>a. a \<in> R \<Longrightarrow> voted s a b v"
  shows "w = v"
proof (cases c b rule: linorder_cases)
  case less
  with assms show ?thesis by (rule chosen_lower)
next
  case greater
  with assms show ?thesis by (metis chosen_lower)
next
  case equal
  obtain x where "x \<in> Q" "x \<in> R" using quorum_meet [OF assms(2,4)] by blast
  then show ?thesis using voted_proposed proposed_unique assms(1,3,5) equal by blast
qed

end

lemma majority_meet:
  assumes "majority n Q" "majority n R"
  shows "\<exists>a. a \<in> Q \<and> a \<in> R"
proof (rule ccontr)
  assume "\<not> ?thesis"
  then have disj: "Q \<inter> R = {}" by blast
  have fin: "finite Q" "finite R" and sub: "Q \<union> R \<subseteq> {..<n}"
    using assms by (auto simp: majority_def intro: finite_subset)
  have "card Q + card R = card (Q \<union> R)"
    using card_Un_disjoint [OF fin disj] by simp
  also have "\<dots> \<le> n" using card_mono [OF _ sub] by simp
  finally show False using assms by (simp add: majority_def)
qed

interpretation maj: quorum_system "majority n" for n
  by unfold_locales (rule majority_meet)

end
