(* ===== verification/Paxos_Spec.thy ===== *)
theory Paxos_Spec
  imports Paxos_Voting
begin

text \<open>
  The specification of one instance of Paxos that the acceptors of the repository implement: what
  an acceptor may promise and vote for, and what has to hold before a value is proposed.  Packets,
  registers and instance numbers are those of the implementations, which are related to this
  machine by the locale \<open>paxos_implementation\<close>.
\<close>

text \<open>Who sent a packet: clients and proposers, the coordinator, or one of the acceptors.\<close>

datatype sender = Env | Coord | Acc nat

section \<open>The machine\<close>

text \<open>
  Per acceptor the promised round and the vote, and everything said so far: proposals \<open>(b, v)\<close>,
  svotes \<open>(a, b, v)\<close>, and promises \<open>(a, b, r, w)\<close> of round \<open>b\<close> that report the vote for \<open>w\<close> in round \<open>r\<close>, where
  \<open>r = 0\<close> stands for none.
\<close>

record ('b, 'v) spec =
  sprom :: "nat \<Rightarrow> 'b"
  svrnd :: "nat \<Rightarrow> 'b"
  svval :: "nat \<Rightarrow> 'v"
  sprops :: "('b \<times> 'v) set"
  svotes :: "(nat \<times> 'b \<times> 'v) set"
  sproms :: "(nat \<times> 'b \<times> 'b \<times> 'v) set"

text \<open>The rule of phase 2: a majority promised the round, and the value is the one it reports highest, if any.\<close>

definition phase2_rule :: "nat \<Rightarrow> ('b::{linorder, zero}, 'v) spec \<Rightarrow> 'b \<Rightarrow> 'v \<Rightarrow> bool" where
  "phase2_rule n s b v \<longleftrightarrow> (\<exists>Q r w. majority n Q \<and> (\<forall>a\<in>Q. (a, b, r a, w a) \<in> sproms s) \<and>
     ((\<forall>a\<in>Q. r a = 0) \<or> (\<exists>a\<in>Q. r a \<noteq> 0 \<and> w a = v \<and> (\<forall>a'\<in>Q. r a' \<le> r a))))"

inductive spec_step :: "nat \<Rightarrow> ('b::{linorder, zero}, 'v) spec \<Rightarrow> ('b, 'v) spec \<Rightarrow> bool" for n where
  propose: "0 < b \<Longrightarrow> \<forall>w. (b, w) \<in> sprops s \<longrightarrow> w = v \<Longrightarrow> (\<forall>c. 0 < c \<longrightarrow> b \<le> c) \<or> phase2_rule n s b v \<Longrightarrow>
     spec_step n s (s\<lparr>sprops := insert (b, v) (sprops s)\<rparr>)"
| promise: "a < n \<Longrightarrow> sprom s a \<le> b \<Longrightarrow>
     spec_step n s (s\<lparr>sprom := (sprom s)(a := b), sproms := insert (a, b, svrnd s a, svval s a) (sproms s)\<rparr>)"
| vote: "a < n \<Longrightarrow> (b, v) \<in> sprops s \<Longrightarrow> sprom s a \<le> b \<Longrightarrow>
     spec_step n s (s\<lparr>sprom := (sprom s)(a := b), svrnd := (svrnd s)(a := b), svval := (svval s)(a := v),
       svotes := insert (a, b, v) (svotes s)\<rparr>)"
| stutter: "spec_step n s s"

text \<open>
  A packet belongs to one instance: it is a step of the machine of that instance and none of the
  others, which is the form in which the implementations use the rules.
\<close>

lemma spec_propose_if:
  assumes "t = (if c then s\<lparr>sprops := insert (b, v) (sprops s)\<rparr> else s)"
    and "c \<Longrightarrow> 0 < b" "\<And>w. c \<Longrightarrow> (b, w) \<in> sprops s \<Longrightarrow> w = v" "c \<Longrightarrow> (\<forall>c. 0 < c \<longrightarrow> b \<le> c) \<or> phase2_rule n s b v"
  shows "spec_step n s t"
  using assms by (cases c) (simp_all add: spec_step.stutter spec_step.propose)

lemma spec_promise_if:
  assumes "t = (if c then s\<lparr>sprom := (sprom s)(a := b), sproms := insert (a, b, svrnd s a, svval s a) (sproms s)\<rparr> else s)"
    and "a < n" "c \<Longrightarrow> sprom s a \<le> b"
  shows "spec_step n s t"
  using assms by (cases c) (simp_all add: spec_step.stutter spec_step.promise)

lemma spec_vote_if:
  assumes "t = (if c then s\<lparr>sprom := (sprom s)(a := b), svrnd := (svrnd s)(a := b), svval := (svval s)(a := v),
      svotes := insert (a, b, v) (svotes s)\<rparr> else s)"
    and "a < n" "c \<Longrightarrow> (b, v) \<in> sprops s" "c \<Longrightarrow> sprom s a \<le> b"
  shows "spec_step n s t"
  using assms by (cases c) (simp_all add: spec_step.stutter spec_step.vote)

lemma spec_step_votes: "spec_step n s t \<Longrightarrow> (a, b, v) \<in> svotes t \<Longrightarrow> (a, b, v) \<in> svotes s \<or> (b, v) \<in> sprops s"
  by (induction rule: spec_step.induct) auto

lemma spec_stutter_eq: "t = s \<Longrightarrow> spec_step n s t"
  by (simp add: spec_step.stutter)

definition spec_init :: "(nat \<Rightarrow> 'v) \<Rightarrow> ('b::zero, 'v) spec" where
  "spec_init v = \<lparr>sprom = (\<lambda>_. 0), svrnd = (\<lambda>_. 0), svval = v, sprops = {}, svotes = {}, sproms = {}\<rparr>"

inductive spec_reach :: "nat \<Rightarrow> ('b::{linorder, zero}, 'v) spec \<Rightarrow> bool" for n where
  start: "spec_reach n (spec_init v)"
| step: "spec_reach n s \<Longrightarrow> spec_step n s t \<Longrightarrow> spec_reach n t"

section \<open>The invariant\<close>

definition safe_at :: "nat \<Rightarrow> ('b::{linorder, zero}, 'v) spec \<Rightarrow> 'b \<Rightarrow> 'v \<Rightarrow> bool" where
  "safe_at n s b v \<longleftrightarrow> (\<forall>c. 0 < c \<longrightarrow> c < b \<longrightarrow>
     (\<exists>Q. majority n Q \<and> (\<forall>a\<in>Q. c < sprom s a \<and> (\<forall>w. (a, c, w) \<in> svotes s \<longrightarrow> w = v))))"

definition inv_prop :: "nat \<Rightarrow> ('b::{linorder, zero}, 'v) spec \<Rightarrow> bool" where
  "inv_prop n s \<longleftrightarrow> (\<forall>b v. (b, v) \<in> sprops s \<longrightarrow>
     0 < b \<and> (\<forall>w. (b, w) \<in> sprops s \<longrightarrow> w = v) \<and> safe_at n s b v)"

definition inv_vote :: "nat \<Rightarrow> ('b::{linorder, zero}, 'v) spec \<Rightarrow> bool" where
  "inv_vote n s \<longleftrightarrow>
     (\<forall>a b v. (a, b, v) \<in> svotes s \<longrightarrow> a < n \<and> (b, v) \<in> sprops s \<and> b \<le> sprom s a \<and> b \<le> svrnd s a) \<and>
     (\<forall>a. svrnd s a \<noteq> 0 \<longrightarrow> (a, svrnd s a, svval s a) \<in> svotes s)"

definition inv_prom :: "nat \<Rightarrow> ('b::{linorder, zero}, 'v) spec \<Rightarrow> bool" where
  "inv_prom n s \<longleftrightarrow> (\<forall>a b r w. (a, b, r, w) \<in> sproms s \<longrightarrow>
     a < n \<and> b \<le> sprom s a \<and> (r \<noteq> 0 \<longrightarrow> (a, r, w) \<in> svotes s) \<and> (\<forall>c v. (a, c, v) \<in> svotes s \<longrightarrow> c < b \<longrightarrow> c \<le> r))"

definition spec_inv :: "nat \<Rightarrow> ('b::{linorder, zero}, 'v) spec \<Rightarrow> bool" where
  "spec_inv n s \<longleftrightarrow> inv_prop n s \<and> inv_vote n s \<and> inv_prom n s"

lemmas inv_defs = spec_inv_def inv_prop_def inv_vote_def inv_prom_def

lemma inv_voteD:
  assumes "spec_inv n s" "(a, b, v) \<in> svotes s"
  shows "a < n" "(b, v) \<in> sprops s" "b \<le> sprom s a" "b \<le> svrnd s a"
  using assms unfolding spec_inv_def inv_vote_def by blast+

lemma inv_promD:
  assumes "spec_inv n s" "(a, b, r, w) \<in> sproms s"
  shows "a < n" "b \<le> sprom s a" "r \<noteq> 0 \<Longrightarrow> (a, r, w) \<in> svotes s" "(a, c, v) \<in> svotes s \<Longrightarrow> c < b \<Longrightarrow> c \<le> r"
  using assms unfolding spec_inv_def inv_prom_def by blast+

lemma inv_propD:
  assumes "spec_inv n s" "(b, v) \<in> sprops s"
  shows "0 < b" "(b, w) \<in> sprops s \<Longrightarrow> w = v" "safe_at n s b v"
  using assms unfolding spec_inv_def inv_prop_def by blast+

text \<open>Votes below a promised round cannot appear later, so what is safe stays safe.\<close>

lemma safe_at_grow:
  assumes "safe_at n s b v" "\<And>a. sprom s a \<le> sprom t a"
    and "\<And>a c w. (a, c, w) \<in> svotes t \<Longrightarrow> (a, c, w) \<in> svotes s \<or> sprom s a \<le> c"
  shows "safe_at n t b v"
  using assms unfolding safe_at_def by (meson leD order.strict_trans2)

text \<open>The classical argument: what a promising majority reports makes the proposal safe.\<close>

lemma phase2_rule_safe:
  assumes inv: "spec_inv n s" and rule: "phase2_rule n s b v"
  shows "safe_at n s b v"
  unfolding safe_at_def
proof (intro allI impI)
  fix c :: 'a
  assume c: "0 < c" "c < b"
  from rule obtain Q r w where Q: "majority n Q" "\<And>a. a \<in> Q \<Longrightarrow> (a, b, r a, w a) \<in> sproms s"
    and top: "(\<forall>a\<in>Q. r a = 0) \<or> (\<exists>a\<in>Q. r a \<noteq> 0 \<and> w a = v \<and> (\<forall>a'\<in>Q. r a' \<le> r a))"
    unfolding phase2_rule_def by blast
  have prom: "c < sprom s a" if "a \<in> Q" for a
    using inv_promD(2)[OF inv Q(2)[OF that]] c(2) by (rule order.strict_trans2[rotated])
  have low: "c \<le> r a" if "a \<in> Q" "(a, c, u) \<in> svotes s" for a u
    using inv_promD(4)[OF inv Q(2)[OF that(1)] that(2) c(2)] .
  consider (free) "\<forall>a\<in>Q. r a = 0" | (bound) m where "m \<in> Q" "r m \<noteq> 0" "w m = v" "\<forall>a\<in>Q. r a \<le> r m"
    using top by blast
  then show "\<exists>Q. majority n Q \<and> (\<forall>a\<in>Q. c < sprom s a \<and> (\<forall>w. (a, c, w) \<in> svotes s \<longrightarrow> w = v))"
  proof cases
    case free
    then have "(a, c, u) \<notin> svotes s" if "a \<in> Q" for a u using low[OF that] c(1) that by fastforce
    then show ?thesis using Q(1) prom by blast
  next
    case bound
    have "(r m, v) \<in> sprops s" using inv_voteD(2)[OF inv] inv_promD(3)[OF inv Q(2)] bound by blast
    note pm = inv_propD[OF inv this]
    show ?thesis
    proof (cases "c < r m")
      case True
      then show ?thesis using pm(3) c(1) by (auto simp: safe_at_def)
    next
      case False
      have "u = v" if "a \<in> Q" "(a, c, u) \<in> svotes s" for a u
      proof -
        have "c = r m" using False low[OF that] bound(4) that(1) by fastforce
        then show ?thesis using pm(2) inv_voteD(2)[OF inv that(2)] by blast
      qed
      then show ?thesis using Q(1) prom by blast
    qed
  qed
qed

section \<open>Every step keeps the invariant\<close>

lemma inv_propose:
  assumes inv: "spec_inv n s" and b: "0 < b" "\<forall>w. (b, w) \<in> sprops s \<longrightarrow> w = v"
    and rule: "(\<forall>c. 0 < c \<longrightarrow> b \<le> c) \<or> phase2_rule n s b v"
  shows "spec_inv n (s\<lparr>sprops := insert (b, v) (sprops s)\<rparr>)" (is "spec_inv n ?t")
proof -
  have same: "safe_at n ?t c w = safe_at n s c w" for c w by (simp add: safe_at_def)
  have "safe_at n s b v" using rule phase2_rule_safe[OF inv] by (auto simp: safe_at_def dest: leD)
  then have "inv_prop n ?t" using inv b by (auto simp: inv_defs same)
  then show ?thesis using inv by (auto simp: inv_defs)
qed

lemma inv_promise:
  assumes inv: "spec_inv n s" and a: "a < n" "sprom s a \<le> b"
  shows "spec_inv n (s\<lparr>sprom := (sprom s)(a := b), sproms := insert (a, b, svrnd s a, svval s a) (sproms s)\<rparr>)"
    (is "spec_inv n ?t")
proof -
  have grow: "sprom s c \<le> sprom ?t c" for c using a(2) by simp
  have "inv_prop n ?t" using inv safe_at_grow[OF _ grow] by (auto simp: inv_defs)
  moreover have "inv_vote n ?t" using inv order_trans[OF inv_voteD(3)[OF inv] a(2)] by (auto simp: inv_defs)
  moreover have "inv_prom n ?t"
    using inv a order_trans[OF inv_promD(2)[OF inv] a(2)] by (auto simp: inv_defs)
  ultimately show ?thesis by (simp add: spec_inv_def)
qed

lemma inv_cast:
  assumes inv: "spec_inv n s" and a: "a < n" "sprom s a \<le> b" and p: "(b, v) \<in> sprops s"
  shows "spec_inv n (s\<lparr>sprom := (sprom s)(a := b), svrnd := (svrnd s)(a := b), svval := (svval s)(a := v),
    svotes := insert (a, b, v) (svotes s)\<rparr>)" (is "spec_inv n ?t")
proof -
  have grow: "sprom s c \<le> sprom ?t c" for c using a(2) by simp
  have new: "(c, d, w) \<in> svotes ?t \<Longrightarrow> (c, d, w) \<in> svotes s \<or> sprom s c \<le> d" for c d w using a(2) by auto
  have "inv_prop n ?t" using inv safe_at_grow[OF _ grow new] by (simp add: inv_defs)
  moreover have "inv_vote n ?t"
    using inv a p order_trans[OF inv_voteD(3)[OF inv] a(2)] by (auto simp: inv_defs)
  moreover have "inv_prom n ?t"
    unfolding inv_prom_def
  proof (intro allI impI)
    fix c d r w
    assume "(c, d, r, w) \<in> sproms ?t"
    then have "(c, d, r, w) \<in> sproms s" by simp
    note old = inv_promD[OF inv this]
    have "e \<le> r" if "(c, e, u) \<in> svotes ?t" "e < d" for e u
      using that old(2,4) a(2) by auto
    then show "c < n \<and> d \<le> sprom ?t c \<and> (r \<noteq> 0 \<longrightarrow> (c, r, w) \<in> svotes ?t) \<and>
        (\<forall>e u. (c, e, u) \<in> svotes ?t \<longrightarrow> e < d \<longrightarrow> e \<le> r)"
      using old grow[of c] by (auto intro: order_trans)
  qed
  ultimately show ?thesis by (simp add: spec_inv_def)
qed

lemma spec_step_inv: "spec_step n s t \<Longrightarrow> spec_inv n s \<Longrightarrow> spec_inv n t"
  by (induction rule: spec_step.induct) (auto intro: inv_propose inv_promise inv_cast)

lemma spec_reach_inv: "spec_reach n s \<Longrightarrow> spec_inv n s"
proof (induction rule: spec_reach.induct)
  case (start v)
  show ?case by (simp add: inv_defs spec_init_def)
next
  case (step s t)
  then show ?case by (blast intro: spec_step_inv)
qed

interpretation spec: ballot_voting "majority n" "spec_reach n" "\<lambda>s b v. (b, v) \<in> sprops s" "\<lambda>s a b v. (a, b, v) \<in> svotes s" for n
proof unfold_locales
  fix s a b v
  assume "spec_reach n s" "(a, b, v) \<in> svotes s"
  then show "(b, v) \<in> sprops s" by (rule inv_voteD(2)[OF spec_reach_inv])
next
  fix s b v w
  assume "spec_reach n s" "(b, v) \<in> sprops s" "(b, w) \<in> sprops s"
  then show "v = w" by (rule inv_propD(2)[OF spec_reach_inv, symmetric])
next
  fix s b v c u
  assume r: "spec_reach n s" and b: "(b, v) \<in> sprops s" and c: "(c, u) \<in> sprops s" "c < b"
  note inv = spec_reach_inv[OF r]
  have "0 < c" by (rule inv_propD(1)[OF inv c(1)])
  then obtain Q where "majority n Q" "\<forall>a\<in>Q. \<forall>w. (a, c, w) \<in> svotes s \<longrightarrow> w = v"
    using inv_propD(3)[OF inv b] c(2) unfolding safe_at_def by auto
  then show "\<exists>Q. majority n Q \<and> (\<forall>a w. a \<in> Q \<longrightarrow> (a, c, w) \<in> svotes s \<longrightarrow> w = v)" by auto
qed

text \<open>A value is chosen when a majority voted for it in one round.\<close>

definition spec_chosen :: "nat \<Rightarrow> ('b, 'v) spec \<Rightarrow> 'v \<Rightarrow> bool" where
  "spec_chosen n s v \<longleftrightarrow> (\<exists>b Q. majority n Q \<and> (\<forall>a\<in>Q. (a, b, v) \<in> svotes s))"

lemma spec_agreement:
  assumes r: "spec_reach n s" and v: "spec_chosen n s v" and w: "spec_chosen n s w"
  shows "v = w"
proof -
  obtain b Q where "majority n Q" "\<forall>a\<in>Q. (a, b, v) \<in> svotes s" using v unfolding spec_chosen_def by blast
  moreover obtain c R where "majority n R" "\<forall>a\<in>R. (a, c, w) \<in> svotes s" using w unfolding spec_chosen_def by blast
  ultimately show ?thesis using spec.agreement[OF r, of Q b v R c w] by simp
qed

lemma spec_steps_reach: "(spec_step n)\<^sup>*\<^sup>* s t \<Longrightarrow> spec_reach n s \<Longrightarrow> spec_reach n t"
  by (induction rule: rtranclp_induct) (auto intro: spec_reach.step)

lemma spec_steps_chosen: "(spec_step n)\<^sup>*\<^sup>* s t \<Longrightarrow> spec_chosen n s v \<Longrightarrow> spec_chosen n t v"
proof (induction rule: rtranclp_induct)
  case (step t u)
  have "svotes t \<subseteq> svotes u" using step.hyps(2) by cases auto
  then show ?case using step unfolding spec_chosen_def by blast
qed simp

section \<open>Implementations\<close>

text \<open>
  An implementation: initial states, a step relation with an invariant of its own, and for each
  instance a view of its states as states of the specification, in which every step is a step
  of the specification (possibly none).
\<close>

locale paxos_implementation =
  fixes acceptors :: nat and init :: "'s \<Rightarrow> bool" and step :: "'s \<Rightarrow> 's \<Rightarrow> bool"
    and inv :: "'s \<Rightarrow> bool" and view :: "'i \<Rightarrow> 's \<Rightarrow> ('b::{linorder, zero}, 'v) spec"
  assumes init_inv: "init s \<Longrightarrow> inv s"
    and init_view: "init s \<Longrightarrow> \<exists>v. view i s = spec_init v"
    and step_inv: "inv s \<Longrightarrow> step s t \<Longrightarrow> inv t"
    and step_view: "inv s \<Longrightarrow> step s t \<Longrightarrow> spec_step acceptors (view i s) (view i t)"
begin

lemma run_inv: "step\<^sup>*\<^sup>* s t \<Longrightarrow> inv s \<Longrightarrow> inv t"
  by (induction rule: rtranclp_induct) (auto intro: step_inv)

lemma run_view: "step\<^sup>*\<^sup>* s t \<Longrightarrow> inv s \<Longrightarrow> (spec_step acceptors)\<^sup>*\<^sup>* (view i s) (view i t)"
proof (induction rule: rtranclp_induct)
  case (step t u)
  then show ?case using run_inv step_view by (meson rtranclp.rtrancl_into_rtrancl)
qed simp

lemma run_reach:
  assumes "init s" "step\<^sup>*\<^sup>* s t"
  shows "spec_reach acceptors (view i t)"
proof -
  obtain v where "view i s = spec_init v" using init_view[OF assms(1)] by blast
  then have "spec_reach acceptors (view i s)" by (simp add: spec_reach.start)
  then show ?thesis by (rule spec_steps_reach[OF run_view[OF assms(2) init_inv[OF assms(1)]]])
qed

text \<open>What the clients of an implementation see: agreement, and that a choice is final.\<close>

lemma agreement:
  "init s \<Longrightarrow> step\<^sup>*\<^sup>* s t \<Longrightarrow> spec_chosen acceptors (view i t) v \<Longrightarrow> spec_chosen acceptors (view i t) w \<Longrightarrow> v = w"
  by (rule spec_agreement[OF run_reach])

lemma chosen_final:
  assumes "init s" "step\<^sup>*\<^sup>* s t" "step\<^sup>*\<^sup>* t u" "spec_chosen acceptors (view i t) v"
  shows "spec_chosen acceptors (view i u) v"
  using spec_steps_chosen[OF run_view[OF assms(3) run_inv[OF assms(2) init_inv[OF assms(1)]]] assms(4)] .

end

end
