(* ===== verification/Paxos_Network.thy ===== *)
theory Paxos_Network
  imports Paxos_Spec
begin

text \<open>
  A network of one leader and \<open>n\<close> acceptors that run on switches, for programs that handle one packet at a time and keep
  their state in registers.  The network is the set of the packets sent so far, so that packets are
  lost, duplicated and reordered at will.  The locale \<open>paxos_network\<close> is what such a program has to do
  with a packet; the network then implements the specification of Paxos.
\<close>

section \<open>What packets and registers say\<close>

datatype msg_kind = Msg_1A | Msg_1B | Msg_2A | Msg_2B | Msg_other

record ('i, 'b, 'v) msg =
  kind :: msg_kind
  m_inst :: 'i
  m_rnd :: 'b
  m_vrnd :: 'b
  m_val :: 'v

record ('i, 'b, 'v) regs =
  g_rnd :: "'i \<Rightarrow> 'b"
  g_vrnd :: "'i \<Rightarrow> 'b"
  g_val :: "'i \<Rightarrow> 'v"

text \<open>An acceptor that answers a message: with a promise, with a vote, or not at all.\<close>

definition promises :: "('i, 'b::linorder, 'v) regs \<Rightarrow> ('i, 'b, 'v) msg \<Rightarrow> ('i, 'b, 'v) regs \<Rightarrow> ('i, 'b, 'v) msg \<Rightarrow> bool" where
  "promises g m g' m' \<longleftrightarrow> kind m = Msg_1A \<and> g_rnd g (m_inst m) \<le> m_rnd m \<and> g' = g\<lparr>g_rnd := (g_rnd g)(m_inst m := m_rnd m)\<rparr>
     \<and> m' = m\<lparr>kind := Msg_1B, m_vrnd := g_vrnd g (m_inst m), m_val := g_val g (m_inst m)\<rparr>"

definition votes :: "('i, 'b::linorder, 'v) regs \<Rightarrow> ('i, 'b, 'v) msg \<Rightarrow> ('i, 'b, 'v) regs \<Rightarrow> ('i, 'b, 'v) msg \<Rightarrow> bool" where
  "votes g m g' m' \<longleftrightarrow> kind m = Msg_2A \<and> g_rnd g (m_inst m) \<le> m_rnd m
     \<and> g' = \<lparr>g_rnd = (g_rnd g)(m_inst m := m_rnd m), g_vrnd = (g_vrnd g)(m_inst m := m_rnd m), g_val = (g_val g)(m_inst m := m_val m)\<rparr>
     \<and> m' = m\<lparr>kind := Msg_2B\<rparr>"

section \<open>The network\<close>

record ('c, 'st, 'p) switches =
  leader :: 'c
  accs :: "nat \<Rightarrow> 'st"
  packets :: "(sender \<times> 'p) set"

text \<open>\<open>rd\<close> reads the Paxos message in a packet.\<close>

definition net_proposed :: "('p \<Rightarrow> ('i, 'b, 'v) msg) \<Rightarrow> 'i \<Rightarrow> ('c, 'st, 'p) switches \<Rightarrow> 'b \<Rightarrow> 'v \<Rightarrow> bool" where
  "net_proposed rd i s b v \<longleftrightarrow> (\<exists>x p. (x, p) \<in> packets s \<and> kind (rd p) = Msg_2A \<and> m_inst (rd p) = i \<and> m_rnd (rd p) = b \<and> m_val (rd p) = v)"

definition net_voted :: "('p \<Rightarrow> ('i, 'b, 'v) msg) \<Rightarrow> 'i \<Rightarrow> ('c, 'st, 'p) switches \<Rightarrow> nat \<Rightarrow> 'b \<Rightarrow> 'v \<Rightarrow> bool" where
  "net_voted rd i s a b v \<longleftrightarrow> (\<exists>p. (Acc a, p) \<in> packets s \<and> kind (rd p) = Msg_2B \<and> m_inst (rd p) = i \<and> m_rnd (rd p) = b \<and> m_val (rd p) = v)"

definition net_promised :: "('p \<Rightarrow> ('i, 'b, 'v) msg) \<Rightarrow> 'i \<Rightarrow> ('c, 'st, 'p) switches \<Rightarrow> nat \<Rightarrow> 'b \<Rightarrow> 'b \<Rightarrow> 'v \<Rightarrow> bool" where
  "net_promised rd i s a b r w \<longleftrightarrow> (\<exists>p. (Acc a, p) \<in> packets s \<and> kind (rd p) = Msg_1B \<and> m_inst (rd p) = i \<and> m_rnd (rd p) = b
     \<and> m_vrnd (rd p) = r \<and> m_val (rd p) = w)"

definition net_chosen :: "('p \<Rightarrow> ('i, 'b, 'v) msg) \<Rightarrow> nat \<Rightarrow> 'i \<Rightarrow> ('c, 'st, 'p) switches \<Rightarrow> 'v \<Rightarrow> bool" where
  "net_chosen rd n i s v \<longleftrightarrow> (\<exists>b Q. majority n Q \<and> (\<forall>a\<in>Q. net_voted rd i s a b v))"

definition net_view :: "('p \<Rightarrow> ('i, 'b, 'v) msg) \<Rightarrow> ('st \<Rightarrow> ('i, 'b, 'v) regs) \<Rightarrow> 'i \<Rightarrow> ('c, 'st, 'p) switches \<Rightarrow> ('b, 'v) spec" where
  "net_view rd rg i s = \<lparr>sprom = (\<lambda>a. g_rnd (rg (accs s a)) i), svrnd = (\<lambda>a. g_vrnd (rg (accs s a)) i),
     svval = (\<lambda>a. g_val (rg (accs s a)) i), sprops = {(b, v). net_proposed rd i s b v},
     svotes = {(a, b, v). net_voted rd i s a b v}, sproms = {(a, b, r, w). net_promised rd i s a b r w}\<rparr>"

text \<open>
  The steps: anybody sends a phase 1A; the leader numbers a request whose round is one of \<open>B\<close>, if it is \<open>ready\<close> for it;
  a proposer sends a phase 2A in a round above those of the requests, by the rule of phase 2; an acceptor handles a
  packet.  A packet that leaves an acceptor with the message it came with has been passed on and is
  still its sender's.
\<close>

inductive net_step ::
  "('p \<Rightarrow> ('i, 'b::{linorder, zero}, 'v) msg) \<Rightarrow> ('st \<Rightarrow> ('i, 'b, 'v) regs) \<Rightarrow> ('c \<Rightarrow> 'p \<Rightarrow> bool) \<Rightarrow> ('c \<Rightarrow> 'p \<Rightarrow> 'c \<times> 'p option) \<Rightarrow> 'b set
    \<Rightarrow> ('st \<Rightarrow> 'p \<Rightarrow> ('st \<times> 'p option) option) \<Rightarrow> nat \<Rightarrow> ('c, 'st, 'p) switches \<Rightarrow> ('c, 'st, 'p) switches \<Rightarrow> bool"
  for rd rg ready number B handle n where
  prepare: "kind (rd p) = Msg_1A \<Longrightarrow>
     net_step rd rg ready number B handle n s (s\<lparr>packets := insert (Env, p) (packets s)\<rparr>)"
| request: "kind (rd p) = Msg_2A \<Longrightarrow> m_rnd (rd p) \<in> B \<Longrightarrow> ready (leader s) p \<Longrightarrow> number (leader s) p = (c, out) \<Longrightarrow>
     net_step rd rg ready number B handle n s
       (s\<lparr>leader := c, packets := (case out of None \<Rightarrow> packets s | Some q \<Rightarrow> insert (Coord, q) (packets s))\<rparr>)"
| recover: "kind (rd p) = Msg_2A \<Longrightarrow> \<forall>b\<in>B. b < m_rnd (rd p) \<Longrightarrow>
     \<forall>w. net_proposed rd (m_inst (rd p)) s (m_rnd (rd p)) w \<longrightarrow> w = m_val (rd p) \<Longrightarrow>
     phase2_rule n (net_view rd rg (m_inst (rd p)) s) (m_rnd (rd p)) (m_val (rd p)) \<Longrightarrow>
     net_step rd rg ready number B handle n s (s\<lparr>packets := insert (Env, p) (packets s)\<rparr>)"
| handle: "a < n \<Longrightarrow> (x, p) \<in> packets s \<Longrightarrow> handle (accs s a) p = Some (st, out) \<Longrightarrow>
     net_step rd rg ready number B handle n s (s\<lparr>accs := (accs s)(a := st),
       packets := (case out of None \<Rightarrow> packets s | Some q \<Rightarrow> insert (if rd q = rd p then x else Acc a, q) (packets s))\<rparr>)"

definition net_inv :: "('p \<Rightarrow> ('i, 'b, 'v) msg) \<Rightarrow> 'b \<Rightarrow> ('c \<Rightarrow> 'i \<Rightarrow> bool) \<Rightarrow> ('c, 'st, 'p) switches \<Rightarrow> bool" where
  "net_inv rd b0 fresh s \<longleftrightarrow> (\<forall>i v. net_proposed rd i s b0 v \<longrightarrow> \<not> fresh (leader s) i)"

text \<open>When the leader is the only proposer: one proposal for an instance, and votes only for it.\<close>

definition leader_inv :: "('p \<Rightarrow> ('i, 'b, 'v) msg) \<Rightarrow> ('c \<Rightarrow> 'i \<Rightarrow> bool) \<Rightarrow> ('c, 'st, 'p) switches \<Rightarrow> bool" where
  "leader_inv rd fresh s \<longleftrightarrow> (\<forall>i b v. net_proposed rd i s b v \<longrightarrow>
       \<not> fresh (leader s) i \<and> (\<forall>b' v'. net_proposed rd i s b' v' \<longrightarrow> v' = v))
     \<and> (\<forall>i a b v. net_voted rd i s a b v \<longrightarrow> net_proposed rd i s b v)"

text \<open>A network starts with nothing sent, no vote and no promise, and all instances to give out.\<close>

definition net_start :: "('st \<Rightarrow> ('i, 'b::zero, 'v) regs) \<Rightarrow> ('c, 'st, 'p) switches \<Rightarrow> bool" where
  "net_start rg s \<longleftrightarrow> packets s = {} \<and> (\<forall>a i. g_rnd (rg (accs s a)) i = 0 \<and> g_vrnd (rg (accs s a)) i = 0)"

lemmas net_msg_defs = net_proposed_def net_voted_def net_promised_def

lemma leader_invI:
  assumes "\<And>i b v. net_proposed rd i s b v \<Longrightarrow> \<not> fresh (leader s) i"
    and "\<And>i b v b' v'. net_proposed rd i s b v \<Longrightarrow> net_proposed rd i s b' v' \<Longrightarrow> v' = v"
    and "\<And>i a b v. net_voted rd i s a b v \<Longrightarrow> net_proposed rd i s b v"
  shows "leader_inv rd fresh s"
  using assms unfolding leader_inv_def by blast

lemma leader_invD:
  assumes "leader_inv rd fresh s"
  shows "net_proposed rd i s b v \<Longrightarrow> \<not> fresh (leader s) i"
    "net_proposed rd i s b v \<Longrightarrow> net_proposed rd i s b' v' \<Longrightarrow> v' = v"
    "net_voted rd i s a b v \<Longrightarrow> net_proposed rd i s b v"
  using assms unfolding leader_inv_def by blast+

lemma net_insert:
  assumes "packets t = insert (x, p) (packets s)"
  shows "net_proposed rd i t b v \<longleftrightarrow> net_proposed rd i s b v
      \<or> kind (rd p) = Msg_2A \<and> m_inst (rd p) = i \<and> m_rnd (rd p) = b \<and> m_val (rd p) = v"
    "net_voted rd i t a b v \<longleftrightarrow> net_voted rd i s a b v
      \<or> x = Acc a \<and> kind (rd p) = Msg_2B \<and> m_inst (rd p) = i \<and> m_rnd (rd p) = b \<and> m_val (rd p) = v"
    "net_promised rd i t a b r w \<longleftrightarrow> net_promised rd i s a b r w
      \<or> x = Acc a \<and> kind (rd p) = Msg_1B \<and> m_inst (rd p) = i \<and> m_rnd (rd p) = b \<and> m_vrnd (rd p) = r \<and> m_val (rd p) = w"
  using assms by (auto simp: net_msg_defs)

lemma net_passed_on:
  assumes "(x, p) \<in> packets s" "rd q = rd p" "packets t = insert (x, q) (packets s)"
  shows "net_proposed rd i t b v = net_proposed rd i s b v" "net_voted rd i t a b v = net_voted rd i s a b v"
    "net_promised rd i t a b r w = net_promised rd i s a b r w"
  using assms(1,2) unfolding net_msg_defs assms(3) by (metis insert_iff prod.inject)+

lemma net_chosen_view: "net_chosen rd n i s v \<longleftrightarrow> spec_chosen n (net_view rd rg i s) v"
  by (simp add: net_chosen_def spec_chosen_def net_view_def)

lemma net_step_grows: "net_step rd rg ready number B handle n s t \<Longrightarrow> packets s \<subseteq> packets t"
  by (induction rule: net_step.induct) (auto split: option.split)

lemma net_steps_grow: "(net_step rd rg ready number B handle n)\<^sup>*\<^sup>* s t \<Longrightarrow> packets s \<subseteq> packets t"
  by (induction rule: rtranclp_induct) (auto dest: net_step_grows)

lemma net_chosen_grows: "packets s \<subseteq> packets t \<Longrightarrow> net_chosen rd n i s v \<Longrightarrow> net_chosen rd n i t v"
  unfolding net_chosen_def net_voted_def by (meson subsetD)

lemma net_chosen_voted: "net_chosen rd n i s v \<Longrightarrow> \<exists>a b. net_voted rd i s a b v"
  unfolding net_chosen_def majority_def by (metis card.empty ex_in_conv mult_0_right not_less_zero)

section \<open>The contract of the programs\<close>

text \<open>
  \<open>fresh c i\<close>: the leader in state \<open>c\<close> has not given out instance \<open>i\<close> yet.  A handled packet is a promise, a vote, or leaves the
  registers alone and is dropped or passed on.
\<close>

locale paxos_switches =
  fixes rd :: "'p \<Rightarrow> ('i, 'b::{linorder, zero}, 'v) msg" and rg :: "'st \<Rightarrow> ('i, 'b, 'v) regs"
    and ready :: "'c \<Rightarrow> 'p \<Rightarrow> bool" and fresh :: "'c \<Rightarrow> 'i \<Rightarrow> bool" and number :: "'c \<Rightarrow> 'p \<Rightarrow> 'c \<times> 'p option"
    and handle :: "'st \<Rightarrow> 'p \<Rightarrow> ('st \<times> 'p option) option" and n :: nat
  assumes keeps_used: "ready c p \<Longrightarrow> kind (rd p) = Msg_2A \<Longrightarrow> number c p = (c', out) \<Longrightarrow> fresh c' i \<Longrightarrow> fresh c i"
    and numbers: "ready c p \<Longrightarrow> kind (rd p) = Msg_2A \<Longrightarrow> number c p = (c', Some q) \<Longrightarrow>
      fresh c (m_inst (rd q)) \<and> \<not> fresh c' (m_inst (rd q)) \<and> kind (rd q) = Msg_2A \<and> m_rnd (rd q) = m_rnd (rd p)"
    and answers: "handle st p = Some (st', out) \<Longrightarrow>
      rg st' = rg st \<and> (\<forall>q. out = Some q \<longrightarrow> rd q = rd p)
      \<or> (\<exists>q. out = Some q \<and> (promises (rg st) (rd p) (rg st') (rd q) \<or> votes (rg st) (rd p) (rg st') (rd q)))"
begin

lemma handle_view:
  assumes a: "a < n" and p: "(x, p) \<in> packets s" and run: "handle (accs s a) p = Some (st, out)"
  defines "t \<equiv> s\<lparr>accs := (accs s)(a := st),
       packets := (case out of None \<Rightarrow> packets s | Some q \<Rightarrow> insert (if rd q = rd p then x else Acc a, q) (packets s))\<rparr>"
  shows "spec_step n (net_view rd rg i s) (net_view rd rg i t)" "net_proposed rd j t b v = net_proposed rd j s b v"
proof -
  let ?m = "rd p" and ?g = "rg (accs s a)"
  have acc: "rg (accs t c) = (if c = a then rg st else rg (accs s c))" for c by (simp add: t_def)
  consider (none) "rg st = ?g" "out = None"
    | (passed) q where "rg st = ?g" "out = Some q" "rd q = ?m"
    | (promised) q where "out = Some q" "promises ?g ?m (rg st) (rd q)"
    | (voted) q where "out = Some q" "votes ?g ?m (rg st) (rd q)"
    using answers[OF run] by (cases out) auto
  then have "spec_step n (net_view rd rg i s) (net_view rd rg i t) \<and> net_proposed rd j t b v = net_proposed rd j s b v"
  proof cases
    case none
    then have "net_view rd rg i t = net_view rd rg i s" by (simp add: net_view_def net_msg_defs t_def fun_eq_iff)
    then show ?thesis using none by (simp add: spec_step.stutter t_def net_proposed_def)
  next
    case (passed q)
    note same = net_passed_on[OF p passed(3), of t]
    have "net_view rd rg i t = net_view rd rg i s"
      using passed same by (simp add: net_view_def t_def fun_eq_iff)
    then show ?thesis using passed same(1) by (simp add: spec_step.stutter t_def)
  next
    case (promised q)
    then have q: "rd q = ?m\<lparr>kind := Msg_1B, m_vrnd := g_vrnd ?g (m_inst ?m), m_val := g_val ?g (m_inst ?m)\<rparr>" "kind ?m = Msg_1A"
      "rg st = ?g\<lparr>g_rnd := (g_rnd ?g)(m_inst ?m := m_rnd ?m)\<rparr>" "g_rnd ?g (m_inst ?m) \<le> m_rnd ?m"
      by (simp_all add: promises_def)
    have "kind (rd q) \<noteq> kind ?m" using q(1,2) by simp
    then have net: "packets t = insert (Acc a, q) (packets s)" using promised(1) by (auto simp: t_def)
    note ins = net_insert[OF net, where rd = rd]
    have "net_view rd rg i t = (if i = m_inst ?m then (net_view rd rg i s)\<lparr>sprom := (sprom (net_view rd rg i s))(a := m_rnd ?m),
        sproms := insert (a, m_rnd ?m, svrnd (net_view rd rg i s) a, svval (net_view rd rg i s) a) (sproms (net_view rd rg i s))\<rparr>
      else net_view rd rg i s)"
      using q by (auto simp: net_view_def ins acc fun_eq_iff)
    then have "spec_step n (net_view rd rg i s) (net_view rd rg i t)"
      by (rule spec_promise_if[OF _ a]) (use q(4) in \<open>simp add: net_view_def\<close>)
    then show ?thesis using q(1) by (simp add: ins)
  next
    case (voted q)
    then have q: "rd q = ?m\<lparr>kind := Msg_2B\<rparr>" "kind ?m = Msg_2A" "g_rnd ?g (m_inst ?m) \<le> m_rnd ?m"
      "rg st = \<lparr>g_rnd = (g_rnd ?g)(m_inst ?m := m_rnd ?m), g_vrnd = (g_vrnd ?g)(m_inst ?m := m_rnd ?m), g_val = (g_val ?g)(m_inst ?m := m_val ?m)\<rparr>"
      by (simp_all add: votes_def)
    have "kind (rd q) \<noteq> kind ?m" using q(1,2) by simp
    then have net: "packets t = insert (Acc a, q) (packets s)" using voted(1) by (auto simp: t_def)
    note ins = net_insert[OF net, where rd = rd]
    have pro: "net_proposed rd (m_inst ?m) s (m_rnd ?m) (m_val ?m)" using p q(2) by (auto simp: net_proposed_def)
    have "net_view rd rg i t = (if i = m_inst ?m then (net_view rd rg i s)\<lparr>sprom := (sprom (net_view rd rg i s))(a := m_rnd ?m),
        svrnd := (svrnd (net_view rd rg i s))(a := m_rnd ?m), svval := (svval (net_view rd rg i s))(a := m_val ?m),
        svotes := insert (a, m_rnd ?m, m_val ?m) (svotes (net_view rd rg i s))\<rparr> else net_view rd rg i s)"
      using q by (auto simp: net_view_def ins acc fun_eq_iff)
    then have "spec_step n (net_view rd rg i s) (net_view rd rg i t)"
      by (rule spec_vote_if[OF _ a]) (use q(3) pro in \<open>simp_all add: net_view_def\<close>)
    then show ?thesis using q(1) by (simp add: ins)
  qed
  then show "spec_step n (net_view rd rg i s) (net_view rd rg i t)" "net_proposed rd j t b v = net_proposed rd j s b v" by blast+
qed

text \<open>
  Requests of any round, and no other proposer: the leader gives an instance to one request only, so every proposal
  of the instance has its round and its value, and an acceptor votes for nothing else.
\<close>

lemma handle_votes:
  assumes "a < n" "(x, p) \<in> packets s" "handle (accs s a) p = Some (st, out)"
  defines "t \<equiv> s\<lparr>accs := (accs s)(a := st),
       packets := (case out of None \<Rightarrow> packets s | Some q \<Rightarrow> insert (if rd q = rd p then x else Acc a, q) (packets s))\<rparr>"
  shows "net_voted rd i t a' b v \<Longrightarrow> net_voted rd i s a' b v \<or> net_proposed rd i s b v"
  using spec_step_votes[OF handle_view(1)[OF assms(1-3), of i], of a' b v] unfolding t_def by (simp add: net_view_def)

lemma leader_step_inv:
  assumes "net_step rd rg ready number UNIV handle n s t" "leader_inv rd fresh s"
  shows "leader_inv rd fresh t"
  using assms
proof (induction rule: net_step.induct)
  case (prepare p s)
  then show ?case
    by (simp add: leader_inv_def net_insert[of "s\<lparr>packets := insert (Env, p) (packets s)\<rparr>" Env p s])
next
  case (request p s c out)
  let ?t = "s\<lparr>leader := c, packets := (case out of None \<Rightarrow> packets s | Some q \<Rightarrow> insert (Coord, q) (packets s))\<rparr>"
  have used: "fresh c j \<Longrightarrow> fresh (leader s) j" for j by (rule keeps_used[OF request.hyps(3,1,4)])
  show ?case
  proof (cases out)
    case None
    have same: "net_proposed rd i ?t b v = net_proposed rd i s b v" "net_voted rd i ?t a b v = net_voted rd i s a b v" for i a b v
      using None by (simp_all add: net_msg_defs)
    show ?thesis
      by (rule leader_invI; unfold same) (auto dest: leader_invD[OF request.prems] used)
  next
    case (Some q)
    note q = numbers[OF request.hyps(3,1) request.hyps(4)[unfolded Some]]
    have net: "packets ?t = insert (Coord, q) (packets s)" using Some by simp
    have new: "\<not> net_proposed rd (m_inst (rd q)) s b w" for b w using request.prems q by (auto simp: leader_inv_def)
    show ?thesis
      by (rule leader_invI; unfold net_insert[OF net]) (use q new in \<open>auto dest: leader_invD[OF request.prems] used\<close>)
  qed
next
  case (recover p s)
  then show ?case by auto
next
  case (handle a x p s st out)
  note h = handle_view(2)[OF handle.hyps] and v = handle_votes[OF handle.hyps]
  show ?case by (rule leader_invI; unfold h) (auto dest: leader_invD[OF handle.prems] v)
qed

lemma leader_steps_inv:
  "(net_step rd rg ready number UNIV handle n)\<^sup>*\<^sup>* s t \<Longrightarrow> leader_inv rd fresh s \<Longrightarrow> leader_inv rd fresh t"
  by (induction rule: rtranclp_induct) (auto intro: leader_step_inv)

lemma leader_chosen_forever:
  assumes "net_start rg s" "(net_step rd rg ready number UNIV handle n)\<^sup>*\<^sup>* s t" "(net_step rd rg ready number UNIV handle n)\<^sup>*\<^sup>* t u"
    and "net_chosen rd n i t v"
  shows "net_chosen rd n i u v \<and> (\<forall>w. net_chosen rd n i u w \<longrightarrow> w = v)"
proof -
  have "leader_inv rd fresh s" using assms(1) by (simp add: net_start_def leader_inv_def net_msg_defs)
  note inv = leader_steps_inv[OF rtranclp_trans[OF assms(2,3)] this]
  have "net_chosen rd n i u v" by (rule net_chosen_grows[OF net_steps_grow[OF assms(3)] assms(4)])
  moreover have "w = v" if "net_chosen rd n i u v" "net_chosen rd n i u w" for w
    using leader_invD(2,3)[OF inv] net_chosen_voted[OF that(1)] net_chosen_voted[OF that(2)] by metis
  ultimately show ?thesis by blast
qed

end

text \<open>The network with one round \<open>b0\<close> for the requests, the first one, and proposers in higher rounds.\<close>

locale paxos_network = paxos_switches rd rg ready fresh number handle n
  for rd :: "'p \<Rightarrow> ('i, 'b::{linorder, zero}, 'v) msg" and rg :: "'st \<Rightarrow> ('i, 'b, 'v) regs"
    and ready :: "'c \<Rightarrow> 'p \<Rightarrow> bool" and fresh :: "'c \<Rightarrow> 'i \<Rightarrow> bool" and number :: "'c \<Rightarrow> 'p \<Rightarrow> 'c \<times> 'p option"
    and handle :: "'st \<Rightarrow> 'p \<Rightarrow> ('st \<times> 'p option) option" and n :: nat +
  fixes b0 :: 'b
  assumes first_round: "0 < b0" "0 < b \<Longrightarrow> b0 \<le> b"
begin

lemma propose_view:
  assumes acc: "accs t = accs s" and net: "packets t = insert (x, p) (packets s)" and x: "\<forall>a. x \<noteq> Acc a"
    and p: "kind (rd p) = Msg_2A" "0 < m_rnd (rd p)" "\<And>w. net_proposed rd (m_inst (rd p)) s (m_rnd (rd p)) w \<Longrightarrow> w = m_val (rd p)"
    and rule: "m_rnd (rd p) = b0 \<or> phase2_rule n (net_view rd rg (m_inst (rd p)) s) (m_rnd (rd p)) (m_val (rd p))"
  shows "spec_step n (net_view rd rg i s) (net_view rd rg i t)"
proof (rule spec_propose_if)
  show "net_view rd rg i t = (if i = m_inst (rd p)
      then (net_view rd rg i s)\<lparr>sprops := insert (m_rnd (rd p), m_val (rd p)) (sprops (net_view rd rg i s))\<rparr> else net_view rd rg i s)"
    using x p(1) acc by (auto simp: net_view_def net_insert[OF net])
  show "(\<forall>c. 0 < c \<longrightarrow> m_rnd (rd p) \<le> c) \<or> phase2_rule n (net_view rd rg i s) (m_rnd (rd p)) (m_val (rd p))"
    if "i = m_inst (rd p)"
    using rule that first_round(2) by auto
  show "w = m_val (rd p)" if "i = m_inst (rd p)" "(m_rnd (rd p), w) \<in> sprops (net_view rd rg i s)" for w
    using p(3) that by (simp add: net_view_def)
qed (rule p(2))

lemma net_step_refines:
  assumes "net_step rd rg ready number {b0} handle n s t" "net_inv rd b0 fresh s"
  shows "spec_step n (net_view rd rg i s) (net_view rd rg i t) \<and> net_inv rd b0 fresh t"
  using assms
proof (induction rule: net_step.induct)
  case (prepare p s)
  then show ?case
    by (simp add: net_view_def net_inv_def net_insert[of "s\<lparr>packets := insert (Env, p) (packets s)\<rparr>" Env p s] spec_step.stutter)
next
  case (request p s c out)
  let ?t = "s\<lparr>leader := c, packets := (case out of None \<Rightarrow> packets s | Some q \<Rightarrow> insert (Coord, q) (packets s))\<rparr>"
  have used: "fresh c j \<Longrightarrow> fresh (leader s) j" for j by (rule keeps_used[OF request.hyps(3,1,4)])
  show ?case
  proof (cases out)
    case None
    then show ?thesis
      using request.prems used by (auto simp: net_view_def net_msg_defs net_inv_def spec_step.stutter)
  next
    case (Some q)
    note q = numbers[OF request.hyps(3,1) request.hyps(4)[unfolded Some]]
    have net: "packets ?t = insert (Coord, q) (packets s)" using Some by simp
    have new: "\<not> net_proposed rd (m_inst (rd q)) s b0 w" for w using request.prems q by (auto simp: net_inv_def)
    have "spec_step n (net_view rd rg i s) (net_view rd rg i ?t)"
      by (rule propose_view[OF _ net]) (use q new request.hyps(2) first_round(1) in auto)
    moreover have "net_inv rd b0 fresh ?t"
      using request.prems used q unfolding net_inv_def by (auto simp: net_insert(1)[OF net])
    ultimately show ?thesis ..
  qed
next
  case (recover p s)
  let ?t = "s\<lparr>packets := insert (Env, p) (packets s)\<rparr>"
  have net: "packets ?t = insert (Env, p) (packets s)" by simp
  have "spec_step n (net_view rd rg i s) (net_view rd rg i ?t)"
    by (rule propose_view[OF _ net]) (use recover.hyps first_round(1) in auto)
  moreover have "net_inv rd b0 fresh ?t"
    using recover.prems recover.hyps(2) by (auto simp: net_inv_def net_insert(1)[OF net])
  ultimately show ?case ..
next
  case (handle a x p s st out)
  note h = handle_view[OF handle.hyps]
  show ?case using h(1) handle.prems by (simp add: net_inv_def h(2))
qed

end

sublocale paxos_network \<subseteq> impl: paxos_implementation n "net_start rg" "net_step rd rg ready number {b0} handle n"
  "net_inv rd b0 fresh" "net_view rd rg"
proof unfold_locales
  fix s :: "('c, 'st, 'p) switches" and i
  assume "net_start rg s"
  then show "net_inv rd b0 fresh s" "\<exists>v. net_view rd rg i s = spec_init v"
    by (simp_all add: net_start_def net_inv_def net_msg_defs net_view_def spec_init_def)
next
  fix s t i
  assume s: "net_inv rd b0 fresh s" "net_step rd rg ready number {b0} handle n s t"
  show "net_inv rd b0 fresh t" by (rule conjunct2[OF net_step_refines[OF s(2,1)]])
  show "spec_step n (net_view rd rg i s) (net_view rd rg i t)" by (rule conjunct1[OF net_step_refines[OF s(2,1)]])
qed

context paxos_network
begin

text \<open>The outcome for the users of such a network: one value per instance, for ever.\<close>

lemma chosen_forever:
  assumes "net_start rg s" "(net_step rd rg ready number {b0} handle n)\<^sup>*\<^sup>* s t" "(net_step rd rg ready number {b0} handle n)\<^sup>*\<^sup>* t u"
    and "net_chosen rd n i t v"
  shows "net_chosen rd n i u v \<and> (\<forall>w. net_chosen rd n i u w \<longrightarrow> w = v)"
proof -
  have v: "spec_chosen n (net_view rd rg i u) v"
    by (rule impl.chosen_final[OF assms(1-3)]) (use assms(4) in \<open>simp add: net_chosen_view[where rg = rg]\<close>)
  have "w = v" if "spec_chosen n (net_view rd rg i u) w" for w
    by (rule impl.agreement[OF assms(1) rtranclp_trans[OF assms(2,3)] that v])
  with v show ?thesis unfolding net_chosen_view[where rg = rg] by blast
qed

end

end
