(* ===== verification/P4_16_Paxos.thy ===== *)
theory P4_16_Paxos
  imports Prelude Paxos_Network
begin

text \<open>
  The P4-16 programs of \<^verbatim>\<open>p4-16/p4src\<close>: leader, acceptor and learner as switch pipelines.  A pipeline parses a packet,
  verifies its checksum, runs the ingress control on it and sends it to the port the control has
  chosen, if any.  The entries of the transport tables and the checksum unit are parameters.  The leader and the
  acceptors of these programs keep the contract \<open>paxos_network\<close>.
\<close>

section \<open>Headers and pipeline\<close>

definition PAXOS_1A :: u16 where "PAXOS_1A = 0"
definition PAXOS_1B :: u16 where "PAXOS_1B = 1"
definition PAXOS_2A :: u16 where "PAXOS_2A = 2"
definition PAXOS_2B :: u16 where "PAXOS_2B = 3"
definition INSTANCE_COUNT :: nat where "INSTANCE_COUNT = 65536"
definition ETHERTYPE_IPV4 :: u16 where "ETHERTYPE_IPV4 = 0x0800"
definition UDP_PROTOCOL :: u8 where "UDP_PROTOCOL = 0x11"
definition PAXOS_PROTOCOL :: u16 where "PAXOS_PROTOCOL = 0x8888"

record paxos_t =
  msgtype :: u16
  inst :: u32
  rnd :: u16
  vrnd :: u16
  acptid :: u16
  paxoslen :: u32
  paxosval :: "256 word"

text \<open>\<open>rest\<close> are the fields of the Ethernet, IPv4 and UDP headers that no control reads or writes.\<close>

record 'h headers =
  etherType :: u16
  protocol :: u8
  hdrChecksum :: u16
  dstPort :: u16
  paxos :: paxos_t
  rest :: 'h

record paxos_metadata_t =
  round :: u16
  set_drop :: "1 word"
  ack_count :: u8
  ack_acceptors :: u8

text \<open>A packet in work: which headers the parser found, and the port it leaves by, \<open>None\<close> when it is marked to be dropped.\<close>

record 'h work =
  hdr :: "'h headers"
  ipv4_isValid :: bool
  paxos_isValid :: bool
  meta :: paxos_metadata_t
  egress_spec :: "nat option"

text \<open>An access outside a register array is not defined by the language.\<close>

datatype p4_error = Register_out_of_range

text \<open>
  The parser's \<^verbatim>\<open>parse_ethernet\<close> has no transition for a packet that is not IPv4, which makes the parser reject it; in the
  \<^verbatim>\<open>v1model\<close> architecture of these programs a rejected packet goes on to the ingress control with the headers
  extracted so far, here none but Ethernet.
\<close>

definition TopParser :: "'h headers \<Rightarrow> 'h work" where
  "TopParser p = (let ipv4 = (etherType p = ETHERTYPE_IPV4); udp = (ipv4 \<and> protocol p = UDP_PROTOCOL) in
    \<lparr>hdr = p, ipv4_isValid = ipv4, paxos_isValid = (udp \<and> dstPort p = PAXOS_PROTOCOL),
     meta = \<lparr>round = 0, set_drop = 0, ack_count = 0, ack_acceptors = 0\<rparr>, egress_spec = Some 0\<rparr>)"

definition mark_to_drop :: "'h work \<Rightarrow> 'h work" where
  "mark_to_drop w = w\<lparr>egress_spec := None\<rparr>"

text \<open>The packet is marked when the checksum is the right one.\<close>

definition verifyChecksum :: "('h headers \<Rightarrow> u16) \<Rightarrow> 'h work \<Rightarrow> 'h work" where
  "verifyChecksum csum w = (if hdrChecksum (hdr w) = csum (hdr w) then mark_to_drop w else w)"

definition computeChecksum :: "('h headers \<Rightarrow> u16) \<Rightarrow> 'h work \<Rightarrow> 'h work" where
  "computeChecksum csum w = w\<lparr>hdr := (hdr w)\<lparr>hdrChecksum := csum (hdr w)\<rparr>\<rparr>"

definition TopDeparser :: "'h work \<Rightarrow> (nat \<times> 'h headers) option" where
  "TopDeparser w = (case egress_spec w of None \<Rightarrow> None | Some port \<Rightarrow> Some (port, hdr w))"

text \<open>The pipeline, with the ingress control and the state of its registers; the egress control does nothing.\<close>

definition V1Switch ::
  "('h headers \<Rightarrow> u16) \<Rightarrow> ('st \<Rightarrow> 'h work \<Rightarrow> p4_error + 'st \<times> 'h work) \<Rightarrow> 'st \<Rightarrow> 'h headers
    \<Rightarrow> p4_error + 'st \<times> (nat \<times> 'h headers) option" where
  "V1Switch csum ingress st p =
    (case ingress st (verifyChecksum csum (TopParser p)) of
       Inl e \<Rightarrow> Inl e
     | Inr (st, w) \<Rightarrow> Inr (st, TopDeparser (computeChecksum csum w)))"

section \<open>The transport tables\<close>

datatype transport_action = Drop | Forward nat u16

definition forward :: "nat \<Rightarrow> u16 \<Rightarrow> 'h work \<Rightarrow> 'h work" where
  "forward port newPort w = w\<lparr>egress_spec := Some port, hdr := (hdr w)\<lparr>dstPort := newPort\<rparr>\<rparr>"

text \<open>The key is \<^verbatim>\<open>set_drop\<close>; what misses is dropped.\<close>

definition transport_tbl :: "(1 word \<Rightarrow> transport_action option) \<Rightarrow> 'h work \<Rightarrow> 'h work" where
  "transport_tbl T w = (case T (set_drop (meta w)) of
     None \<Rightarrow> mark_to_drop w | Some Drop \<Rightarrow> mark_to_drop w | Some (Forward port newPort) \<Rightarrow> forward port newPort w)"

section \<open>The leader\<close>

text \<open>Its register is \<^verbatim>\<open>registerInstance\<close>.\<close>

definition increase_instance :: "u32 \<Rightarrow> 'h work \<Rightarrow> u32 \<times> 'h work" where
  "increase_instance registerInstance w =
    (let i = registerInstance + 1 in
     (i, w\<lparr>hdr := (hdr w)\<lparr>paxos := (paxos (hdr w))\<lparr>inst := i\<rparr>\<rparr>, meta := (meta w)\<lparr>set_drop := 0\<rparr>\<rparr>))"

definition reset_instance :: "u32 \<Rightarrow> 'h work \<Rightarrow> u32 \<times> 'h work" where
  "reset_instance registerInstance w = (0, w\<lparr>meta := (meta w)\<lparr>set_drop := 1\<rparr>\<rparr>)"

text \<open>The entries of \<^verbatim>\<open>config-leader.txt\<close>: message type 2 is a request, 5 a reset.\<close>

definition leader_tbl :: "u32 \<Rightarrow> 'h work \<Rightarrow> u32 \<times> 'h work" where
  "leader_tbl registerInstance w =
    (if msgtype (paxos (hdr w)) = 2 then increase_instance registerInstance w
     else if msgtype (paxos (hdr w)) = 5 then reset_instance registerInstance w
     else (registerInstance, mark_to_drop w))"

definition leader_ingress :: "(1 word \<Rightarrow> transport_action option) \<Rightarrow> u32 \<Rightarrow> 'h work \<Rightarrow> p4_error + u32 \<times> 'h work" where
  "leader_ingress T registerInstance w =
    Inr (if ipv4_isValid w \<and> paxos_isValid w
         then case leader_tbl registerInstance w of (r, w) \<Rightarrow> (r, transport_tbl T w)
         else (registerInstance, w))"

section \<open>The acceptor\<close>

record acceptor =
  registerAcceptorID :: u16
  registerRound :: "nat \<Rightarrow> u16"
  registerVRound :: "nat \<Rightarrow> u16"
  registerValue :: "nat \<Rightarrow> 256 word"

definition handle_1a :: "acceptor \<Rightarrow> 'h work \<Rightarrow> acceptor \<times> 'h work" where
  "handle_1a st w =
    (let p = paxos (hdr w); k = unat (inst p);
         p = p\<lparr>msgtype := PAXOS_1B, vrnd := registerVRound st k, paxosval := registerValue st k, acptid := registerAcceptorID st\<rparr>
     in (st\<lparr>registerRound := (registerRound st)(k := rnd p)\<rparr>,
         w\<lparr>hdr := (hdr w)\<lparr>paxos := p\<rparr>, meta := (meta w)\<lparr>set_drop := 0\<rparr>\<rparr>))"

definition handle_2a :: "acceptor \<Rightarrow> 'h work \<Rightarrow> acceptor \<times> 'h work" where
  "handle_2a st w =
    (let p = paxos (hdr w); k = unat (inst p);
         p = p\<lparr>msgtype := PAXOS_2B, acptid := registerAcceptorID st\<rparr>
     in (st\<lparr>registerRound := (registerRound st)(k := rnd p), registerVRound := (registerVRound st)(k := rnd p),
            registerValue := (registerValue st)(k := paxosval p)\<rparr>,
         w\<lparr>hdr := (hdr w)\<lparr>paxos := p\<rparr>, meta := (meta w)\<lparr>set_drop := 0\<rparr>\<rparr>))"

text \<open>The entries of \<^verbatim>\<open>config-acceptor.txt\<close>.\<close>

definition acceptor_tbl :: "acceptor \<Rightarrow> 'h work \<Rightarrow> acceptor \<times> 'h work" where
  "acceptor_tbl st w =
    (if msgtype (paxos (hdr w)) = 0 then handle_1a st w
     else if msgtype (paxos (hdr w)) = 2 then handle_2a st w
     else (st, mark_to_drop w))"

text \<open>The first access to a register, in \<^verbatim>\<open>read_round\<close>, has the index of all the others.\<close>

definition acceptor_ingress :: "(1 word \<Rightarrow> transport_action option) \<Rightarrow> acceptor \<Rightarrow> 'h work \<Rightarrow> p4_error + acceptor \<times> 'h work" where
  "acceptor_ingress T st w =
    (if ipv4_isValid w \<and> paxos_isValid w then
       let p = paxos (hdr w); k = unat (inst p) in
       if INSTANCE_COUNT \<le> k then Inl Register_out_of_range
       else
         (let w = w\<lparr>meta := (meta w)\<lparr>round := registerRound st k, set_drop := 1\<rparr>\<rparr> in
          Inr (if round (meta w) \<le> rnd p
               then case acceptor_tbl st w of (st, w) \<Rightarrow> (st, transport_tbl T w)
               else (st, w)))
     else Inr (st, w))"

section \<open>The learner\<close>

record learner =
  l_registerRound :: "nat \<Rightarrow> u16"
  l_registerValue :: "nat \<Rightarrow> 256 word"
  registerHistory2B :: "nat \<Rightarrow> u8"

text \<open>The bit of an acceptor, from the low eight bits of its id.\<close>

definition ack_bit :: "paxos_t \<Rightarrow> u8" where
  "ack_bit p = push_bit (unat (ucast (acptid p) :: u8)) 1"

definition handle_2b :: "learner \<Rightarrow> 'h work \<Rightarrow> learner \<times> 'h work" where
  "handle_2b st w =
    (let p = paxos (hdr w); k = unat (inst p); acks = or (ack_acceptors (meta w)) (ack_bit p) in
     (st\<lparr>l_registerRound := (l_registerRound st)(k := rnd p), l_registerValue := (l_registerValue st)(k := paxosval p),
         registerHistory2B := (registerHistory2B st)(k := acks)\<rparr>,
      w\<lparr>meta := (meta w)\<lparr>ack_acceptors := acks\<rparr>\<rparr>))"

definition handle_new_value :: "learner \<Rightarrow> 'h work \<Rightarrow> learner \<times> 'h work" where
  "handle_new_value st w =
    (let p = paxos (hdr w); k = unat (inst p) in
     (st\<lparr>l_registerRound := (l_registerRound st)(k := rnd p), l_registerValue := (l_registerValue st)(k := paxosval p),
         registerHistory2B := (registerHistory2B st)(k := ack_bit p)\<rparr>, w))"

text \<open>
  \<^verbatim>\<open>read_round\<close> and the two tables.  Both tables have their only action as default, so the message type makes no difference.
\<close>

definition count_vote :: "learner \<Rightarrow> 'h work \<Rightarrow> learner \<times> 'h work" where
  "count_vote st w =
    (let p = paxos (hdr w); k = unat (inst p);
         w = w\<lparr>meta := (meta w)\<lparr>round := l_registerRound st k, set_drop := 1, ack_acceptors := registerHistory2B st k\<rparr>\<rparr>
     in if round (meta w) < rnd p then handle_new_value st w
        else if rnd p = round (meta w) then handle_2b st w
        else (st, w))"

definition learner_ingress :: "(1 word \<Rightarrow> transport_action option) \<Rightarrow> learner \<Rightarrow> 'h work \<Rightarrow> p4_error + learner \<times> 'h work" where
  "learner_ingress T st w =
    (if ipv4_isValid w \<and> paxos_isValid w then
       if INSTANCE_COUNT \<le> unat (inst (paxos (hdr w))) then Inl Register_out_of_range
       else
         (case count_vote st w of (st, w) \<Rightarrow>
            Inr (st, if ack_acceptors (meta w) \<in> {6, 5, 3} then transport_tbl T w else w))
     else Inr (st, w))"

section \<open>Leader and acceptors keep the contract\<close>

text \<open>What a packet says and what the registers hold.\<close>

definition msg_of :: "'h headers \<Rightarrow> (u32, u16, 256 word) msg" where
  "msg_of h = (let p = paxos h in
     \<lparr>kind = (if msgtype p = PAXOS_1A then Msg_1A else if msgtype p = PAXOS_1B then Msg_1B
              else if msgtype p = PAXOS_2A then Msg_2A else if msgtype p = PAXOS_2B then Msg_2B else Msg_other),
      m_inst = inst p, m_rnd = rnd p, m_vrnd = vrnd p, m_val = paxosval p\<rparr>)"

definition regs_of :: "acceptor \<Rightarrow> (u32, u16, 256 word) regs" where
  "regs_of st = \<lparr>g_rnd = (\<lambda>i. registerRound st (unat i)), g_vrnd = (\<lambda>i. registerVRound st (unat i)),
     g_val = (\<lambda>i. registerValue st (unat i))\<rparr>"

lemmas type_defs = PAXOS_1A_def PAXOS_1B_def PAXOS_2A_def PAXOS_2B_def

text \<open>The packets the parser takes for Paxos.\<close>

definition is_paxos :: "'h headers \<Rightarrow> bool" where
  "is_paxos p \<longleftrightarrow> etherType p = ETHERTYPE_IPV4 \<and> protocol p = UDP_PROTOCOL \<and> dstPort p = PAXOS_PROTOCOL"

lemma parsed:
  "hdr (verifyChecksum csum (TopParser p)) = p"
  "ipv4_isValid (verifyChecksum csum (TopParser p)) \<and> paxos_isValid (verifyChecksum csum (TopParser p)) \<longleftrightarrow> is_paxos p"
  by (auto simp: TopParser_def verifyChecksum_def mark_to_drop_def is_paxos_def Let_def)

text \<open>The message of a packet is read off its Paxos header, which the last stages leave alone.\<close>

lemma msg_kept:
  "msg_of (hdr (computeChecksum csum w)) = msg_of (hdr w)" "msg_of (hdr (transport_tbl T w)) = msg_of (hdr w)"
  "msg_of (hdr (mark_to_drop w)) = msg_of (hdr w)" "egress_spec (computeChecksum csum w) = egress_spec w"
  by (auto simp: computeChecksum_def transport_tbl_def mark_to_drop_def forward_def msg_of_def Let_def
      split: option.split transport_action.split)

definition sent :: "('h headers \<Rightarrow> u16) \<Rightarrow> 'h work \<Rightarrow> 'h headers option" where
  "sent csum w = map_option snd (TopDeparser (computeChecksum csum w))"

lemma msg_sent: "sent csum w = Some q \<Longrightarrow> msg_of q = msg_of (hdr w)"
  by (auto simp: sent_def TopDeparser_def msg_kept split: option.splits)

lemma forwarded: "T (set_drop (meta w)) = Some (Forward port newPort) \<Longrightarrow> \<exists>q. sent csum (transport_tbl T w) = Some q"
  by (simp add: transport_tbl_def forward_def sent_def TopDeparser_def computeChecksum_def)

definition leader_switch :: "('h headers \<Rightarrow> u16) \<Rightarrow> (1 word \<Rightarrow> transport_action option) \<Rightarrow> u32 \<Rightarrow> 'h headers \<Rightarrow> u32 \<times> 'h headers option" where
  "leader_switch csum T c p = (case V1Switch csum (leader_ingress T) c p of Inl _ \<Rightarrow> (c, None) | Inr (c, out) \<Rightarrow> (c, map_option snd out))"

definition acceptor_switch ::
  "('h headers \<Rightarrow> u16) \<Rightarrow> (1 word \<Rightarrow> transport_action option) \<Rightarrow> acceptor \<Rightarrow> 'h headers \<Rightarrow> (acceptor \<times> 'h headers option) option" where
  "acceptor_switch csum T st p = (case V1Switch csum (acceptor_ingress T) st p of Inl _ \<Rightarrow> None | Inr (st, out) \<Rightarrow> Some (st, map_option snd out))"

lemma leader_numbers:
  assumes "is_paxos p" "msgtype (paxos p) = PAXOS_2A" "leader_switch csum T c p = (c', out)"
  shows "c' = c + 1" "out = Some q \<Longrightarrow> msg_of q = (msg_of p)\<lparr>m_inst := c + 1\<rparr>"
proof -
  let ?w = "verifyChecksum csum (TopParser p)"
  obtain r w where w: "increase_instance c ?w = (r, w)" by fastforce
  have r: "r = c + 1" "msg_of (hdr w) = (msg_of p)\<lparr>m_inst := c + 1\<rparr>"
    using w parsed(1)[of csum p] by (auto simp: increase_instance_def msg_of_def Let_def)
  have "leader_tbl c ?w = (r, w)" using assms(2) w by (simp add: leader_tbl_def parsed type_defs)
  then have "leader_ingress T c ?w = Inr (r, transport_tbl T w)" using assms(1) by (simp add: leader_ingress_def parsed)
  then have run: "c' = r" "out = sent csum (transport_tbl T w)"
    using assms(3) by (auto simp: leader_switch_def V1Switch_def sent_def)
  show "c' = c + 1" using run r by simp
  show "msg_of q = (msg_of p)\<lparr>m_inst := c + 1\<rparr>" if "out = Some q"
    using that run(2) r(2) msg_sent msg_kept(2) by metis
qed

text \<open>The acceptor answers, provided that the transport table sends on what is not to be dropped.\<close>

lemma p4_16_acceptor_answers:
  assumes T: "T 0 = Some (Forward port newPort)" and run: "acceptor_switch csum T st p = Some (st', out)"
  shows "regs_of st' = regs_of st \<and> (\<forall>q. out = Some q \<longrightarrow> msg_of q = msg_of p)
    \<or> (\<exists>q. out = Some q \<and> (promises (regs_of st) (msg_of p) (regs_of st') (msg_of q)
      \<or> votes (regs_of st) (msg_of p) (regs_of st') (msg_of q)))"
proof -
  let ?v = "verifyChecksum csum (TopParser p)" and ?k = "unat (inst (paxos p))"
  let ?w = "?v\<lparr>meta := (meta ?v)\<lparr>round := registerRound st ?k, set_drop := 1\<rparr>\<rparr>"
  have hdr: "hdr ?w = p" using parsed(1)[of csum p] by simp
  consider (pass) w where "st' = st" "out = sent csum w" "hdr w = p"
    | (work) w where "registerRound st ?k \<le> rnd (paxos p)" "acceptor_tbl st ?w = (st', w)" "out = sent csum (transport_tbl T w)"
  proof (cases "is_paxos p \<and> ?k < INSTANCE_COUNT \<and> registerRound st ?k \<le> rnd (paxos p)")
    case True
    obtain t w where t: "acceptor_tbl st ?w = (t, w)" by fastforce
    have "acceptor_ingress T st ?v = Inr (t, transport_tbl T w)"
      using True t parsed[of csum p] by (simp add: acceptor_ingress_def)
    then show thesis using that(2)[of w] run t True by (simp add: acceptor_switch_def V1Switch_def sent_def)
  next
    case False
    then have "acceptor_ingress T st ?v \<in> {Inl Register_out_of_range, Inr (st, ?v), Inr (st, ?w)}"
      using parsed[of csum p] by (auto simp: acceptor_ingress_def Let_def)
    then show thesis using that(1)[of ?v] that(1)[of ?w] run hdr parsed(1)[of csum p] by (auto simp: acceptor_switch_def V1Switch_def sent_def)
  qed
  then show ?thesis
  proof cases
    case pass
    then show ?thesis using msg_sent by metis
  next
    case (work w)
    note w = work(2,3)
    have answered: "\<exists>q. out = Some q \<and> msg_of q = msg_of (hdr w)" if "set_drop (meta w) = 0"
      using forwarded[of T w port newPort csum] that T w(2) msg_sent msg_kept(2) by metis
    consider "msgtype (paxos p) = PAXOS_1A" "handle_1a st ?w = (st', w)" | "msgtype (paxos p) = PAXOS_2A" "handle_2a st ?w = (st', w)"
      | "st' = st" "w = mark_to_drop ?w"
      using w(1) hdr by (auto simp: acceptor_tbl_def type_defs split: if_splits)
    then show ?thesis
    proof cases
      case 1
      then have "set_drop (meta w) = 0" by (auto simp: handle_1a_def Let_def)
      moreover have "promises (regs_of st) (msg_of p) (regs_of st') (msg_of (hdr w))"
        using 1 work(1) hdr by (auto simp: promises_def handle_1a_def msg_of_def regs_of_def type_defs fun_eq_iff Let_def word_unat_eq_iff)
      ultimately show ?thesis using answered by metis
    next
      case 2
      then have "set_drop (meta w) = 0" by (auto simp: handle_2a_def Let_def)
      moreover have "votes (regs_of st) (msg_of p) (regs_of st') (msg_of (hdr w))"
        using 2 work(1) hdr by (auto simp: votes_def handle_2a_def msg_of_def regs_of_def type_defs fun_eq_iff Let_def word_unat_eq_iff)
      ultimately show ?thesis using answered by metis
    next
      case 3
      then show ?thesis using w(2) msg_sent hdr by (metis msg_kept(2,3))
    qed
  qed
qed

text \<open>A leader that can number the packet: it parses it, and the counter has not gone round.  \<open>B\<close> are the rounds the clients
  put into their requests.\<close>

definition can_number :: "u32 \<Rightarrow> 'h headers \<Rightarrow> bool" where
  "can_number c p \<longleftrightarrow> c \<noteq> - 1 \<and> is_paxos p"

definition p4_16_step ::
  "('h headers \<Rightarrow> u16) \<Rightarrow> (1 word \<Rightarrow> transport_action option) \<Rightarrow> (1 word \<Rightarrow> transport_action option) \<Rightarrow> u16 set \<Rightarrow> nat
    \<Rightarrow> (u32, acceptor, 'h headers) switches \<Rightarrow> (u32, acceptor, 'h headers) switches \<Rightarrow> bool" where
  "p4_16_step csum TL TA B n = net_step msg_of regs_of can_number (leader_switch csum TL) B (acceptor_switch csum TA) n"

lemma kind_2a: "kind (msg_of p) = Msg_2A \<longleftrightarrow> msgtype (paxos p) = PAXOS_2A"
  by (simp add: msg_of_def type_defs Let_def)

interpretation p4_16: paxos_network msg_of regs_of can_number "\<lambda>c i. c < i" "leader_switch csum TL"
  "acceptor_switch csum (TA(0 \<mapsto> Forward port newPort))" n 1 for csum TL TA port newPort n
proof unfold_locales
  show "0 < (1 :: u16)" by simp
  show "1 \<le> b" if "0 < b" for b :: u16 using that by (simp add: word_le_nat_alt word_less_nat_alt)
next
  fix c p c' out i
  assume p: "can_number c p" "kind (msg_of p) = Msg_2A" "leader_switch csum TL c p = (c', out)" "c' < i"
  have "c' = c + 1" using leader_numbers(1)[OF _ _ p(3)] p(1,2) by (simp add: can_number_def kind_2a)
  then show "c < i" using word_less_Suc[of c] p(1,4) by (auto simp: can_number_def intro: order.strict_trans)
next
  fix c p c' q
  assume p: "can_number c p" "kind (msg_of p) = Msg_2A" "leader_switch csum TL c p = (c', Some q)"
  have q: "c' = c + 1" "msg_of q = (msg_of p)\<lparr>m_inst := c + 1\<rparr>"
    using leader_numbers[OF _ _ p(3)] p(1,2) by (simp_all add: can_number_def kind_2a)
  then show "c < m_inst (msg_of q) \<and> \<not> c' < m_inst (msg_of q) \<and> kind (msg_of q) = Msg_2A \<and> m_rnd (msg_of q) = m_rnd (msg_of p)"
    using word_less_Suc[of c] p(1,2) by (simp add: can_number_def)
next
  fix st p st' out
  assume "acceptor_switch csum (TA(0 \<mapsto> Forward port newPort)) st p = Some (st', out)"
  then show "regs_of st' = regs_of st \<and> (\<forall>q. out = Some q \<longrightarrow> msg_of q = msg_of p)
    \<or> (\<exists>q. out = Some q \<and> (promises (regs_of st) (msg_of p) (regs_of st') (msg_of q)
      \<or> votes (regs_of st) (msg_of p) (regs_of st') (msg_of q)))"
    by (rule p4_16_acceptor_answers[rotated]) simp
qed

text \<open>C8: Agreement for the P4-16 switches: a leader that is not reset and acceptors that run these programs, with packets lost,
  duplicated and reordered at will, never choose two values for an instance, and what is chosen stays
  chosen, in two settings: clients that send their requests in any rounds they like, round 0 of
  \<^verbatim>\<open>paxos_test.py\<close> included, when the leader is the only proposer; and clients that send in round 1, when
  other proposers recover instances in higher rounds and keep the rule of phase 2.\<close>

theorem p4_16_agreement:
  assumes "TA 0 = Some (Forward port newPort)" "net_start regs_of s" "B = UNIV \<or> B = {1}"
    and "(p4_16_step csum TL TA B n)\<^sup>*\<^sup>* s t" "(p4_16_step csum TL TA B n)\<^sup>*\<^sup>* t u" "net_chosen msg_of n i t v"
  shows "net_chosen msg_of n i u v \<and> (\<forall>w. net_chosen msg_of n i u w \<longrightarrow> w = v)"
proof -
  have T: "TA(0 \<mapsto> Forward port newPort) = TA" using assms(1) by (simp add: fun_upd_idem)
  note run = assms(4-6)[unfolded p4_16_step_def]
  from assms(3) show ?thesis
  proof
    assume B: "B = UNIV"
    show ?thesis
      by (rule p4_16.leader_chosen_forever[where csum = csum and TL = TL and TA = TA and port = port and newPort = newPort and n = n,
        unfolded T, OF assms(2) run[unfolded B]])
  next
    assume B: "B = {1}"
    show ?thesis
      by (rule p4_16.chosen_forever[where csum = csum and TL = TL and TA = TA and port = port and newPort = newPort and n = n,
        unfolded T, OF assms(2) run[unfolded B]])
  qed
qed

subsection \<open>A run\<close>

text \<open>Three acceptors; a request of the client's default round 0 goes through the leader and two of them vote.\<close>

definition example_transport :: "1 word \<Rightarrow> transport_action option" where
  "example_transport k = (if k = 0 then Some (Forward 1 PAXOS_PROTOCOL) else Some Drop)"

definition example_headers :: "u16 \<Rightarrow> u32 \<Rightarrow> u16 \<Rightarrow> 256 word \<Rightarrow> unit headers" where
  "example_headers t i b v = \<lparr>etherType = ETHERTYPE_IPV4, protocol = UDP_PROTOCOL, hdrChecksum = 0, dstPort = PAXOS_PROTOCOL,
     paxos = \<lparr>msgtype = t, inst = i, rnd = b, vrnd = 0, acptid = 0, paxoslen = 32, paxosval = v\<rparr>, rest = ()\<rparr>"

definition example_csum :: "unit headers \<Rightarrow> u16" where
  "example_csum h = 0"

definition example_switches :: "(u32, acceptor, unit headers) switches" where
  "example_switches = \<lparr>leader = 0,
     accs = (\<lambda>a. \<lparr>registerAcceptorID = of_nat a, registerRound = (\<lambda>_. 0), registerVRound = (\<lambda>_. 0), registerValue = (\<lambda>_. 0)\<rparr>),
     packets = {}\<rparr>"

lemmas example_defs = example_transport_def example_headers_def example_csum_def example_switches_def type_defs
  ETHERTYPE_IPV4_def UDP_PROTOCOL_def PAXOS_PROTOCOL_def INSTANCE_COUNT_def

lemmas pipeline_defs = V1Switch_def TopParser_def verifyChecksum_def computeChecksum_def TopDeparser_def mark_to_drop_def
  transport_tbl_def forward_def

lemma example_start: "net_start regs_of example_switches"
  by (simp add: net_start_def example_switches_def regs_of_def)

lemma example_request:
  "leader_switch example_csum example_transport 0 (example_headers PAXOS_2A 9 0 42) = (1, Some (example_headers PAXOS_2A 1 0 42))"
  by (simp add: leader_switch_def leader_ingress_def leader_tbl_def increase_instance_def pipeline_defs example_defs Let_def)

lemma example_vote:
  "\<exists>st. acceptor_switch example_csum example_transport (accs example_switches a) (example_headers PAXOS_2A 1 0 42)
     = Some (st, Some ((example_headers PAXOS_2B 1 0 42)\<lparr>paxos := (paxos (example_headers PAXOS_2B 1 0 42))\<lparr>acptid := of_nat a\<rparr>\<rparr>))"
  by (simp add: acceptor_switch_def acceptor_ingress_def acceptor_tbl_def handle_2a_def pipeline_defs example_defs Let_def)

lemma msg_of_example: "msg_of (example_headers PAXOS_2A i b v) =
    \<lparr>kind = Msg_2A, m_inst = i, m_rnd = b, m_vrnd = 0, m_val = v\<rparr>"
  "msg_of ((example_headers PAXOS_2B i b v)\<lparr>paxos := (paxos (example_headers PAXOS_2B i b v))\<lparr>acptid := k\<rparr>\<rparr>) =
    \<lparr>kind = Msg_2B, m_inst = i, m_rnd = b, m_vrnd = 0, m_val = v\<rparr>"
  by (simp_all add: msg_of_def example_headers_def type_defs)

abbreviation example_step :: "(u32, acceptor, unit headers) switches \<Rightarrow> (u32, acceptor, unit headers) switches \<Rightarrow> bool" where
  "example_step \<equiv> p4_16_step example_csum example_transport example_transport UNIV 3"

lemma example_handled:
  assumes "a < 3" "(Coord, example_headers PAXOS_2A 1 0 42) \<in> packets s" "accs s a = accs example_switches a"
  shows "\<exists>t. example_step s t \<and> packets s \<subseteq> packets t \<and> net_voted msg_of 1 t a 0 42 \<and> (\<forall>c. c \<noteq> a \<longrightarrow> accs t c = accs s c)"
proof -
  let ?q = "(example_headers PAXOS_2B 1 0 42)\<lparr>paxos := (paxos (example_headers PAXOS_2B 1 0 42))\<lparr>acptid := of_nat a\<rparr>\<rparr>"
  obtain st where "acceptor_switch example_csum example_transport (accs s a) (example_headers PAXOS_2A 1 0 42) = Some (st, Some ?q)"
    using example_vote[of a] assms(3) by auto
  from net_step.handle[where handle = "acceptor_switch example_csum example_transport" and s = s and a = a and n = 3
      and rd = msg_of and rg = regs_of and ready = can_number and number = "leader_switch example_csum example_transport"
      and B = UNIV, OF assms(1,2) this]
  have "example_step s (s\<lparr>accs := (accs s)(a := st), packets := insert (Acc a, ?q) (packets s)\<rparr>)"
    unfolding p4_16_step_def by (simp add: msg_of_example)
  moreover have "net_voted msg_of 1 (s\<lparr>accs := (accs s)(a := st), packets := insert (Acc a, ?q) (packets s)\<rparr>) a 0 42"
    unfolding net_voted_def by (rule exI[of _ ?q]) (simp add: msg_of_example)
  ultimately show ?thesis by (intro exI[of _ "s\<lparr>accs := (accs s)(a := st), packets := insert (Acc a, ?q) (packets s)\<rparr>"]) auto
qed

lemma example_chosen:
  obtains t where "example_step\<^sup>*\<^sup>* example_switches t" "net_chosen msg_of 3 1 t 42"
proof -
  let ?p = "example_headers PAXOS_2A 1 0 42"
  let ?s = "example_switches\<lparr>leader := 1, packets := {(Coord, ?p)}\<rparr>"
  have 1: "example_step example_switches ?s"
    using net_step.request[where rd = msg_of and rg = regs_of and ready = can_number and p = "example_headers PAXOS_2A 9 0 42"
      and number = "leader_switch example_csum example_transport" and B = UNIV and s = example_switches and c = 1 and out = "Some ?p"
      and handle = "acceptor_switch example_csum example_transport" and n = 3] example_request
    unfolding p4_16_step_def
    by (simp add: msg_of_example can_number_def is_paxos_def) (simp add: example_defs)
  obtain t where t: "example_step ?s t" "packets ?s \<subseteq> packets t" "net_voted msg_of 1 t 0 0 42" "\<forall>c. c \<noteq> 0 \<longrightarrow> accs t c = accs ?s c"
    using example_handled[of 0 ?s] by auto
  obtain u where u: "example_step t u" "packets t \<subseteq> packets u" "net_voted msg_of 1 u 1 0 42"
    using example_handled[of 1 t] t(2,4) by auto
  have "net_voted msg_of 1 u 0 0 42" using t(3) u(2) by (auto simp: net_voted_def)
  then have "net_chosen msg_of 3 1 u 42"
    unfolding net_chosen_def by (intro exI[of _ 0] exI[of _ "{0, 1}"]) (use u(3) in \<open>simp add: majority_def\<close>)
  moreover have "example_step\<^sup>*\<^sup>* example_switches u" using 1 t(1) u(1) by (meson converse_rtranclp_into_rtranclp rtranclp.rtrancl_refl)
  ultimately show thesis using that by blast
qed

theorem p4_16_agreement_witness:
  "\<exists>t. example_step\<^sup>*\<^sup>* example_switches t \<and> {v. net_chosen msg_of 3 1 t v} = {42}"
proof -
  obtain t where t: "example_step\<^sup>*\<^sup>* example_switches t" "net_chosen msg_of 3 1 t 42" by (rule example_chosen)
  have "example_transport 0 = Some (Forward 1 PAXOS_PROTOCOL)" by (simp add: example_transport_def)
  from p4_16_agreement[OF this example_start disjI1[OF refl] t(1) rtranclp.rtrancl_refl t(2)] t show ?thesis by blast
qed

section \<open>A leader that is reset\<close>

text \<open>What a leader sends out reaches the acceptors' parser when the table of its transport keeps the port.\<close>

lemma leader_sends:
  assumes "is_paxos p" "msgtype (paxos p) = PAXOS_2A" "TL 0 = Some (Forward port PAXOS_PROTOCOL)"
  shows "\<exists>q. leader_switch csum TL c p = (c + 1, Some q) \<and> is_paxos q \<and> msg_of q = (msg_of p)\<lparr>m_inst := c + 1\<rparr>"
proof -
  let ?w = "verifyChecksum csum (TopParser p)"
  have "leader_ingress TL c ?w = Inr (c + 1, forward port PAXOS_PROTOCOL (snd (increase_instance c ?w)))"
    using assms by (simp add: leader_ingress_def leader_tbl_def parsed type_defs increase_instance_def transport_tbl_def Let_def)
  then have "leader_switch csum TL c p = (c + 1, sent csum (forward port PAXOS_PROTOCOL (snd (increase_instance c ?w))))"
    by (simp add: leader_switch_def V1Switch_def sent_def)
  then show ?thesis
    using assms(1) parsed(1)[of csum p]
    by (auto simp: sent_def TopDeparser_def computeChecksum_def forward_def increase_instance_def is_paxos_def msg_of_def Let_def)
qed

lemma leader_reset:
  assumes "is_paxos p" "msgtype (paxos p) = 5"
  shows "fst (leader_switch csum TL c p) = 0"
  using assms
  by (simp add: leader_switch_def V1Switch_def leader_ingress_def leader_tbl_def parsed reset_instance_def split: prod.split)

lemma acceptor_votes:
  assumes p: "is_paxos p" "msgtype (paxos p) = PAXOS_2A" "unat (inst (paxos p)) < INSTANCE_COUNT"
    and free: "registerRound st (unat (inst (paxos p))) \<le> rnd (paxos p)" and T: "TA 0 = Some (Forward port newPort)"
  shows "\<exists>st' q. acceptor_switch csum TA st p = Some (st', Some q) \<and> msg_of q = (msg_of p)\<lparr>kind := Msg_2B\<rparr>
    \<and> registerRound st' = (registerRound st)(unat (inst (paxos p)) := rnd (paxos p))"
proof -
  let ?v = "verifyChecksum csum (TopParser p)" and ?k = "unat (inst (paxos p))"
  let ?w = "?v\<lparr>meta := (meta ?v)\<lparr>round := registerRound st ?k, set_drop := 1\<rparr>\<rparr>"
  obtain st' w where w: "handle_2a st ?w = (st', w)" by fastforce
  have "acceptor_ingress TA st ?v = Inr (st', transport_tbl TA w)"
    using p free w parsed[of csum p] by (simp add: acceptor_ingress_def acceptor_tbl_def type_defs)
  then have run: "acceptor_switch csum TA st p = Some (st', sent csum (transport_tbl TA w))"
    by (simp add: acceptor_switch_def V1Switch_def sent_def)
  have "set_drop (meta w) = 0" "msg_of (hdr w) = (msg_of p)\<lparr>kind := Msg_2B\<rparr>" "registerRound st' = (registerRound st)(?k := rnd (paxos p))"
    using w parsed(1)[of csum p] by (auto simp: handle_2a_def msg_of_def type_defs Let_def)
  then show ?thesis using run forwarded[of TA w port newPort csum] T msg_sent msg_kept(2) by metis
qed

text \<open>C38: A reset makes the leader give out its instances again, in the same round: an acceptor that voted for the first
  request after the start votes also for the first one after a reset, with another value for the same instance and
  round, so that a reset while acceptors keep their registers gives up agreement.\<close>

theorem reset_gives_two_values:
  assumes "is_paxos p" "msgtype (paxos p) = PAXOS_2A" "is_paxos r" "msgtype (paxos r) = 5"
    and "is_paxos q" "msgtype (paxos q) = PAXOS_2A" "rnd (paxos q) = rnd (paxos p)"
    and "TL 0 = Some (Forward port PAXOS_PROTOCOL)" "TA 0 = Some (Forward port' newPort)" "registerRound st 1 \<le> rnd (paxos p)"
  shows "\<exists>c p1 c' x q1 st1 a st2 b. leader_switch csum TL 0 p = (1, Some p1) \<and> leader_switch csum TL 1 r = (c, x)
    \<and> leader_switch csum TL c q = (c', Some q1) \<and> acceptor_switch csum TA st p1 = Some (st1, Some a)
    \<and> acceptor_switch csum TA st1 q1 = Some (st2, Some b)
    \<and> msg_of a = (msg_of p)\<lparr>kind := Msg_2B, m_inst := 1\<rparr> \<and> msg_of b = (msg_of q)\<lparr>kind := Msg_2B, m_inst := 1\<rparr>"
proof -
  have fields: "msg_of h = (msg_of h')\<lparr>m_inst := 1\<rparr> \<Longrightarrow> msgtype (paxos h') = PAXOS_2A \<Longrightarrow>
      msgtype (paxos h) = PAXOS_2A \<and> inst (paxos h) = 1 \<and> rnd (paxos h) = rnd (paxos h')" for h h' :: "'a headers"
    by (auto simp: msg_of_def Let_def type_defs split: if_splits)
  obtain p1 where p1: "leader_switch csum TL 0 p = (1, Some p1)" "is_paxos p1" "msg_of p1 = (msg_of p)\<lparr>m_inst := 1\<rparr>"
    using leader_sends[where TL = TL and csum = csum and c = 0, OF assms(1,2,8)] by auto
  obtain x where x: "leader_switch csum TL 1 r = (0, x)" using leader_reset[OF assms(3,4), of csum TL 1] by (metis prod.collapse)
  obtain q1 where q1: "leader_switch csum TL 0 q = (1, Some q1)" "is_paxos q1" "msg_of q1 = (msg_of q)\<lparr>m_inst := 1\<rparr>"
    using leader_sends[where TL = TL and csum = csum and c = 0, OF assms(5,6,8)] by auto
  note fp = fields[OF p1(3) assms(2)] and fq = fields[OF q1(3) assms(6)]
  obtain st1 a where a: "acceptor_switch csum TA st p1 = Some (st1, Some a)" "msg_of a = (msg_of p1)\<lparr>kind := Msg_2B\<rparr>"
    "registerRound st1 = (registerRound st)(unat (inst (paxos p1)) := rnd (paxos p1))"
    using acceptor_votes[OF p1(2), of st TA port' newPort csum] fp assms(9,10) by (auto simp: INSTANCE_COUNT_def)
  obtain st2 b where b: "acceptor_switch csum TA st1 q1 = Some (st2, Some b)" "msg_of b = (msg_of q1)\<lparr>kind := Msg_2B\<rparr>"
    using acceptor_votes[OF q1(2), of st1 TA port' newPort csum] fp fq assms(7,9) a(3) by (auto simp: INSTANCE_COUNT_def)
  have "msg_of a = (msg_of p)\<lparr>kind := Msg_2B, m_inst := 1\<rparr>" "msg_of b = (msg_of q)\<lparr>kind := Msg_2B, m_inst := 1\<rparr>"
    using a(2) b(2) p1(3) q1(3) by simp_all
  then show ?thesis using p1(1) x q1(1) a(1) b(1) by blast
qed

theorem reset_gives_two_values_witness:
  "\<exists>c p1 c' x q1 st1 a st2 b. leader_switch example_csum example_transport 0 (example_headers PAXOS_2A 0 1 42) = (1, Some p1)
    \<and> leader_switch example_csum example_transport 1 (example_headers 5 0 0 0) = (c, x)
    \<and> leader_switch example_csum example_transport c (example_headers PAXOS_2A 0 1 43) = (c', Some q1)
    \<and> acceptor_switch example_csum example_transport (accs example_switches 2) p1 = Some (st1, Some a)
    \<and> acceptor_switch example_csum example_transport st1 q1 = Some (st2, Some b)
    \<and> msg_of a = \<lparr>kind = Msg_2B, m_inst = 1, m_rnd = 1, m_vrnd = 0, m_val = 42\<rparr>
    \<and> msg_of b = \<lparr>kind = Msg_2B, m_inst = 1, m_rnd = 1, m_vrnd = 0, m_val = 43\<rparr>"
proof -
  have ok: "is_paxos (example_headers t i b v)" "msgtype (paxos (example_headers t i b v)) = t" "rnd (paxos (example_headers t i b v)) = b"
    for t i b v by (simp_all add: is_paxos_def example_headers_def)
  have T: "example_transport 0 = Some (Forward 1 PAXOS_PROTOCOL)" by (simp add: example_transport_def)
  show ?thesis
    using reset_gives_two_values[where csum = example_csum and TL = example_transport and TA = example_transport
      and st = "accs example_switches 2" and p = "example_headers PAXOS_2A 0 1 42" and r = "example_headers 5 0 0 0"
      and q = "example_headers PAXOS_2A 0 1 43", OF ok(1) ok(2) ok(1) ok(2) ok(1) ok(2) _ T T]
    by (simp add: ok msg_of_example) (simp add: example_switches_def)
qed

section \<open>A learner that delivers nothing\<close>

text \<open>No action of the learner takes back the mark that \<^verbatim>\<open>read_round\<close> sets.\<close>

lemma count_vote_keeps:
  assumes "count_vote st w = (st', w')"
  shows "set_drop (meta w') = 1" "egress_spec w' = egress_spec w"
    "l_registerRound st (unat (inst (paxos (hdr w)))) = rnd (paxos (hdr w)) \<Longrightarrow>
      ack_acceptors (meta w') = or (registerHistory2B st (unat (inst (paxos (hdr w))))) (ack_bit (paxos (hdr w)))"
  using assms by (auto simp: count_vote_def handle_2b_def handle_new_value_def Let_def split: if_splits)

text \<open>C39: With the entries of its configuration, which drop what is marked, the P4-16 learner delivers nothing: it drops
  the packet that completes a quorum, as every packet with a right checksum; what it lets out, by port 0,
  are packets with a wrong one that complete none.\<close>

theorem learner_delivers_nothing:
  assumes "T 1 = Some Drop" "is_paxos p" "V1Switch csum (learner_ingress T) st p = Inr (st', Some (port, q))"
  shows "port = 0 \<and> hdrChecksum p \<noteq> csum p \<and> (l_registerRound st (unat (inst (paxos p))) = rnd (paxos p) \<longrightarrow>
    or (registerHistory2B st (unat (inst (paxos p)))) (ack_bit (paxos p)) \<notin> {3, 5, 6})"
proof -
  let ?v = "verifyChecksum csum (TopParser p)"
  obtain t w where w: "count_vote st ?v = (t, w)" by fastforce
  note kept = count_vote_keeps[OF w, unfolded parsed(1)]
  have v: "egress_spec ?v = (if hdrChecksum p = csum p then None else Some 0)"
    by (simp add: verifyChecksum_def TopParser_def mark_to_drop_def Let_def)
  have out: "Some (port, q) = TopDeparser (computeChecksum csum (if ack_acceptors (meta w) \<in> {6, 5, 3} then transport_tbl T w else w))"
    using assms(2,3) w parsed[of csum p] by (auto simp: V1Switch_def learner_ingress_def split: if_splits)
  then have few: "ack_acceptors (meta w) \<notin> {6, 5, 3}"
    using kept(1) assms(1) by (auto simp: TopDeparser_def computeChecksum_def transport_tbl_def mark_to_drop_def split: if_splits)
  then have "egress_spec w = Some port" using out by (auto simp: TopDeparser_def computeChecksum_def split: option.splits)
  then show ?thesis using few kept(2,3) v by (auto split: if_splits)
qed

text \<open>A learner that has heard of nothing, and a vote with a wrong checksum.\<close>

definition example_learner :: learner where
  "example_learner = \<lparr>l_registerRound = (\<lambda>_. 1), l_registerValue = (\<lambda>_. 0), registerHistory2B = (\<lambda>_. 0)\<rparr>"

theorem learner_delivers_nothing_witness:
  "\<exists>st' q. V1Switch (\<lambda>_. 7) (learner_ingress example_transport) example_learner (example_headers PAXOS_2B 1 1 42) = Inr (st', Some (0, q))
    \<and> or (registerHistory2B example_learner 1) (ack_bit (paxos (example_headers PAXOS_2B 1 1 42))) \<notin> {3, 5, 6}"
proof -
  have "\<exists>st' q. V1Switch (\<lambda>_. 7) (learner_ingress example_transport) example_learner (example_headers PAXOS_2B 1 1 42) = Inr (st', Some (0, q))"
    by (simp add: learner_ingress_def count_vote_def handle_2b_def example_learner_def ack_bit_def pipeline_defs example_defs Let_def)
  then obtain st' q where run: "V1Switch (\<lambda>_. 7) (learner_ingress example_transport) example_learner (example_headers PAXOS_2B 1 1 42)
    = Inr (st', Some (0, q))" by blast
  have "or (registerHistory2B example_learner 1) (ack_bit (paxos (example_headers PAXOS_2B 1 1 42))) \<notin> {3, 5, 6}"
    using learner_delivers_nothing[OF _ _ run] by (simp add: is_paxos_def example_learner_def example_defs)
  then show ?thesis using run by blast
qed

end
