(* ===== verification/P4_14_Paxos.thy ===== *)
theory P4_14_Paxos
  imports Prelude Paxos_Network
begin

text \<open>
  The P4_14 programs of \<^verbatim>\<open>p4src\<close>: coordinator and acceptor, which are Ethernet switches beside, with the table entries of
  \<^verbatim>\<open>bmv2/coordinator_commands.txt\<close> and \<^verbatim>\<open>bmv2/acceptor_commands.txt\<close>, and the learner, whose entries are
  parameters.  The acceptor keeps the contract \<open>paxos_network\<close> for proposals in positive rounds; the coordinator proposes in
  round 0, which the contract excludes for a reason shown in theory \<open>P4_14_Recovery\<close>.
\<close>

section \<open>Headers\<close>

definition PAXOS_1A :: u8 where "PAXOS_1A = 1"
definition PAXOS_1B :: u8 where "PAXOS_1B = 2"
definition PAXOS_2A :: u8 where "PAXOS_2A = 3"
definition PAXOS_2B :: u8 where "PAXOS_2B = 4"

record paxos_t =
  msgtype :: u8
  p_instance :: u16
  round :: u8
  vround :: u8
  acceptor :: u64
  p_value :: "512 word"

text \<open>A packet with the fields the programs read; \<open>None\<close>: the parser found no Paxos header.\<close>

record packet =
  srcAddr :: "48 word"
  dstAddr :: "48 word"
  ingress_port :: nat
  paxos :: "paxos_t option"

section \<open>The Ethernet switch\<close>

datatype egress = Unicast nat | Broadcast | Dropped

text \<open>
  The entries the controller has added: the known source addresses, whose packets are not reported again, and the
  ports of destinations.  By default an address is reported with its port, and a packet is broadcast.
\<close>

record l2_tables =
  smac_entries :: "48 word list"
  dmac_entries :: "48 word \<Rightarrow> nat option"

definition smac :: "l2_tables \<Rightarrow> packet \<Rightarrow> (48 word \<times> nat) option" where
  "smac L p = (if srcAddr p \<in> set (smac_entries L) then None else Some (srcAddr p, ingress_port p))"

definition dmac :: "l2_tables \<Rightarrow> packet \<Rightarrow> egress" where
  "dmac L p = (case dmac_entries L (dstAddr p) of None \<Rightarrow> Broadcast | Some port \<Rightarrow> Unicast port)"

text \<open>The multicast group holds the ports 1 to 5; its copy for the port a packet came from is pruned.\<close>

definition out_ports :: "packet \<Rightarrow> egress \<Rightarrow> nat list" where
  "out_ports p e = (case e of Unicast port \<Rightarrow> [port] | Broadcast \<Rightarrow> filter (\<lambda>port. port \<noteq> ingress_port p) [1, 2, 3, 4, 5] | Dropped \<Rightarrow> [])"

section \<open>The coordinator\<close>

text \<open>Its register is \<^verbatim>\<open>instance_register\<close>.\<close>

definition handle_request :: "u16 \<Rightarrow> paxos_t \<Rightarrow> u16 \<times> paxos_t" where
  "handle_request instance_register p =
    (let p = p\<lparr>msgtype := PAXOS_2A, round := 0, p_instance := instance_register + 1\<rparr> in (p_instance p, p))"

definition tbl_sequence :: "u16 \<Rightarrow> paxos_t \<Rightarrow> u16 \<times> paxos_t" where
  "tbl_sequence instance_register p = (if msgtype p = 3 then handle_request instance_register p else (instance_register, p))"

definition coordinator_ingress :: "l2_tables \<Rightarrow> u16 \<Rightarrow> packet \<Rightarrow> u16 \<times> packet \<times> egress" where
  "coordinator_ingress L instance_register p =
    (case paxos p of
       None \<Rightarrow> (instance_register, p, dmac L p)
     | Some h \<Rightarrow> (case tbl_sequence instance_register h of (r, h) \<Rightarrow> (r, p\<lparr>paxos := Some h\<rparr>, dmac L p)))"

section \<open>The acceptor\<close>

text \<open>The arrays have an entry for each of the 65536 instances.\<close>

record acceptor_regs =
  datapath_id :: u64
  rounds_register :: "u16 \<Rightarrow> u8"
  vrounds_register :: "u16 \<Rightarrow> u8"
  values_register :: "u16 \<Rightarrow> 512 word"

definition handle_1a :: "acceptor_regs \<Rightarrow> paxos_t \<Rightarrow> acceptor_regs \<times> paxos_t" where
  "handle_1a st p =
    (let i = p_instance p;
         p = p\<lparr>msgtype := PAXOS_1B, vround := vrounds_register st i, p_value := values_register st i, acceptor := datapath_id st\<rparr>
     in (st\<lparr>rounds_register := (rounds_register st)(i := round p)\<rparr>, p))"

definition handle_2a :: "acceptor_regs \<Rightarrow> paxos_t \<Rightarrow> acceptor_regs \<times> paxos_t" where
  "handle_2a st p =
    (let i = p_instance p in
     (st\<lparr>rounds_register := (rounds_register st)(i := round p), vrounds_register := (vrounds_register st)(i := round p),
         values_register := (values_register st)(i := p_value p)\<rparr>,
      p\<lparr>msgtype := PAXOS_2B, acceptor := datapath_id st\<rparr>))"

text \<open>Other message types have no entry and no default action: they are passed on.\<close>

definition tbl_acceptor :: "acceptor_regs \<Rightarrow> paxos_t \<Rightarrow> acceptor_regs \<times> paxos_t" where
  "tbl_acceptor st p = (if msgtype p = 1 then handle_1a st p else if msgtype p = 3 then handle_2a st p else (st, p))"

definition acceptor_ingress :: "l2_tables \<Rightarrow> acceptor_regs \<Rightarrow> packet \<Rightarrow> acceptor_regs \<times> packet \<times> egress" where
  "acceptor_ingress L st p =
    (case paxos p of
       None \<Rightarrow> (st, p, dmac L p)
     | Some h \<Rightarrow>
         if rounds_register st (p_instance h) \<le> round h
         then (case tbl_acceptor st h of (st, h) \<Rightarrow> (st, p\<lparr>paxos := Some h\<rparr>, dmac L p))
         else (st, p, Dropped))"

text \<open>The whole switch: what it reports to its controller, and the copies of the packet with their ports.\<close>

definition switch_output :: "l2_tables \<Rightarrow> packet \<Rightarrow> 'st \<times> packet \<times> egress \<Rightarrow> 'st \<times> (48 word \<times> nat) option \<times> (nat \<times> packet) list" where
  "switch_output L p r = (case r of (st, q, e) \<Rightarrow> (st, smac L p, map (\<lambda>port. (port, q)) (out_ports q e)))"

definition coordinator_program :: "l2_tables \<Rightarrow> u16 \<Rightarrow> packet \<Rightarrow> u16 \<times> (48 word \<times> nat) option \<times> (nat \<times> packet) list" where
  "coordinator_program L r p = switch_output L p (coordinator_ingress L r p)"

definition acceptor_program :: "l2_tables \<Rightarrow> acceptor_regs \<Rightarrow> packet \<Rightarrow> acceptor_regs \<times> (48 word \<times> nat) option \<times> (nat \<times> packet) list" where
  "acceptor_program L st p = switch_output L p (acceptor_ingress L st p)"

section \<open>The learner\<close>

record learner_regs =
  l_rounds_register :: "u16 \<Rightarrow> u8"
  l_values_register :: "u16 \<Rightarrow> 512 word"
  history2B :: "u16 \<Rightarrow> u8"

record ingress_metadata_t =
  m_round :: u8
  set_drop :: "1 word"
  count :: u8
  acceptors :: u8

text \<open>
  What the tables do with a message type, an ingress port and a drop mark; \<open>None\<close> is a miss without a default action.
\<close>

datatype vote_action = Count_it | Drop_it
datatype forward_action = Forward nat | Drop_port

record learner_tables =
  learner_tbl :: "u8 \<Rightarrow> vote_action option"
  reset_tbl :: "u8 \<Rightarrow> vote_action option"
  forward_tbl :: "nat \<Rightarrow> forward_action option"
  drop_tbl :: "1 word \<Rightarrow> bool"

text \<open>The bit of an acceptor, in an expression of eight bits.\<close>

definition acceptor_bit :: "paxos_t \<Rightarrow> u8" where
  "acceptor_bit p = push_bit (unat (acceptor p)) 1"

definition handle_2b :: "learner_regs \<Rightarrow> paxos_t \<Rightarrow> ingress_metadata_t \<Rightarrow> learner_regs \<times> ingress_metadata_t" where
  "handle_2b st p m =
    (let i = p_instance p; m = m\<lparr>acceptors := or (acceptors m) (acceptor_bit p)\<rparr> in
     (st\<lparr>l_rounds_register := (l_rounds_register st)(i := round p), l_values_register := (l_values_register st)(i := p_value p),
         history2B := (history2B st)(i := acceptors m)\<rparr>, m))"

definition handle_new_value :: "learner_regs \<Rightarrow> paxos_t \<Rightarrow> learner_regs" where
  "handle_new_value st p =
    (let i = p_instance p in
     st\<lparr>l_rounds_register := (l_rounds_register st)(i := round p), l_values_register := (l_values_register st)(i := p_value p),
        history2B := (history2B st)(i := acceptor_bit p)\<rparr>)"

text \<open>The tables that count; \<open>egress_spec\<close> is the port, \<open>None\<close> after a drop.\<close>

definition learner_vote ::
  "learner_tables \<Rightarrow> learner_regs \<Rightarrow> paxos_t \<Rightarrow> learner_regs \<times> ingress_metadata_t \<times> nat option" where
  "learner_vote T st p =
    (let i = p_instance p; egress_spec = Some 0;
         m = \<lparr>m_round = l_rounds_register st i, set_drop = 1, count = 0, acceptors = history2B st i\<rparr> in
     if m_round m < round p then
       (case reset_tbl T (msgtype p) of
          None \<Rightarrow> (st, m, egress_spec) | Some Drop_it \<Rightarrow> (st, m, None) | Some Count_it \<Rightarrow> (handle_new_value st p, m, egress_spec))
     else if round p = m_round m then
       (case learner_tbl T (msgtype p) of
          None \<Rightarrow> (st, m, egress_spec) | Some Drop_it \<Rightarrow> (st, m, None)
        | Some Count_it \<Rightarrow> (case handle_2b st p m of (st, m) \<Rightarrow> (st, m, egress_spec)))
     else (st, m, egress_spec))"

text \<open>Ingress and egress of the learner on a Paxos packet: the port by which the packet leaves, if it does.\<close>

definition learner :: "learner_tables \<Rightarrow> learner_regs \<Rightarrow> nat \<Rightarrow> paxos_t \<Rightarrow> learner_regs \<times> nat option" where
  "learner T st port p =
    (case learner_vote T st p of (st, m, egress_spec) \<Rightarrow>
       let (m, egress_spec) = (if acceptors m \<in> {6, 5, 3}
             then case forward_tbl T port of
                    None \<Rightarrow> (m, egress_spec) | Some Drop_port \<Rightarrow> (m, None) | Some (Forward out) \<Rightarrow> (m\<lparr>set_drop := 0\<rparr>, Some out)
             else (m, egress_spec))
       in (st, if drop_tbl T (set_drop m) then None else egress_spec))"

section \<open>The acceptor keeps the contract\<close>

definition msg_of :: "packet \<Rightarrow> (u16, u8, 512 word) msg" where
  "msg_of p = (case paxos p of
     None \<Rightarrow> \<lparr>kind = Msg_other, m_inst = 0, m_rnd = 0, m_vrnd = 0, m_val = 0\<rparr>
   | Some h \<Rightarrow> \<lparr>kind = (if msgtype h = PAXOS_1A then Msg_1A else if msgtype h = PAXOS_1B then Msg_1B
                     else if msgtype h = PAXOS_2A then Msg_2A else if msgtype h = PAXOS_2B then Msg_2B else Msg_other),
        m_inst = p_instance h, m_rnd = round h, m_vrnd = vround h, m_val = p_value h\<rparr>)"

definition regs_of :: "acceptor_regs \<Rightarrow> (u16, u8, 512 word) regs" where
  "regs_of st = \<lparr>g_rnd = rounds_register st, g_vrnd = vrounds_register st, g_val = values_register st\<rparr>"

definition acceptor_switch :: "l2_tables \<Rightarrow> acceptor_regs \<Rightarrow> packet \<Rightarrow> (acceptor_regs \<times> packet option) option" where
  "acceptor_switch L st p = (case acceptor_ingress L st p of (st, q, e) \<Rightarrow> Some (st, if e = Dropped then None else Some q))"

lemmas type_defs = PAXOS_1A_def PAXOS_1B_def PAXOS_2A_def PAXOS_2B_def

lemma dmac_sends: "dmac L p \<noteq> Dropped"
  by (simp add: dmac_def split: option.split)

lemma p4_14_acceptor_answers:
  assumes "acceptor_switch L st p = Some (st', out)"
  shows "regs_of st' = regs_of st \<and> (\<forall>q. out = Some q \<longrightarrow> msg_of q = msg_of p)
    \<or> (\<exists>q. out = Some q \<and> (promises (regs_of st) (msg_of p) (regs_of st') (msg_of q)
      \<or> votes (regs_of st) (msg_of p) (regs_of st') (msg_of q)))"
proof (cases "\<exists>h. paxos p = Some h \<and> rounds_register st (p_instance h) \<le> round h \<and> msgtype h \<in> {1, 3}")
  case True
  then obtain h where h: "paxos p = Some h" "rounds_register st (p_instance h) \<le> round h" "msgtype h = 1 \<or> msgtype h = 3" by auto
  let ?h = "tbl_acceptor st h"
  have run: "st' = fst ?h" "out = Some (p\<lparr>paxos := Some (snd ?h)\<rparr>)"
    using assms h(1,2) dmac_sends[of L p] by (auto simp: acceptor_switch_def acceptor_ingress_def split: prod.splits)
  from h(3) show ?thesis
  proof
    assume "msgtype h = 1"
    then have "promises (regs_of st) (msg_of p) (regs_of st') (msg_of (p\<lparr>paxos := Some (snd ?h)\<rparr>))"
      using h(1,2) run(1)
      by (simp add: promises_def msg_of_def regs_of_def tbl_acceptor_def handle_1a_def type_defs Let_def)
    then show ?thesis using run(2) by blast
  next
    assume "msgtype h = 3"
    then have "votes (regs_of st) (msg_of p) (regs_of st') (msg_of (p\<lparr>paxos := Some (snd ?h)\<rparr>))"
      using h(1,2) run(1)
      by (simp add: votes_def msg_of_def regs_of_def tbl_acceptor_def handle_2a_def type_defs Let_def)
    then show ?thesis using run(2) by blast
  qed
next
  case False
  then have "st' = st \<and> (\<forall>q. out = Some q \<longrightarrow> msg_of q = msg_of p)"
    using assms by (auto simp: acceptor_switch_def acceptor_ingress_def tbl_acceptor_def msg_of_def split: option.splits if_splits)
  then show ?thesis by simp
qed

text \<open>
  The copies a switch sends are all of the one packet, and one whose destination is not known goes to every port of the group but
  the one it came by.
\<close>

lemma acceptor_program_copies:
  assumes "acceptor_program L st p = (st', d, out)" "acceptor_switch L st p = Some (st'', q)"
  shows "st'' = st'" "snd ` set out \<subseteq> set_option q" "dmac_entries L (dstAddr p) = None \<Longrightarrow> ingress_port p \<notin> fst ` set out"
  using assms
  by (auto simp: acceptor_program_def switch_output_def acceptor_switch_def acceptor_ingress_def out_ports_def dmac_def
      split: prod.splits option.splits if_splits)

text \<open>Acceptors and proposers alone: no request of the coordinator.\<close>

definition p4_14_step :: "l2_tables \<Rightarrow> nat \<Rightarrow> (u16, acceptor_regs, packet) switches \<Rightarrow> (u16, acceptor_regs, packet) switches \<Rightarrow> bool" where
  "p4_14_step L n = net_step msg_of regs_of (\<lambda>c p. False) (\<lambda>c p. (c, None)) {1} (acceptor_switch L) n"

interpretation p4_14: paxos_network msg_of regs_of "\<lambda>(c :: u16) p. False" "\<lambda>c i. True" "\<lambda>c p. (c, None)" "acceptor_switch L" n 1 for L n
proof unfold_locales
  show "0 < (1 :: u8)" by simp
  show "1 \<le> b" if "0 < b" for b :: u8 using that by (simp add: word_le_nat_alt word_less_nat_alt)
qed (simp_all add: p4_14_acceptor_answers)

lemma p4_14_acceptors_agree:
  assumes "net_start regs_of s" "(p4_14_step L n)\<^sup>*\<^sup>* s t" "(p4_14_step L n)\<^sup>*\<^sup>* t u" "net_chosen msg_of n i t v"
  shows "net_chosen msg_of n i u v \<and> (\<forall>w. net_chosen msg_of n i u w \<longrightarrow> w = v)"
  using p4_14.chosen_forever[OF assms(1)] assms(2-4) unfolding p4_14_step_def by blast

section \<open>Example packets\<close>

definition example_h :: "u8 \<Rightarrow> u16 \<Rightarrow> u8 \<Rightarrow> u64 \<Rightarrow> 512 word \<Rightarrow> paxos_t" where
  "example_h t i b k v = \<lparr>msgtype = t, p_instance = i, round = b, vround = 0, acceptor = k, p_value = v\<rparr>"

definition example_packet :: "paxos_t \<Rightarrow> packet" where
  "example_packet h = \<lparr>srcAddr = 1, dstAddr = 2, ingress_port = 1, paxos = Some h\<rparr>"

definition example_acceptor :: acceptor_regs where
  "example_acceptor = \<lparr>datapath_id = 1, rounds_register = (\<lambda>_. 0), vrounds_register = (\<lambda>_. 0), values_register = (\<lambda>_. 0)\<rparr>"

definition example_l2 :: l2_tables where
  "example_l2 = \<lparr>smac_entries = [], dmac_entries = (\<lambda>_. None)\<rparr>"

section \<open>The learner counts\<close>

text \<open>Tables that count the 2B messages, send what arrives at a port out by another, and drop what is marked.\<close>

definition tables_ok :: "learner_tables \<Rightarrow> nat \<Rightarrow> nat \<Rightarrow> bool" where
  "tables_ok T port out \<longleftrightarrow> learner_tbl T PAXOS_2B = Some Count_it \<and> reset_tbl T PAXOS_2B = Some Count_it
     \<and> forward_tbl T port = Some (Forward out) \<and> drop_tbl T 1 \<and> \<not> drop_tbl T 0"









text \<open>C24: A quorum that outlives its round: once two acceptors have been heard in a round, the next 2B message of any other round
  is delivered, of a higher round at its first vote, and of a lower one however few acceptors voted
  for it.\<close>

theorem stale_quorum_delivers:
  assumes "tables_ok T port out" "history2B st (p_instance p) \<in> {6, 5, 3}" "msgtype p = PAXOS_2B"
    and "round p \<noteq> l_rounds_register st (p_instance p)"
  shows "snd (learner T st port p) = Some out
    \<and> (l_rounds_register st (p_instance p) < round p \<longrightarrow> history2B (fst (learner T st port p)) (p_instance p) = acceptor_bit p)"
  using assms by (auto simp: learner_def learner_vote_def handle_new_value_def tables_ok_def Let_def)

subsection \<open>Runs\<close>

definition example_tables :: learner_tables where
  "example_tables = \<lparr>learner_tbl = (\<lambda>t. if t = 4 then Some Count_it else None), reset_tbl = (\<lambda>t. if t = 4 then Some Count_it else None),
     forward_tbl = (\<lambda>port. if port = 1 then Some (Forward 2) else None), drop_tbl = (\<lambda>d. d = 1)\<rparr>"

definition example_learner :: "u8 \<Rightarrow> u8 \<Rightarrow> learner_regs" where
  "example_learner b h = \<lparr>l_rounds_register = (\<lambda>_. b), l_values_register = (\<lambda>_. 0), history2B = (\<lambda>_. h)\<rparr>"

lemma example_tables_ok: "tables_ok example_tables 1 2"
  by (simp add: tables_ok_def example_tables_def type_defs)


theorem stale_quorum_delivers_witness:
  "snd (learner example_tables (example_learner 1 3) 1 (example_h PAXOS_2B 5 2 0 43)) = Some 2
    \<and> history2B (fst (learner example_tables (example_learner 1 3) 1 (example_h PAXOS_2B 5 2 0 43))) 5 = 1"
  using stale_quorum_delivers[OF example_tables_ok, of "example_learner 1 3" "example_h PAXOS_2B 5 2 0 43"]
  by (simp add: example_learner_def example_h_def acceptor_bit_def)

end
