(* ===== verification/P4_14_Recovery.thy ===== *)
theory P4_14_Recovery
  imports P4_14_Paxos
begin

text \<open>
  Recovery of an instance in the P4_14 deployment: \<^verbatim>\<open>bmv2/scripts/paxoscore/learner.py\<close> asks the acceptors for their
  votes with a phase 1A of round 1 and proposes what the promises say.  The coordinator has proposed in round 0, which is
  also what an acceptor without a vote reports: a value that two acceptors have voted for is replaced.
\<close>

section \<open>The proposer in the learner\<close>

record 'v PaxosMessage =
  nid :: u64
  pm_inst :: u16
  crnd :: u8
  pm_vrnd :: u8
  pm_val :: 'v

record 'v ProposerState =
  ps_crnd :: u8
  nids :: "u64 list"
  hval :: "'v option"
  hvrnd :: u8
  finished :: bool

definition ProposerState :: "u8 \<Rightarrow> 'v ProposerState" where
  "ProposerState c = \<lparr>ps_crnd = c, nids = [], hval = None, hvrnd = 0, finished = False\<rparr>"

text \<open>\<open>M\<close> is the dictionary \<^verbatim>\<open>proposerState\<close>, \<open>quorum\<close> the number \<^verbatim>\<open>majority\<close>.\<close>

definition handle_p1b ::
  "nat \<Rightarrow> (u16 \<Rightarrow> 'v ProposerState option) \<Rightarrow> 'v PaxosMessage \<Rightarrow> (u16 \<Rightarrow> 'v ProposerState option) \<times> 'v option PaxosMessage option" where
  "handle_p1b quorum M msg =
    (let state = (case M (pm_inst msg) of None \<Rightarrow> ProposerState (crnd msg) | Some state \<Rightarrow> state) in
     if \<not> finished state \<and> ps_crnd state = crnd msg \<and> nid msg \<notin> set (nids state) then
       let state = state\<lparr>nids := nid msg # nids state\<rparr>;
           state = (if hvrnd state \<le> pm_vrnd msg then state\<lparr>hval := Some (pm_val msg)\<rparr> else state)
       in if quorum \<le> length (nids state)
          then (let state = state\<lparr>finished := True\<rparr> in
            (M(pm_inst msg \<mapsto> state),
             Some \<lparr>nid = 10, pm_inst = pm_inst msg, crnd = ps_crnd state, pm_vrnd = hvrnd state, pm_val = hval state\<rparr>))
          else (M(pm_inst msg \<mapsto> state), None)
     else (M, None))"

text \<open>
  The value of a packet: a request number and 63 bytes, of which the trailing white space and zeros are cut when it is read and
  which are filled up with zeros when it is written, with the request number 10.
\<close>

definition rstrip :: "u8 list \<Rightarrow> u8 list" where
  "rstrip bs = rev (dropWhile (\<lambda>b. b \<in> {9, 13, 10, 0}) (rev bs))"

definition unpack_value :: "512 word \<Rightarrow> u8 list" where
  "unpack_value w = rstrip (map (\<lambda>k. ucast (drop_bit (8 * (62 - k)) w)) [0..<63])"

definition pack_value :: "u8 list \<Rightarrow> 512 word" where
  "pack_value bs = foldl (\<lambda>w b. push_bit 8 w OR ucast b) 10 (bs @ replicate (63 - length bs) 0)"

text \<open>\<^verbatim>\<open>handle_pkt\<close> on a phase 1B: the message it makes of the packet, and the phase 2A it sends; \<^verbatim>\<open>retryInstance\<close>.\<close>

definition received_promise :: "paxos_t \<Rightarrow> u8 list PaxosMessage" where
  "received_promise h = \<lparr>nid = acceptor h, pm_inst = p_instance h, crnd = round h, pm_vrnd = vround h, pm_val = unpack_value (p_value h)\<rparr>"

definition make_paxos :: "u8 \<Rightarrow> u16 \<Rightarrow> u8 \<Rightarrow> u8 \<Rightarrow> u8 list \<Rightarrow> paxos_t" where
  "make_paxos typ i rnd vrnd val = \<lparr>msgtype = typ, p_instance = i, round = rnd, vround = vrnd, acceptor = 10, p_value = pack_value val\<rparr>"

definition handle_pkt ::
  "nat \<Rightarrow> (u16 \<Rightarrow> u8 list ProposerState option) \<Rightarrow> paxos_t \<Rightarrow> (u16 \<Rightarrow> u8 list ProposerState option) \<times> paxos_t option" where
  "handle_pkt quorum M h =
    (if msgtype h = PAXOS_1B then
       (case handle_p1b quorum M (received_promise h) of (M, res) \<Rightarrow>
          (M, map_option (\<lambda>m. make_paxos PAXOS_2A (pm_inst m) (crnd m) (pm_vrnd m) (the (pm_val m))) res))
     else (M, None))"

definition retryInstance :: "u16 \<Rightarrow> paxos_t" where
  "retryInstance i = make_paxos PAXOS_1A i 1 0 []"

section \<open>The deployment\<close>

definition coordinator_switch :: "l2_tables \<Rightarrow> u16 \<Rightarrow> packet \<Rightarrow> u16 \<times> packet option" where
  "coordinator_switch L c p = (case coordinator_ingress L c p of (c, q, e) \<Rightarrow> (c, if e = Dropped then None else Some q))"

text \<open>Requests of round 0 through the coordinator, proposers in higher rounds by the rule of phase 2.\<close>

definition p4_14_deployment :: "l2_tables \<Rightarrow> nat \<Rightarrow> (u16, acceptor_regs, packet) switches \<Rightarrow> (u16, acceptor_regs, packet) switches \<Rightarrow> bool" where
  "p4_14_deployment L n = net_step msg_of regs_of (\<lambda>c p. True) (coordinator_switch L) {0} (acceptor_switch L) n"

lemma coordinator_numbers:
  assumes "paxos p = Some h" "msgtype h = PAXOS_2A"
  shows "coordinator_switch L c p = (c + 1, Some (p\<lparr>paxos := Some (h\<lparr>round := 0, p_instance := c + 1\<rparr>)\<rparr>))"
  using assms dmac_sends[of L p]
  by (simp add: coordinator_switch_def coordinator_ingress_def tbl_sequence_def handle_request_def type_defs Let_def)

lemma deployment_answer:
  assumes "a < n" "(x, p) \<in> packets s" "acceptor_switch L (accs s a) p = Some (st, Some q)" "msg_of q \<noteq> msg_of p"
  shows "p4_14_deployment L n s (s\<lparr>accs := (accs s)(a := st), packets := insert (Acc a, q) (packets s)\<rparr>)"
  using net_step.handle[where rd = msg_of and rg = regs_of and ready = "\<lambda>c p. True" and number = "coordinator_switch L" and B = "{0}"
      and handle = "acceptor_switch L", OF assms(1-3)] assms(4)
  unfolding p4_14_deployment_def by simp

text \<open>What one acceptor does with a packet of the network that is not below its promise.\<close>

lemma votes_at:
  assumes "a < n" "(x, p) \<in> packets s" "paxos p = Some h" "msgtype h = PAXOS_2A"
    and h: "p_instance h = i" "round h = b" "p_value h = v" and "rounds_register (accs s a) i \<le> b"
  shows "\<exists>t. p4_14_deployment L n s t \<and> packets s \<subseteq> packets t \<and> (\<forall>c. c \<noteq> a \<longrightarrow> accs t c = accs s c)
    \<and> net_voted msg_of i t a b v \<and> rounds_register (accs t a) i = b \<and> vrounds_register (accs t a) i = b
    \<and> datapath_id (accs t a) = datapath_id (accs s a) \<and> (\<forall>c w. net_proposed msg_of i t c w = net_proposed msg_of i s c w)"
proof -
  let ?h = "h\<lparr>msgtype := PAXOS_2B, acceptor := datapath_id (accs s a)\<rparr>"
  let ?q = "p\<lparr>paxos := Some ?h\<rparr>"
  obtain st where st: "acceptor_switch L (accs s a) p = Some (st, Some ?q)" "rounds_register st i = b"
    "vrounds_register st i = b" "datapath_id st = datapath_id (accs s a)"
    using assms(3,4,8) h dmac_sends[of L p]
    by (auto simp: acceptor_switch_def acceptor_ingress_def tbl_acceptor_def handle_2a_def type_defs Let_def)
  let ?t = "s\<lparr>accs := (accs s)(a := st), packets := insert (Acc a, ?q) (packets s)\<rparr>"
  have kinds: "kind (msg_of ?q) = Msg_2B" "kind (msg_of p) = Msg_2A" using assms(3,4) by (simp_all add: msg_of_def type_defs)
  then have "kind (msg_of ?q) \<noteq> kind (msg_of p)" by simp
  then have "msg_of ?q \<noteq> msg_of p" by metis
  then have "p4_14_deployment L n s ?t" by (rule deployment_answer[OF assms(1,2) st(1)])
  moreover have "net_voted msg_of i ?t a b v"
    unfolding net_voted_def by (rule exI[of _ ?q]) (use kinds(1) h in \<open>simp add: msg_of_def\<close>)
  moreover have "net_proposed msg_of i ?t c w = net_proposed msg_of i s c w" for c w
    using net_insert(1)[of ?t "Acc a" ?q s msg_of] kinds(1) by simp
  ultimately show ?thesis using st(2-4) by (intro exI[of _ ?t]) auto
qed

lemma promises_at:
  assumes "a < n" "(x, p) \<in> packets s" "paxos p = Some h" "msgtype h = PAXOS_1A" "p_instance h = i"
    and "rounds_register (accs s a) i \<le> round h"
  shows "\<exists>t. p4_14_deployment L n s t \<and> packets t = insert (Acc a, p\<lparr>paxos := Some (h\<lparr>msgtype := PAXOS_1B,
        vround := vrounds_register (accs s a) i, p_value := values_register (accs s a) i, acceptor := datapath_id (accs s a)\<rparr>)\<rparr>)
      (packets s)
    \<and> (\<forall>c. c \<noteq> a \<longrightarrow> accs t c = accs s c) \<and> rounds_register (accs t a) i = round h"
proof -
  let ?b = "h\<lparr>msgtype := PAXOS_1B, vround := vrounds_register (accs s a) i, p_value := values_register (accs s a) i,
      acceptor := datapath_id (accs s a)\<rparr>"
  let ?q = "p\<lparr>paxos := Some ?b\<rparr>"
  obtain st where st: "acceptor_switch L (accs s a) p = Some (st, Some ?q)" "rounds_register st i = round h"
    using assms(3-6) dmac_sends[of L p]
    by (auto simp: acceptor_switch_def acceptor_ingress_def tbl_acceptor_def handle_1a_def type_defs Let_def)
  let ?t = "s\<lparr>accs := (accs s)(a := st), packets := insert (Acc a, ?q) (packets s)\<rparr>"
  have "kind (msg_of ?q) = Msg_1B" "kind (msg_of p) = Msg_1A" using assms(3,4) by (simp_all add: msg_of_def type_defs)
  then have "kind (msg_of ?q) \<noteq> kind (msg_of p)" by simp
  then have "msg_of ?q \<noteq> msg_of p" by metis
  then have "p4_14_deployment L n s ?t" by (rule deployment_answer[OF assms(1,2) st(1)])
  then show ?thesis using st(2) by (intro exI[of _ ?t]) simp
qed

text \<open>A coordinator's proposal, and two of three acceptors that vote for it.\<close>

lemma chosen_in_round_zero:
  fixes p :: packet
  assumes "net_start regs_of s" "paxos p = Some h" "msgtype h = PAXOS_2A" "round h = 0" "i = leader s + 1"
  obtains t where "(p4_14_deployment L 3)\<^sup>*\<^sup>* s t" "net_voted msg_of i t 0 0 (p_value h)" "net_voted msg_of i t 1 0 (p_value h)"
    "\<And>b v. net_proposed msg_of i t b v \<longleftrightarrow> b = 0 \<and> v = p_value h" "accs t 2 = accs s 2"
    "rounds_register (accs t 1) i = 0" "vrounds_register (accs t 1) i = 0" "datapath_id (accs t 1) = datapath_id (accs s 1)"
proof -
  let ?h = "h\<lparr>round := 0, p_instance := i\<rparr>"
  let ?p = "p\<lparr>paxos := Some ?h\<rparr>"
  let ?s = "s\<lparr>leader := i, packets := insert (Coord, ?p) (packets s)\<rparr>"
  have zero: "rounds_register (accs s a) i = 0" for a using assms(1) by (simp add: net_start_def regs_of_def)
  have "kind (msg_of p) = Msg_2A" "m_rnd (msg_of p) = 0" using assms(2-4) by (simp_all add: msg_of_def type_defs)
  then have req: "p4_14_deployment L 3 s ?s"
    using net_step.request[where rd = msg_of and number = "coordinator_switch L" and B = "{0}" and s = s and p = p
      and ready = "\<lambda>c p. True" and rg = regs_of and handle = "acceptor_switch L" and n = 3] coordinator_numbers[OF assms(2,3), of L]
    unfolding p4_14_deployment_def by (simp add: assms(5))
  have "msg_of ?p = \<lparr>kind = Msg_2A, m_inst = i, m_rnd = 0, m_vrnd = vround h, m_val = p_value h\<rparr>"
    using assms(3) by (simp add: msg_of_def type_defs)
  then have only: "net_proposed msg_of i ?s b v \<longleftrightarrow> b = 0 \<and> v = p_value h" for b v
    using assms(1) by (auto simp: net_proposed_def net_start_def)
  have h: "msgtype ?h = PAXOS_2A" "paxos ?p = Some ?h" "p_instance ?h = i" "round ?h = 0" "p_value ?h = p_value h"
    using assms(3) by simp_all
  obtain t where t: "p4_14_deployment L 3 ?s t" "packets ?s \<subseteq> packets t" "\<forall>c. c \<noteq> 0 \<longrightarrow> accs t c = accs ?s c"
    "net_voted msg_of i t 0 0 (p_value h)" "\<forall>b v. net_proposed msg_of i t b v = net_proposed msg_of i ?s b v"
    using votes_at[of 0 3 Coord ?p ?s, OF _ _ h(2,1,3-5), of L] zero by auto
  have in_t: "(Coord, ?p) \<in> packets t" using t(2) by auto
  have "rounds_register (accs t 1) i \<le> 0" using t(3) zero by simp
  from votes_at[OF _ in_t h(2,1,3-5) this, of 3 L]
  obtain u where u: "p4_14_deployment L 3 t u" "packets t \<subseteq> packets u" "\<forall>c. c \<noteq> 1 \<longrightarrow> accs u c = accs t c"
    "net_voted msg_of i u 1 0 (p_value h)" "rounds_register (accs u 1) i = 0" "vrounds_register (accs u 1) i = 0"
    "datapath_id (accs u 1) = datapath_id (accs t 1)" "\<forall>b v. net_proposed msg_of i u b v = net_proposed msg_of i t b v"
    by auto
  have "net_voted msg_of i u 0 0 (p_value h)" using t(4) u(2) by (auto simp: net_voted_def)
  moreover have "(p4_14_deployment L 3)\<^sup>*\<^sup>* s u" using req t(1) u(1) by (meson converse_rtranclp_into_rtranclp rtranclp.rtrancl_refl)
  ultimately show thesis using that[of u] t(3,5) u only by simp
qed

text \<open>What the learner does with two promises for a retried instance.\<close>

definition promise_of :: "u16 \<Rightarrow> acceptor_regs \<Rightarrow> paxos_t" where
  "promise_of i st = (retryInstance i)\<lparr>msgtype := PAXOS_1B, vround := vrounds_register st i, p_value := values_register st i,
     acceptor := datapath_id st\<rparr>"

lemma last_promise_wins:
  assumes "datapath_id st \<noteq> datapath_id st'"
  shows "\<exists>M. handle_pkt 2 Map.empty (promise_of i st) = (M, None)
    \<and> snd (handle_pkt 2 M (promise_of i st')) = Some (make_paxos PAXOS_2A i 1 0 (unpack_value (values_register st' i)))"
  using assms
  by (simp add: handle_pkt_def handle_p1b_def received_promise_def promise_of_def retryInstance_def make_paxos_def ProposerState_def Let_def)

text \<open>A recovery that two acceptors without a promise, and without a vote in a round above 0, go along with.\<close>

lemma recovered_in_round_one:
  fixes p :: packet and val :: "u8 list"
  assumes props: "\<And>b v. net_proposed msg_of i s b v \<Longrightarrow> b = 0"
    and regs: "\<And>a. a = 1 \<or> a = 2 \<Longrightarrow> rounds_register (accs s a) i = 0 \<and> vrounds_register (accs s a) i = 0"
  defines "q \<equiv> make_paxos PAXOS_2A i 1 0 val"
  obtains t where "(p4_14_deployment L 3)\<^sup>*\<^sup>* s t" "packets s \<subseteq> packets t"
    "(Acc 1, p\<lparr>paxos := Some (promise_of i (accs s 1))\<rparr>) \<in> packets t" "(Acc 2, p\<lparr>paxos := Some (promise_of i (accs s 2))\<rparr>) \<in> packets t"
    "net_voted msg_of i t 1 1 (p_value q)" "net_voted msg_of i t 2 1 (p_value q)"
proof -
  let ?r = "retryInstance i" and ?p = "\<lambda>h. p\<lparr>paxos := Some h\<rparr>"
  let ?b1 = "promise_of i (accs s 1)" and ?b2 = "promise_of i (accs s 2)"
  let ?s1 = "s\<lparr>packets := insert (Env, ?p ?r) (packets s)\<rparr>"
  have r: "msgtype ?r = PAXOS_1A" "p_instance ?r = i" "round ?r = 1" "paxos (?p ?r) = Some ?r"
    by (simp_all add: retryInstance_def make_paxos_def)
  have q: "msgtype q = PAXOS_2A" "p_instance q = i" "round q = 1" "paxos (?p q) = Some q"
    by (simp_all add: q_def make_paxos_def)
  have "kind (msg_of (?p ?r)) = Msg_1A" using r by (simp add: msg_of_def type_defs)
  then have 1: "p4_14_deployment L 3 s ?s1" unfolding p4_14_deployment_def by (rule net_step.prepare)
  have "rounds_register (accs ?s1 1) i \<le> round ?r" using regs by simp
  from promises_at[OF _ _ r(4,1,2) this, of 3 Env L]
  obtain s2 where s2: "p4_14_deployment L 3 ?s1 s2" "packets s2 = insert (Acc 1, ?p ?b1) (packets ?s1)"
    "\<forall>c. c \<noteq> 1 \<longrightarrow> accs s2 c = accs s c" "rounds_register (accs s2 1) i = 1"
    by (auto simp: promise_of_def r(3))
  have "rounds_register (accs s2 2) i \<le> round ?r" using regs s2(3) by simp
  from promises_at[OF _ _ r(4,1,2) this, of 3 Env L] s2(2,3)
  obtain s3 where s3: "p4_14_deployment L 3 s2 s3" "packets s3 = insert (Acc 2, ?p ?b2) (packets s2)"
    "\<forall>c. c \<noteq> 2 \<longrightarrow> accs s3 c = accs s2 c" "rounds_register (accs s3 2) i = 1"
    by (auto simp: promise_of_def r(3))
  have msgs: "kind (msg_of (?p ?b1)) = Msg_1B" "kind (msg_of (?p ?b2)) = Msg_1B" "kind (msg_of (?p ?r)) = Msg_1A"
    by (simp_all add: msg_of_def promise_of_def retryInstance_def make_paxos_def type_defs)
  have only: "b = 0" if "net_proposed msg_of i s3 b v" for b v
    using that net_insert(1)[OF s3(2), of msg_of] net_insert(1)[OF s2(2), of msg_of] net_insert(1)[of ?s1 Env "?p ?r" s msg_of] msgs props
    by simp
  have proms: "net_promised msg_of i s3 1 1 0 (values_register (accs s 1) i)" "net_promised msg_of i s3 2 1 0 (values_register (accs s 2) i)"
    using net_insert(3)[OF s3(2), of msg_of] net_insert(3)[OF s2(2), of msg_of] msgs regs
    by (simp_all add: msg_of_def promise_of_def retryInstance_def make_paxos_def)
  let ?s4 = "s3\<lparr>packets := insert (Env, ?p q) (packets s3)\<rparr>"
  have "phase2_rule 3 (net_view msg_of regs_of i s3) 1 (p_value q)"
    unfolding phase2_rule_def
    by (rule exI[of _ "{1, 2}"], rule exI[of _ "\<lambda>_. 0"], rule exI[of _ "\<lambda>a. values_register (accs s a) i"])
      (use proms in \<open>simp add: majority_def net_view_def\<close>)
  moreover have "msg_of (?p q) = \<lparr>kind = Msg_2A, m_inst = i, m_rnd = 1, m_vrnd = vround q, m_val = p_value q\<rparr>"
    using q by (simp add: msg_of_def type_defs)
  ultimately have 4: "p4_14_deployment L 3 s3 ?s4"
    unfolding p4_14_deployment_def by (intro net_step.recover) (use only in \<open>force simp: \<close>)+
  have "rounds_register (accs ?s4 1) i \<le> 1" using s2(4) s3(3) by simp
  from votes_at[OF _ _ q(4,1,2,3) refl this, of 3 Env L]
  obtain s5 where s5: "p4_14_deployment L 3 ?s4 s5" "packets ?s4 \<subseteq> packets s5" "\<forall>c. c \<noteq> 1 \<longrightarrow> accs s5 c = accs s3 c"
    "net_voted msg_of i s5 1 1 (p_value q)" by auto
  have "rounds_register (accs s5 2) i \<le> 1" "(Env, ?p q) \<in> packets s5" using s3(4) s5(2,3) by auto
  from votes_at[OF _ this(2) q(4,1,2,3) refl this(1), of 3 L]
  obtain s6 where s6: "p4_14_deployment L 3 s5 s6" "packets s5 \<subseteq> packets s6" "net_voted msg_of i s6 2 1 (p_value q)" by auto
  have "net_voted msg_of i s6 1 1 (p_value q)" using s5(4) s6(2) by (auto simp: net_voted_def)
  moreover have "(p4_14_deployment L 3)\<^sup>*\<^sup>* s s6"
    using 1 s2(1) s3(1) 4 s5(1) s6(1) by (meson converse_rtranclp_into_rtranclp rtranclp.rtrancl_refl)
  moreover have "packets s \<subseteq> packets s6" "(Acc 1, ?p ?b1) \<in> packets s6" "(Acc 2, ?p ?b2) \<in> packets s6"
    using s2(2) s3(2) s5(2) s6(2) by auto
  ultimately show thesis using that s6(3) by blast
qed

text \<open>C23: A value chosen in round 0 is lost.  The P4_14 coordinator proposes in round 0, and two of the three acceptors vote for its
  proposal; one of them and the third acceptor, which has not voted, then both answer the phase 1A of \<^verbatim>\<open>retryInstance\<close>
  with a promise that reports round 0, so that nothing tells the vote from the missing one; \<^verbatim>\<open>handle_p1b\<close> proposes the value in the
  last promise, the empty register of the third acceptor, which the rule of phase 2 allows after these
  promises, and the two vote for it: two values are chosen for the instance.\<close>

theorem round_zero_vote_lost:
  assumes "net_start regs_of s" "datapath_id (accs s 1) \<noteq> datapath_id (accs s 2)"
    and "paxos p = Some h" "msgtype h = PAXOS_2A" "round h = 0"
    and i: "i = leader s + 1" and w: "w = values_register (accs s 2) i"
  shows "\<exists>t b1 b2 M. (p4_14_deployment L 3)\<^sup>*\<^sup>* s t \<and> net_chosen msg_of 3 i t (p_value h)
    \<and> (Acc 1, p\<lparr>paxos := Some b1\<rparr>) \<in> packets t \<and> net_voted msg_of i t 1 0 (p_value h) \<and> vround b1 = 0
    \<and> (Acc 2, p\<lparr>paxos := Some b2\<rparr>) \<in> packets t \<and> vround b2 = 0 \<and> p_value b2 = w
    \<and> handle_pkt 2 Map.empty b1 = (M, None) \<and> snd (handle_pkt 2 M b2) = Some (make_paxos PAXOS_2A i 1 0 (unpack_value w))
    \<and> net_chosen msg_of 3 i t (pack_value (unpack_value w))"
proof -
  obtain t where t: "(p4_14_deployment L 3)\<^sup>*\<^sup>* s t" "net_voted msg_of i t 0 0 (p_value h)" "net_voted msg_of i t 1 0 (p_value h)"
    "\<And>b v. net_proposed msg_of i t b v \<longleftrightarrow> b = 0 \<and> v = p_value h" "accs t 2 = accs s 2"
    "rounds_register (accs t 1) i = 0" "vrounds_register (accs t 1) i = 0" "datapath_id (accs t 1) = datapath_id (accs s 1)"
    using chosen_in_round_zero[OF assms(1,3-5) i] by blast
  have zero: "rounds_register (accs s 2) i = 0" "vrounds_register (accs s 2) i = 0"
    using assms(1) by (simp_all add: net_start_def regs_of_def)
  have regs: "rounds_register (accs t a) i = 0 \<and> vrounds_register (accs t a) i = 0" if "a = 1 \<or> a = 2" for a
    using that t(5-7) zero by auto
  have only: "b = 0" if "net_proposed msg_of i t b v" for b v using t(4) that by simp
  obtain u where u: "(p4_14_deployment L 3)\<^sup>*\<^sup>* t u" "packets t \<subseteq> packets u"
    "(Acc 1, p\<lparr>paxos := Some (promise_of i (accs t 1))\<rparr>) \<in> packets u" "(Acc 2, p\<lparr>paxos := Some (promise_of i (accs t 2))\<rparr>) \<in> packets u"
    "net_voted msg_of i u 1 1 (p_value (make_paxos PAXOS_2A i 1 0 (unpack_value w)))"
    "net_voted msg_of i u 2 1 (p_value (make_paxos PAXOS_2A i 1 0 (unpack_value w)))"
    by (rule recovered_in_round_one[OF only regs])
  have v: "net_voted msg_of i u 0 0 (p_value h)" "net_voted msg_of i u 1 0 (p_value h)" using t(2,3) u(2) by (auto simp: net_voted_def)
  have "net_chosen msg_of 3 i u (p_value h)"
    unfolding net_chosen_def by (intro exI[of _ 0] exI[of _ "{0, 1}"]) (use v in \<open>simp add: majority_def\<close>)
  moreover have "net_chosen msg_of 3 i u (pack_value (unpack_value w))"
    unfolding net_chosen_def by (intro exI[of _ 1] exI[of _ "{1, 2}"]) (use u(5,6) in \<open>simp add: majority_def make_paxos_def\<close>)
  moreover have "vround (promise_of i (accs t 1)) = 0" "vround (promise_of i (accs t 2)) = 0" "p_value (promise_of i (accs t 2)) = w"
    using t(5,7) zero w by (simp_all add: promise_of_def)
  moreover obtain M where "handle_pkt 2 Map.empty (promise_of i (accs t 1)) = (M, None)"
    "snd (handle_pkt 2 M (promise_of i (accs t 2))) = Some (make_paxos PAXOS_2A i 1 0 (unpack_value w))"
    using last_promise_wins[of "accs t 1" "accs t 2" i] assms(2) t(5,8) w by auto
  moreover have "(p4_14_deployment L 3)\<^sup>*\<^sup>* s u" using t(1) u(1) by (rule rtranclp_trans)
  ultimately show ?thesis using v(2) u(3,4) by blast
qed

text \<open>Acceptors 1 and 2 with their own numbers and empty registers; a request for the value 42.\<close>

definition example_deployment :: "(u16, acceptor_regs, packet) switches" where
  "example_deployment = \<lparr>leader = 4, accs = (\<lambda>a. example_acceptor\<lparr>datapath_id := of_nat a\<rparr>), packets = {}\<rparr>"

theorem round_zero_vote_lost_witness:
  "\<exists>t. (p4_14_deployment example_l2 3)\<^sup>*\<^sup>* example_deployment t \<and> net_chosen msg_of 3 5 t 42 \<and> net_chosen msg_of 3 5 t (push_bit 504 10)"
proof -
  let ?p = "example_packet (example_h PAXOS_2A 0 0 0 42)"
  have start: "net_start regs_of example_deployment" "datapath_id (accs example_deployment 1) \<noteq> datapath_id (accs example_deployment 2)"
    "values_register (accs example_deployment 2) 5 = 0" "(5 :: u16) = leader example_deployment + 1"
    by (simp_all add: net_start_def regs_of_def example_deployment_def example_acceptor_def)
  have p: "paxos ?p = Some (example_h PAXOS_2A 0 0 0 42)" "msgtype (example_h PAXOS_2A 0 0 0 42) = PAXOS_2A"
    "round (example_h PAXOS_2A 0 0 0 42) = 0" "p_value (example_h PAXOS_2A 0 0 0 42) = 42"
    by (simp_all add: example_packet_def example_h_def)
  have "unpack_value 0 = []" by (simp add: unpack_value_def rstrip_def upt_rec)
  moreover have "pack_value [] = push_bit 504 10" by (simp add: pack_value_def numeral_eq_Suc push_bit_double)
  ultimately show ?thesis
    using round_zero_vote_lost[OF start(1,2) p(1-3) start(4) start(3)[symmetric], of example_l2] p(4) by auto
qed

end
