(* ===== verification/Netro_Paxos.thy ===== *)
theory Netro_Paxos
  imports Prelude
begin

text \<open>
  The Netronome plugin \<^verbatim>\<open>netrodemo/paxos.c\<close>: the register arrays of the acceptor, the
  instance counter of the coordinator, and one definition per \<^verbatim>\<open>pif_plugin_*\<close> function.  The
  Paxos header type is the one \<^verbatim>\<open>netrodemo/cans.p4\<close> declares, whose fields the plugin reads
  and writes.  An access outside the \<^verbatim>\<open>MAX_INST\<close> entries of an array is the value
  \<open>Inl Out_Of_Bounds\<close>: the source has no check, and what the hardware does there is not
  defined by it.
\<close>

section \<open>State and headers\<close>

record paxos_t =
  inst :: u32
  rnd :: u16
  vrnd :: u16
  acpt :: u16
  msgtype :: u16
  val0 :: u32
  val1 :: u32
  val2 :: u32
  val3 :: u32
  val4 :: u32
  val5 :: u32
  val6 :: u32
  val7 :: u32
  add1 :: u32
  add2 :: u32
  add3 :: u32
  add4 :: u32
  fsh :: u32
  fsl :: u32
  feh :: u32
  fel :: u32
  csh :: u32
  csl :: u32
  ceh :: u32
  cel :: u32
  ash :: u32
  asl :: u32
  aeh :: u32
  ael :: u32

text \<open>\<open>None\<close>: the packet carries no Paxos header (\<^verbatim>\<open>pif_plugin_hdr_paxos_present\<close> is false).\<close>

type_synonym headers = "paxos_t option"

definition MAX_INST :: nat where "MAX_INST = 2000000"
definition SWITCH_ID :: u16 where "SWITCH_ID = 1"

record plugin_state =
  pkt_inst :: u32
  cur_instance :: u32
  rnds :: "nat \<Rightarrow> u16"
  vrnds :: "nat \<Rightarrow> u16"
  value0s :: "nat \<Rightarrow> u32"
  value1s :: "nat \<Rightarrow> u32"
  value2s :: "nat \<Rightarrow> u32"
  value3s :: "nat \<Rightarrow> u32"
  value4s :: "nat \<Rightarrow> u32"
  value5s :: "nat \<Rightarrow> u32"
  value6s :: "nat \<Rightarrow> u32"
  value7s :: "nat \<Rightarrow> u32"
  timestamp_high :: u32
  timestamp_low :: u32

text \<open>\<^verbatim>\<open>enum Paxos\<close>; the constructors are the numbers a header carries in \<^verbatim>\<open>msgtype\<close>.\<close>

datatype phase = Phase0 | Phase1A | Phase1B | Phase2A | Phase2B

fun phase_code :: "phase \<Rightarrow> u16" where
  "phase_code Phase0 = 0"
| "phase_code Phase1A = 1"
| "phase_code Phase1B = 2"
| "phase_code Phase2A = 3"
| "phase_code Phase2B = 4"

datatype verdict = RETURN_FORWARD | RETURN_DROP

datatype plugin_error = Out_Of_Bounds

type_synonym plugin_result = "plugin_error + plugin_state \<times> headers \<times> verdict"

section \<open>Time stamps\<close>

text \<open>
  The six functions read the two halves of the time-stamp counter (\<open>lo\<close>, \<open>hi\<close>) into the
  globals and, when a Paxos header is present, into two fields of it.  Without a header the
  forwarding functions forward, the coordinator and acceptor ones drop.
\<close>

definition read_timestamp :: "u32 \<Rightarrow> u32 \<Rightarrow> plugin_state \<Rightarrow> plugin_state" where
  "read_timestamp lo hi st = st\<lparr>timestamp_low := lo, timestamp_high := hi\<rparr>"

definition pif_plugin_get_forwarding_start_time ::
  "u32 \<Rightarrow> u32 \<Rightarrow> plugin_state \<Rightarrow> headers \<Rightarrow> plugin_state \<times> headers \<times> verdict" where
  "pif_plugin_get_forwarding_start_time lo hi st h =
     (let st = read_timestamp lo hi st in
      case h of None \<Rightarrow> (st, None, RETURN_FORWARD)
      | Some p \<Rightarrow> (st, Some (p\<lparr>fsl := timestamp_low st, fsh := timestamp_high st\<rparr>), RETURN_FORWARD))"

definition pif_plugin_get_forwarding_end_time ::
  "u32 \<Rightarrow> u32 \<Rightarrow> plugin_state \<Rightarrow> headers \<Rightarrow> plugin_state \<times> headers \<times> verdict" where
  "pif_plugin_get_forwarding_end_time lo hi st h =
     (let st = read_timestamp lo hi st in
      case h of None \<Rightarrow> (st, None, RETURN_FORWARD)
      | Some p \<Rightarrow> (st, Some (p\<lparr>fel := timestamp_low st, feh := timestamp_high st\<rparr>), RETURN_FORWARD))"

definition pif_plugin_get_coordinator_start_time ::
  "u32 \<Rightarrow> u32 \<Rightarrow> plugin_state \<Rightarrow> headers \<Rightarrow> plugin_state \<times> headers \<times> verdict" where
  "pif_plugin_get_coordinator_start_time lo hi st h =
     (let st = read_timestamp lo hi st in
      case h of None \<Rightarrow> (st, None, RETURN_DROP)
      | Some p \<Rightarrow> (st, Some (p\<lparr>csl := timestamp_low st, csh := timestamp_high st\<rparr>), RETURN_FORWARD))"

definition pif_plugin_get_coordinator_end_time ::
  "u32 \<Rightarrow> u32 \<Rightarrow> plugin_state \<Rightarrow> headers \<Rightarrow> plugin_state \<times> headers \<times> verdict" where
  "pif_plugin_get_coordinator_end_time lo hi st h =
     (let st = read_timestamp lo hi st in
      case h of None \<Rightarrow> (st, None, RETURN_DROP)
      | Some p \<Rightarrow> (st, Some (p\<lparr>cel := timestamp_low st, ceh := timestamp_high st\<rparr>), RETURN_FORWARD))"

definition pif_plugin_get_acceptor_start_time ::
  "u32 \<Rightarrow> u32 \<Rightarrow> plugin_state \<Rightarrow> headers \<Rightarrow> plugin_state \<times> headers \<times> verdict" where
  "pif_plugin_get_acceptor_start_time lo hi st h =
     (let st = read_timestamp lo hi st in
      case h of None \<Rightarrow> (st, None, RETURN_DROP)
      | Some p \<Rightarrow> (st, Some (p\<lparr>asl := timestamp_low st, ash := timestamp_high st\<rparr>), RETURN_FORWARD))"

definition pif_plugin_get_acceptor_end_time ::
  "u32 \<Rightarrow> u32 \<Rightarrow> plugin_state \<Rightarrow> headers \<Rightarrow> plugin_state \<times> headers \<times> verdict" where
  "pif_plugin_get_acceptor_end_time lo hi st h =
     (let st = read_timestamp lo hi st in
      case h of None \<Rightarrow> (st, None, RETURN_DROP)
      | Some p \<Rightarrow> (st, Some (p\<lparr>ael := timestamp_low st, aeh := timestamp_high st\<rparr>), RETURN_FORWARD))"

section \<open>Registers, coordinator, acceptor\<close>

definition reset_entry :: "nat \<Rightarrow> plugin_state \<Rightarrow> plugin_state" where
  "reset_entry i st = st\<lparr>
     rnds := (rnds st)(i := 0), vrnds := (vrnds st)(i := 0),
     value0s := (value0s st)(i := 0), value1s := (value1s st)(i := 0),
     value2s := (value2s st)(i := 0), value3s := (value3s st)(i := 0),
     value4s := (value4s st)(i := 0), value5s := (value5s st)(i := 0),
     value6s := (value6s st)(i := 0), value7s := (value7s st)(i := 0)\<rparr>"

text \<open>The loop body for the indices \<open>i, i + 1, \<dots>\<close>, \<open>n\<close> of them.\<close>

primrec reset_loop :: "nat \<Rightarrow> nat \<Rightarrow> plugin_state \<Rightarrow> plugin_state" where
  "reset_loop 0 i st = st"
| "reset_loop (Suc n) i st = reset_loop n (Suc i) (reset_entry i st)"

definition pif_plugin_reset_registers ::
  "plugin_state \<Rightarrow> headers \<Rightarrow> plugin_state \<times> headers \<times> verdict" where
  "pif_plugin_reset_registers st h =
     (reset_loop MAX_INST 0 (st\<lparr>cur_instance := 0\<rparr>), h, RETURN_FORWARD)"

definition pif_plugin_seq_func ::
  "plugin_state \<Rightarrow> headers \<Rightarrow> plugin_state \<times> headers \<times> verdict" where
  "pif_plugin_seq_func st h =
     (case h of None \<Rightarrow> (st, None, RETURN_DROP)
      | Some p \<Rightarrow>
          (st\<lparr>cur_instance := cur_instance st + 1\<rparr>,
           Some (p\<lparr>inst := cur_instance st, msgtype := phase_code Phase2A\<rparr>),
           RETURN_FORWARD))"

definition pif_plugin_paxos_phase1a :: "plugin_state \<Rightarrow> headers \<Rightarrow> plugin_result" where
  "pif_plugin_paxos_phase1a st h =
     (case h of None \<Rightarrow> Inr (st, None, RETURN_DROP)
      | Some p \<Rightarrow>
          let st = st\<lparr>pkt_inst := inst p\<rparr>; k = unat (pkt_inst st) in
          if MAX_INST \<le> k then Inl Out_Of_Bounds
          else if rnd p < rnds st k then Inr (st, Some p, RETURN_DROP)
          else
            Inr (st\<lparr>rnds := (rnds st)(k := rnd p)\<rparr>,
                 Some (p\<lparr>vrnd := vrnds st k, acpt := SWITCH_ID, msgtype := phase_code Phase1B,
                         val0 := value0s st k, val1 := value1s st k,
                         val2 := value2s st k, val3 := value3s st k,
                         val4 := value4s st k, val5 := value5s st k,
                         val6 := value6s st k, val7 := value7s st k\<rparr>),
                 RETURN_FORWARD))"

definition pif_plugin_paxos_phase2a :: "plugin_state \<Rightarrow> headers \<Rightarrow> plugin_result" where
  "pif_plugin_paxos_phase2a st h =
     (case h of None \<Rightarrow> Inr (st, None, RETURN_DROP)
      | Some p \<Rightarrow>
          let st = st\<lparr>pkt_inst := inst p\<rparr>; k = unat (pkt_inst st) in
          if MAX_INST \<le> k then Inl Out_Of_Bounds
          else if rnd p < rnds st k then Inr (st, Some p, RETURN_DROP)
          else
            Inr (st\<lparr>rnds := (rnds st)(k := rnd p), vrnds := (vrnds st)(k := rnd p),
                    value0s := (value0s st)(k := val0 p), value1s := (value1s st)(k := val1 p),
                    value2s := (value2s st)(k := val2 p), value3s := (value3s st)(k := val3 p),
                    value4s := (value4s st)(k := val4 p), value5s := (value5s st)(k := val5 p),
                    value6s := (value6s st)(k := val6 p), value7s := (value7s st)(k := val7 p)\<rparr>,
                 Some (p\<lparr>acpt := SWITCH_ID, msgtype := phase_code Phase2B\<rparr>),
                 RETURN_FORWARD))"

section \<open>The plugin at work\<close>

text \<open>The eight value words of a header, and those an acceptor stores for an instance.\<close>

definition pkt_value :: "paxos_t \<Rightarrow> u32 list" where
  "pkt_value p = [val0 p, val1 p, val2 p, val3 p, val4 p, val5 p, val6 p, val7 p]"

definition stored_value :: "plugin_state \<Rightarrow> nat \<Rightarrow> u32 list" where
  "stored_value st k =
     [value0s st k, value1s st k, value2s st k, value3s st k,
      value4s st k, value5s st k, value6s st k, value7s st k]"

definition plugin_init :: plugin_state where
  "plugin_init = \<lparr>pkt_inst = 0, cur_instance = 0, rnds = (\<lambda>_. 0), vrnds = (\<lambda>_. 0),
     value0s = (\<lambda>_. 0), value1s = (\<lambda>_. 0), value2s = (\<lambda>_. 0), value3s = (\<lambda>_. 0),
     value4s = (\<lambda>_. 0), value5s = (\<lambda>_. 0), value6s = (\<lambda>_. 0), value7s = (\<lambda>_. 0),
     timestamp_high = 0, timestamp_low = 0\<rparr>"

text \<open>
  The rules \<^verbatim>\<open>commands.rules\<close> installs in \<^verbatim>\<open>paxos_tbl\<close>: the message type selects the plugin
  function, a packet of any other type passes unchanged.  The time-stamp calls that the P4
  actions put around the plugin functions are left out here; \<open>timestamps_frame\<close> below shows
  that they touch neither the registers nor the Paxos fields.
\<close>

definition paxos_tbl :: "plugin_state \<Rightarrow> paxos_t \<Rightarrow> plugin_result" where
  "paxos_tbl st p =
     (if msgtype p = 1 then pif_plugin_paxos_phase1a st (Some p)
      else if msgtype p = 3 then pif_plugin_paxos_phase2a st (Some p)
      else if msgtype p = 0 then Inr (pif_plugin_seq_func st (Some p))
      else if msgtype p = 255 then Inr (pif_plugin_reset_registers st (Some p))
      else Inr (st, Some p, RETURN_FORWARD))"

text \<open>A coordinator that handles requests one after the other: the packets it sends.\<close>

primrec seq_run :: "plugin_state \<Rightarrow> paxos_t list \<Rightarrow> plugin_state \<times> paxos_t list" where
  "seq_run st [] = (st, [])"
| "seq_run st (p # ps) =
     (case pif_plugin_seq_func st (Some p) of
        (st', h, v) \<Rightarrow> (case seq_run st' ps of (st'', qs) \<Rightarrow> (st'', the h # qs)))"

section \<open>Lemmas\<close>

lemma phase_code_inject [simp]: "phase_code a = phase_code b \<longleftrightarrow> a = b"
  by (cases a; cases b) auto

lemmas phase_defs = pif_plugin_paxos_phase1a_def pif_plugin_paxos_phase2a_def Let_def

text \<open>Inversion of a forwarded phase 1A and phase 2A: what the acceptor did and answered.\<close>

lemma phase1a_forward:
  assumes "pif_plugin_paxos_phase1a st (Some p) = Inr (st', Some q, RETURN_FORWARD)"
  defines "k \<equiv> unat (inst p)"
  shows "k < MAX_INST" and "rnds st k \<le> rnd p"
    and "rnds st' = (rnds st)(k := rnd p)" and "vrnds st' = vrnds st"
    and "stored_value st' = stored_value st"
    and "msgtype q = phase_code Phase1B" and "inst q = inst p" and "rnd q = rnd p"
    and "vrnd q = vrnds st k" and "pkt_value q = stored_value st k"
  using assms by (auto simp: phase_defs stored_value_def pkt_value_def fun_eq_iff split: if_splits)

lemma phase2a_forward:
  assumes "pif_plugin_paxos_phase2a st (Some p) = Inr (st', Some q, RETURN_FORWARD)"
  defines "k \<equiv> unat (inst p)"
  shows "k < MAX_INST" and "rnds st k \<le> rnd p"
    and "rnds st' = (rnds st)(k := rnd p)" and "vrnds st' = (vrnds st)(k := rnd p)"
    and "stored_value st' = (stored_value st)(k := pkt_value p)"
    and "msgtype q = phase_code Phase2B" and "inst q = inst p" and "rnd q = rnd p"
    and "vrnd q = vrnd p" and "pkt_value q = pkt_value p"
  using assms by (auto simp: phase_defs stored_value_def pkt_value_def fun_eq_iff split: if_splits)

lemma phase_drop:
  assumes "pif_plugin_paxos_phase1a st (Some p) = Inr (st', h, RETURN_DROP) \<or>
      pif_plugin_paxos_phase2a st (Some p) = Inr (st', h, RETURN_DROP)"
  shows "rnds st' = rnds st" and "vrnds st' = vrnds st" and "stored_value st' = stored_value st"
  using assms by (auto simp: phase_defs stored_value_def fun_eq_iff split: if_splits)

text \<open>What processing a packet can do to the registers: nothing, a promise or a vote.\<close>

lemma paxos_tbl_cases:
  assumes "paxos_tbl st p = Inr (st', h, v)" "msgtype p \<noteq> 255"
  defines "k \<equiv> unat (inst p)"
  obtains (same) "rnds st' = rnds st" "vrnds st' = vrnds st" "stored_value st' = stored_value st"
  | (promise) "rnds st k \<le> rnd p" "rnds st' = (rnds st)(k := rnd p)" "vrnds st' = vrnds st"
      "stored_value st' = stored_value st"
  | (vote) "rnds st k \<le> rnd p" "rnds st' = (rnds st)(k := rnd p)" "vrnds st' = (vrnds st)(k := rnd p)"
      "stored_value st' = (stored_value st)(k := pkt_value p)"
  using assms(1,2)
  by (auto simp: paxos_tbl_def phase_defs pif_plugin_seq_func_def stored_value_def pkt_value_def k_def
      fun_eq_iff split: if_splits)

lemmas timestamp_defs =
  pif_plugin_get_forwarding_start_time_def pif_plugin_get_forwarding_end_time_def
  pif_plugin_get_coordinator_start_time_def pif_plugin_get_coordinator_end_time_def
  pif_plugin_get_acceptor_start_time_def pif_plugin_get_acceptor_end_time_def
  read_timestamp_def

lemma timestamps_frame:
  assumes "f \<in> {pif_plugin_get_forwarding_start_time, pif_plugin_get_forwarding_end_time,
      pif_plugin_get_coordinator_start_time, pif_plugin_get_coordinator_end_time,
      pif_plugin_get_acceptor_start_time, pif_plugin_get_acceptor_end_time}"
    and "f lo hi st (Some p) = (st', h, v)"
  shows "v = RETURN_FORWARD" and "rnds st' = rnds st" and "vrnds st' = vrnds st"
    and "stored_value st' = stored_value st" and "cur_instance st' = cur_instance st"
    and "\<exists>q. h = Some q \<and> inst q = inst p \<and> rnd q = rnd p \<and> vrnd q = vrnd p \<and> acpt q = acpt p \<and>
      msgtype q = msgtype p \<and> pkt_value q = pkt_value p"
  using assms by (auto simp: timestamp_defs pkt_value_def stored_value_def fun_eq_iff)

lemma seq_func_Some:
  assumes "pif_plugin_seq_func st (Some p) = (st', h, v)"
  shows "v = RETURN_FORWARD" and "cur_instance st' = cur_instance st + 1"
    and "h = Some (p\<lparr>inst := cur_instance st, msgtype := phase_code Phase2A\<rparr>)"
  using assms by (auto simp: pif_plugin_seq_func_def)

lemma reset_entry_other:
  "j \<noteq> i \<Longrightarrow> rnds (reset_entry i st) j = rnds st j"
  "j \<noteq> i \<Longrightarrow> vrnds (reset_entry i st) j = vrnds st j"
  "j \<noteq> i \<Longrightarrow> stored_value (reset_entry i st) j = stored_value st j"
  by (simp_all add: reset_entry_def stored_value_def)

lemma reset_loop_sweep:
  "rnds (reset_loop n i st) j = (if i \<le> j \<and> j < i + n then 0 else rnds st j) \<and>
   vrnds (reset_loop n i st) j = (if i \<le> j \<and> j < i + n then 0 else vrnds st j) \<and>
   stored_value (reset_loop n i st) j =
     (if i \<le> j \<and> j < i + n then replicate 8 0 else stored_value st j) \<and>
   cur_instance (reset_loop n i st) = cur_instance st"
proof (induction n arbitrary: i st)
  case 0
  then show ?case by auto
next
  case (Suc n)
  have at: "rnds (reset_entry i st) i = 0" "vrnds (reset_entry i st) i = 0"
    "stored_value (reset_entry i st) i = replicate 8 0"
    by (simp_all add: reset_entry_def stored_value_def numeral_eq_Suc)
  have cur: "cur_instance (reset_entry i st) = cur_instance st"
    by (simp add: reset_entry_def)
  show ?case
    using Suc.IH [of "Suc i" "reset_entry i st"] at cur
    by (cases "j = i") (auto simp: reset_entry_other)
qed

lemma seq_run_spec:
  "seq_run st ps = (st', qs) \<Longrightarrow>
   length qs = length ps \<and> cur_instance st' = cur_instance st + of_nat (length ps) \<and>
   (\<forall>i < length ps.
      qs ! i = (ps ! i)\<lparr>inst := cur_instance st + of_nat i, msgtype := phase_code Phase2A\<rparr>)"
proof (induction ps arbitrary: st qs)
  case Nil
  then show ?case by simp
next
  case (Cons p ps)
  obtain st1 h v where s1: "pif_plugin_seq_func st (Some p) = (st1, h, v)"
    by (cases "pif_plugin_seq_func st (Some p)") auto
  obtain qs' where qs': "seq_run st1 ps = (st', qs')" "qs = the h # qs'"
    using Cons.prems s1 by (auto split: prod.splits)
  show ?case
    using Cons.IH [OF qs'(1)] qs'(2) seq_func_Some [OF s1]
    by (auto simp: nth_Cons algebra_simps split: nat.split)
qed

section \<open>Properties of the plugin\<close>

text \<open>Well-formed registers: a vote is never in a round above the promised one.\<close>

definition registers_ok :: "plugin_state \<Rightarrow> bool" where
  "registers_ok st \<longleftrightarrow> (\<forall>k. vrnds st k \<le> rnds st k)"

lemma plugin_init_ok: "registers_ok plugin_init"
  by (simp add: registers_ok_def plugin_init_def)

text \<open>C15: Whatever packet a switch processes, a reset apart, the promised and the voted round
  of no instance ever decrease, the registers stay well formed (no vote above the promise), and
  no instance other than the packet's is touched.\<close>

theorem paxos_tbl_monotone:
  assumes ok: "registers_ok st" and type: "msgtype p \<noteq> 255" and run: "paxos_tbl st p = Inr (st', h, v)"
  shows "registers_ok st' \<and> rnds st k \<le> rnds st' k \<and> vrnds st k \<le> vrnds st' k \<and>
    (k \<noteq> unat (inst p) \<longrightarrow>
       rnds st' k = rnds st k \<and> vrnds st' k = vrnds st k \<and> stored_value st' k = stored_value st k)"
proof -
  have ok: "vrnds st j \<le> rnds st j" for j using ok by (simp add: registers_ok_def)
  from run type show ?thesis
  proof (cases rule: paxos_tbl_cases)
    case same
    with ok show ?thesis by (simp add: registers_ok_def)
  next
    case promise
    with ok order_trans [OF ok promise(1)] show ?thesis by (auto simp: registers_ok_def)
  next
    case vote
    with ok order_trans [OF ok vote(1)] show ?thesis by (auto simp: registers_ok_def)
  qed
qed

definition example_packet :: "u32 \<Rightarrow> u16 \<Rightarrow> u16 \<Rightarrow> u32 \<Rightarrow> paxos_t" where
  "example_packet i r t v = \<lparr>inst = i, rnd = r, vrnd = 0, acpt = 0, msgtype = t,
     val0 = v, val1 = 0, val2 = 0, val3 = 0, val4 = 0, val5 = 0, val6 = 0, val7 = 0,
     add1 = 0, add2 = 0, add3 = 0, add4 = 0, fsh = 0, fsl = 0, feh = 0, fel = 0, csh = 0, csl = 0, ceh = 0, cel = 0,
     ash = 0, asl = 0, aeh = 0, ael = 0\<rparr>"

theorem paxos_tbl_monotone_witness:
  "\<exists>st' h v. paxos_tbl plugin_init (example_packet 5 1 3 42) = Inr (st', h, v) \<and>
     registers_ok st' \<and> rnds plugin_init 5 \<le> rnds st' 5"
proof -
  obtain st' h v where r: "paxos_tbl plugin_init (example_packet 5 1 3 42) = Inr (st', h, v)"
    by (simp add: paxos_tbl_def phase_defs example_packet_def plugin_init_def MAX_INST_def)
  have "msgtype (example_packet 5 1 3 42) \<noteq> 255" by (simp add: example_packet_def)
  from paxos_tbl_monotone [OF plugin_init_ok this r, of 5] r show ?thesis by blast
qed

text \<open>A vote is read back: once an acceptor has answered a phase 2A for round \<open>b\<close> and a
  value, the next phase 1A of the instance with a round at least \<open>b\<close> is answered with a
  phase 1B that reports exactly that round and that value, and the vote itself is kept.\<close>

theorem phase2a_then_phase1a:
  assumes "pif_plugin_paxos_phase2a st (Some p) = Inr (st1, Some q, RETURN_FORWARD)"
    and "inst p' = inst p" and "rnd p \<le> rnd p'"
  shows "\<exists>st2 q'. pif_plugin_paxos_phase1a st1 (Some p') = Inr (st2, Some q', RETURN_FORWARD) \<and>
    msgtype q' = phase_code Phase1B \<and> inst q' = inst p \<and> rnd q' = rnd p' \<and>
    vrnd q' = rnd p \<and> pkt_value q' = pkt_value p \<and>
    stored_value st2 = stored_value st1 \<and> vrnds st2 = vrnds st1"
proof -
  note f = phase2a_forward [OF assms(1)]
  have "\<exists>st2 q'. pif_plugin_paxos_phase1a st1 (Some p') = Inr (st2, Some q', RETURN_FORWARD)"
    using f(1,3) assms(2,3) by (simp add: pif_plugin_paxos_phase1a_def Let_def)
  then obtain st2 q' where r: "pif_plugin_paxos_phase1a st1 (Some p') = Inr (st2, Some q', RETURN_FORWARD)"
    by blast
  note g = phase1a_forward [OF r]
  show ?thesis using r g f assms(2) by auto
qed

theorem phase2a_then_phase1a_witness:
  "\<exists>st1 q st2 q'. pif_plugin_paxos_phase2a plugin_init (Some (example_packet 7 1 3 42)) =
       Inr (st1, Some q, RETURN_FORWARD) \<and>
     pif_plugin_paxos_phase1a st1 (Some (example_packet 7 2 1 0)) = Inr (st2, Some q', RETURN_FORWARD) \<and>
     vrnd q' = 1 \<and> pkt_value q' = [42, 0, 0, 0, 0, 0, 0, 0]"
proof -
  obtain st1 q where r: "pif_plugin_paxos_phase2a plugin_init (Some (example_packet 7 1 3 42)) =
      Inr (st1, Some q, RETURN_FORWARD)"
    by (simp add: phase_defs example_packet_def plugin_init_def MAX_INST_def)
  from phase2a_then_phase1a [OF r, of "example_packet 7 2 1 0"] r show ?thesis
    by (auto simp: example_packet_def pkt_value_def)
qed

text \<open>The coordinator numbers requests consecutively from its counter: the packets it
  sends are the requests with message type 2A and pairwise different instance numbers, as long
  as it handles at most \<open>2 ^ 32\<close> requests; nothing else of a request changes.\<close>

theorem seq_run_numbers_requests:
  assumes "seq_run st ps = (st', qs)" and "length ps \<le> 2 ^ 32"
  shows "length qs = length ps \<and> distinct (map inst qs) \<and>
    (\<forall>i < length ps. qs ! i =
       (ps ! i)\<lparr>inst := cur_instance st + of_nat i, msgtype := phase_code Phase2A\<rparr>)"
proof -
  note f = seq_run_spec [OF assms(1)]
  have "inst (qs ! i) \<noteq> inst (qs ! j)" if "i < length ps" "j < length ps" "i \<noteq> j" for i j
    using that f assms(2) word_add_of_nat_inj [of i j "cur_instance st"] by auto
  then have "distinct (map inst qs)"
    using f by (simp add: distinct_conv_nth)
  with f show ?thesis by blast
qed

theorem seq_run_numbers_requests_witness:
  "\<exists>st' qs. seq_run plugin_init [example_packet 0 1 0 7, example_packet 0 1 0 8] = (st', qs) \<and>
     distinct (map inst qs) \<and> map inst qs = [0, 1]"
proof -
  let ?ps = "[example_packet 0 1 0 7, example_packet 0 1 0 8]"
  obtain st' qs where r: "seq_run plugin_init ?ps = (st', qs)"
    by (cases "seq_run plugin_init ?ps") auto
  then have "map inst qs = [0, 1]"
    by (auto simp: pif_plugin_seq_func_def plugin_init_def)
  with seq_run_numbers_requests [OF r] r show ?thesis by auto
qed

text \<open>C28: Nothing bounds the instance numbers by the size of the register arrays: after
  \<open>MAX_INST\<close> requests since the last reset, the next packet of the coordinator makes every
  acceptor index its arrays out of bounds, whatever its registers hold.\<close>

theorem coordinator_overruns_registers:
  assumes "seq_run st ps = (st', qs)" and "cur_instance st = 0" and "length ps = MAX_INST + 1"
  shows "unat (inst (last qs)) = MAX_INST \<and>
    pif_plugin_paxos_phase2a a (Some (last qs)) = Inl Out_Of_Bounds \<and>
    pif_plugin_paxos_phase1a a (Some (last qs)) = Inl Out_Of_Bounds"
proof -
  note f = seq_run_spec [OF assms(1)]
  have "last qs = qs ! MAX_INST"
    using f assms(3) by (metis diff_Suc_1 Suc_eq_plus1 last_conv_nth length_0_conv nat.distinct(1))
  then have "inst (last qs) = of_nat MAX_INST"
    using f assms(2,3) by simp
  moreover have "unat (of_nat MAX_INST :: u32) = MAX_INST"
    by (simp add: MAX_INST_def)
  ultimately show ?thesis by (simp add: phase_defs)
qed

lemma seq_run_replicate_ex: "\<exists>st' qs. seq_run plugin_init (replicate n p) = (st', qs)"
  by (cases "seq_run plugin_init (replicate n p)") auto

theorem coordinator_overruns_registers_witness:
  "\<exists>st' qs. seq_run plugin_init (replicate (MAX_INST + 1) (example_packet 0 1 0 7)) = (st', qs) \<and>
     pif_plugin_paxos_phase2a plugin_init (Some (last qs)) = Inl Out_Of_Bounds"
proof -
  obtain st' qs where r: "seq_run plugin_init (replicate (MAX_INST + 1) (example_packet 0 1 0 7)) = (st', qs)"
    using seq_run_replicate_ex by blast
  have "cur_instance plugin_init = 0" by (simp add: plugin_init_def)
  from coordinator_overruns_registers [OF r this, of plugin_init] r show ?thesis by simp
qed

text \<open>A reset forgets everything: the counter restarts at 0 and for every instance below
  \<open>MAX_INST\<close> the next phase 1A, of any round, is answered with no vote and a zero value.\<close>

theorem reset_registers_forgets:
  assumes "pif_plugin_reset_registers st h = (st', h', v)" and "unat (inst p) < MAX_INST"
  shows "cur_instance st' = 0 \<and> h' = h \<and>
    (\<exists>st2 q. pif_plugin_paxos_phase1a st' (Some p) = Inr (st2, Some q, RETURN_FORWARD) \<and>
       vrnd q = 0 \<and> pkt_value q = replicate 8 0)"
proof -
  have st': "st' = reset_loop MAX_INST 0 (st\<lparr>cur_instance := 0\<rparr>)" and "h' = h"
    using assms(1) by (auto simp: pif_plugin_reset_registers_def)
  note sweep = reset_loop_sweep [of MAX_INST 0 "st\<lparr>cur_instance := 0\<rparr>" "unat (inst p)"]
  have z: "rnds st' (unat (inst p)) = 0" "vrnds st' (unat (inst p)) = 0"
    "stored_value st' (unat (inst p)) = replicate 8 0" "cur_instance st' = 0"
    using sweep assms(2) by (simp_all add: st')
  have "\<exists>st2 q. pif_plugin_paxos_phase1a st' (Some p) = Inr (st2, Some q, RETURN_FORWARD)"
    using z(1) assms(2) by (simp add: pif_plugin_paxos_phase1a_def Let_def)
  then obtain st2 q where r: "pif_plugin_paxos_phase1a st' (Some p) = Inr (st2, Some q, RETURN_FORWARD)"
    by blast
  with phase1a_forward [OF r] z \<open>h' = h\<close> show ?thesis by auto
qed

theorem reset_registers_forgets_witness:
  "\<exists>st' h' v st2 q. pif_plugin_reset_registers plugin_init None = (st', h', v) \<and> cur_instance st' = 0 \<and>
     pif_plugin_paxos_phase1a st' (Some (example_packet 9 0 1 3)) = Inr (st2, Some q, RETURN_FORWARD) \<and>
     vrnd q = 0"
proof -
  obtain st' h' v where r: "pif_plugin_reset_registers plugin_init None = (st', h', v)"
    by (cases "pif_plugin_reset_registers plugin_init None") auto
  from reset_registers_forgets [OF r, of "example_packet 9 0 1 3"] r show ?thesis
    by (auto simp: example_packet_def MAX_INST_def)
qed

end
