(* ===== verification/Netro_Pipeline.thy ===== *)
theory Netro_Pipeline
  imports Netro_Paxos
begin

text \<open>
  The switch program \<^verbatim>\<open>netrodemo/cans.p4\<close> around the plugin, with the entries of \<^verbatim>\<open>commands.rules\<close>: the parser, the
  actions with their calls of the plugin, the two tables and the ingress control.  As it is written, the control
  applies the table of Paxos to no packet.
\<close>

section \<open>Parser\<close>

text \<open>The headers a parser has found, and the port the packet leaves by.\<close>

datatype port = Port_p0 | Port_v0_0 | Port_other nat

record work =
  arp_valid :: bool
  icmp_valid :: bool
  ipv4_valid :: bool
  ipv6_valid :: bool
  udp_checksum :: "u16 option"
  paxos :: "paxos_t option"
  egress_spec :: "port option"

definition no_headers :: work where
  "no_headers = \<lparr>arp_valid = False, icmp_valid = False, ipv4_valid = False, ipv6_valid = False, udp_checksum = None, paxos = None,
     egress_spec = None\<rparr>"

text \<open>\<open>n\<close> bytes from an offset on, as a number.\<close>

definition be :: "nat \<Rightarrow> u8 list \<Rightarrow> nat \<Rightarrow> 'a::len word" where
  "be n bs off = foldl (\<lambda>w b. push_bit 8 w OR ucast b) 0 (take n (drop off bs))"

definition extract_paxos :: "u8 list \<Rightarrow> nat \<Rightarrow> paxos_t" where
  "extract_paxos bs o1 = (let w = (\<lambda>k. be 4 bs (o1 + 12 + 4 * k)) in
    \<lparr>inst = be 4 bs o1, rnd = be 2 bs (o1 + 4), vrnd = be 2 bs (o1 + 6), acpt = be 2 bs (o1 + 8), msgtype = be 2 bs (o1 + 10),
     val0 = w 0, val1 = w 1, val2 = w 2, val3 = w 3, val4 = w 4, val5 = w 5, val6 = w 6, val7 = w 7,
     add1 = w 8, add2 = w 9, add3 = w 10, add4 = w 11, fsh = w 12, fsl = w 13, feh = w 14, fel = w 15,
     csh = w 16, csl = w 17, ceh = w 18, cel = w 19, ash = w 20, asl = w 21, aeh = w 22, ael = w 23\<rparr>)"

text \<open>The parser states; \<open>None\<close> when the packet ends inside a header.\<close>

definition parse_paxos :: "u8 list \<Rightarrow> nat \<Rightarrow> work \<Rightarrow> work option" where
  "parse_paxos bs off h = (if length bs < off + 108 then None else Some (h\<lparr>paxos := Some (extract_paxos bs off)\<rparr>))"

definition parse_udp :: "u8 list \<Rightarrow> nat \<Rightarrow> work \<Rightarrow> work option" where
  "parse_udp bs off h =
    (if length bs < off + 8 then None
     else let h = h\<lparr>udp_checksum := Some (be 2 bs (off + 6))\<rparr> in
       if be 2 bs (off + 2) = (0x8888 :: u16) then parse_paxos bs (off + 8) h else Some h)"

definition parse_ipv4 :: "u8 list \<Rightarrow> nat \<Rightarrow> work \<Rightarrow> work option" where
  "parse_ipv4 bs off h =
    (if length bs < off + 20 then None
     else let h = h\<lparr>ipv4_valid := True\<rparr> in if be 1 bs (off + 9) = (0x11 :: u8) then parse_udp bs (off + 20) h else Some h)"

definition parse_ipv6 :: "u8 list \<Rightarrow> nat \<Rightarrow> work \<Rightarrow> work option" where
  "parse_ipv6 bs off h = (if length bs < off + 40 then None else Some (h\<lparr>ipv6_valid := True\<rparr>))"

definition parse_arp :: "u8 list \<Rightarrow> nat \<Rightarrow> work \<Rightarrow> work option" where
  "parse_arp bs off h = (if length bs < off + 28 then None else Some (h\<lparr>arp_valid := True\<rparr>))"

definition parse_icmp :: "u8 list \<Rightarrow> nat \<Rightarrow> work \<Rightarrow> work option" where
  "parse_icmp bs off h = (if length bs < off + 8 then None else Some (h\<lparr>icmp_valid := True\<rparr>))"

definition parse_ethernet :: "u8 list \<Rightarrow> work option" where
  "parse_ethernet bs =
    (if length bs < 14 then None
     else let etherType = be 2 bs 12 :: u16; h = no_headers in
       if etherType = 0x0806 then parse_arp bs 14 h
       else if etherType = 0x1 then parse_icmp bs 14 h
       else if etherType = 0x0800 then parse_ipv4 bs 14 h
       else if etherType = 0x86dd then parse_ipv6 bs 14 h
       else Some h)"

section \<open>Actions\<close>

text \<open>
  An action runs its calls one after the other; a plugin function that returns \<^verbatim>\<open>PIF_PLUGIN_RETURN_DROP\<close> ends it and the packet.
  \<open>t\<close> and \<open>t'\<close> are the two readings of the time-stamp counter that an action may make.
\<close>

type_synonym stage = "plugin_state \<times> work \<Rightarrow> plugin_error + (plugin_state \<times> work) \<times> verdict"

definition plugin :: "(plugin_state \<Rightarrow> headers \<Rightarrow> plugin_result) \<Rightarrow> stage" where
  "plugin f = (\<lambda>(st, w). case f st (paxos w) of
     Inl e \<Rightarrow> Inl e | Inr (st, h, v) \<Rightarrow> Inr ((st, w\<lparr>paxos := h\<rparr>), v))"

definition modify :: "(work \<Rightarrow> work) \<Rightarrow> stage" where
  "modify f = (\<lambda>(st, w). Inr ((st, f w), RETURN_FORWARD))"

fun perform :: "stage list \<Rightarrow> stage" where
  "perform [] x = Inr (x, RETURN_FORWARD)"
| "perform (f # fs) x = (case f x of Inl e \<Rightarrow> Inl e | Inr (y, RETURN_DROP) \<Rightarrow> Inr (y, RETURN_DROP) | Inr (y, RETURN_FORWARD) \<Rightarrow> perform fs y)"

definition clear_checksum :: "work \<Rightarrow> work" where
  "clear_checksum w = w\<lparr>udp_checksum := map_option (\<lambda>_. 0) (udp_checksum w)\<rparr>"

definition forward :: "u32 \<times> u32 \<Rightarrow> u32 \<times> u32 \<Rightarrow> port \<Rightarrow> stage" where
  "forward t t' port = perform
    [plugin (\<lambda>st h. Inr (pif_plugin_get_forwarding_start_time (fst t) (snd t) st h)), modify (\<lambda>w. w\<lparr>egress_spec := Some port\<rparr>),
     plugin (\<lambda>st h. Inr (pif_plugin_get_forwarding_end_time (fst t') (snd t') st h))]"

definition increase_seq :: "u32 \<times> u32 \<Rightarrow> u32 \<times> u32 \<Rightarrow> stage" where
  "increase_seq t t' = perform
    [plugin (\<lambda>st h. Inr (pif_plugin_get_coordinator_start_time (fst t) (snd t) st h)), plugin (\<lambda>st h. Inr (pif_plugin_seq_func st h)),
     modify clear_checksum, plugin (\<lambda>st h. Inr (pif_plugin_get_coordinator_end_time (fst t') (snd t') st h))]"

definition handle_phase1a :: stage where
  "handle_phase1a = perform [plugin pif_plugin_paxos_phase1a, modify clear_checksum]"

definition handle_phase2a :: "u32 \<times> u32 \<Rightarrow> u32 \<times> u32 \<Rightarrow> stage" where
  "handle_phase2a t t' = perform
    [plugin (\<lambda>st h. Inr (pif_plugin_get_acceptor_start_time (fst t) (snd t) st h)), plugin pif_plugin_paxos_phase2a,
     plugin (\<lambda>st h. Inr (pif_plugin_get_acceptor_end_time (fst t') (snd t') st h)), modify clear_checksum]"

definition reset_paxos :: stage where
  "reset_paxos = perform [plugin (\<lambda>st h. Inr (pif_plugin_reset_registers st h))]"

section \<open>Tables and control\<close>

text \<open>A packet that no entry matches passes.\<close>

definition fwd_tbl :: "u32 \<times> u32 \<Rightarrow> u32 \<times> u32 \<Rightarrow> port \<Rightarrow> stage" where
  "fwd_tbl t t' ingress_port =
    (if ingress_port = Port_p0 then forward t t' Port_v0_0
     else if ingress_port = Port_v0_0 then forward t t' Port_p0
     else perform [])"

definition apply_paxos_tbl :: "u32 \<times> u32 \<Rightarrow> u32 \<times> u32 \<Rightarrow> u16 \<Rightarrow> stage" where
  "apply_paxos_tbl t t' ty =
    (if ty = 1 then handle_phase1a
     else if ty = 3 then handle_phase2a t t'
     else if ty = 0 then increase_seq t t'
     else if ty = 255 then reset_paxos
     else perform [])"

definition ingress :: "u32 \<times> u32 \<Rightarrow> u32 \<times> u32 \<Rightarrow> port \<Rightarrow> stage" where
  "ingress t t' ingress_port = (\<lambda>(st, w).
    if \<not> ipv6_valid w then fwd_tbl t t' ingress_port (st, w)
    else case paxos w of Some p \<Rightarrow> apply_paxos_tbl t t' (msgtype p) (st, w) | None \<Rightarrow> perform [] (st, w))"

text \<open>The switch on a packet; \<open>None\<close> when the parser gives it up.\<close>

definition switch :: "u32 \<times> u32 \<Rightarrow> u32 \<times> u32 \<Rightarrow> port \<Rightarrow> plugin_state \<Rightarrow> u8 list \<Rightarrow> (plugin_error + (plugin_state \<times> work) \<times> verdict) option" where
  "switch t t' ingress_port st bs = map_option (\<lambda>w. ingress t t' ingress_port (st, w)) (parse_ethernet bs)"

section \<open>What becomes of Paxos packets\<close>

text \<open>The table of Paxos does what \<^const>\<open>paxos_tbl\<close> says, up to the time stamps.\<close>

lemma apply_paxos_tbl_phase1a:
  assumes "paxos w = Some p" "msgtype p = 1" "paxos_tbl st p = Inr (st', h, v)"
  shows "\<exists>w'. apply_paxos_tbl t t' (msgtype p) (st, w) = Inr ((st', w'), v) \<and> paxos w' = h"
  using assms
  by (cases v) (simp_all add: apply_paxos_tbl_def handle_phase1a_def paxos_tbl_def plugin_def modify_def clear_checksum_def)

text \<open>A parsed packet has not both an IPv6 and a Paxos header.\<close>

lemma parsed_exclusive: "parse_ethernet bs = Some w \<Longrightarrow> ipv6_valid w \<Longrightarrow> paxos w = None"
  by (auto simp: parse_ethernet_def parse_arp_def parse_icmp_def parse_ipv4_def parse_ipv6_def parse_udp_def parse_paxos_def
      no_headers_def Let_def split: if_splits)

text \<open>What the plugin keeps of Paxos, and what a header says of it.\<close>

definition paxos_state :: "plugin_state \<Rightarrow> u32 \<times> u32 \<times> (nat \<Rightarrow> u16) \<times> (nat \<Rightarrow> u16) \<times> (nat \<Rightarrow> u32 list)" where
  "paxos_state st = (pkt_inst st, cur_instance st, rnds st, vrnds st, stored_value st)"

definition paxos_fields :: "paxos_t \<Rightarrow> u16 \<times> u32 \<times> u16 \<times> u16 \<times> u16 \<times> u32 list" where
  "paxos_fields p = (msgtype p, inst p, rnd p, vrnd p, acpt p, pkt_value p)"

lemma forward_keeps:
  "\<exists>st' w'. forward t t' port (st, w) = Inr ((st', w'), RETURN_FORWARD) \<and> paxos_state st' = paxos_state st
    \<and> map_option paxos_fields (paxos w') = map_option paxos_fields (paxos w)"
  by (cases "paxos w") (simp_all add: forward_def plugin_def modify_def timestamp_defs paxos_state_def paxos_fields_def
      stored_value_def pkt_value_def fun_eq_iff)

text \<open>C36: The Netronome program never runs Paxos: its ingress control applies the table of Paxos only to packets with an IPv6
  header, and its parser finds a Paxos header only behind IPv4.  So every packet that it can parse, whatever its
  bytes, is sent on with the Paxos fields it came with, and leaves the instance counter and all registers of
  the acceptor as they are.\<close>

theorem cans_never_runs_paxos:
  assumes "parse_ethernet bs = Some w"
  shows "\<exists>st' w'. switch t t' ingress_port st bs = Some (Inr ((st', w'), RETURN_FORWARD)) \<and> paxos_state st' = paxos_state st
    \<and> map_option paxos_fields (paxos w') = map_option paxos_fields (paxos w)"
proof (cases "ipv6_valid w")
  case True
  then show ?thesis using parsed_exclusive[OF assms] assms by (simp add: switch_def ingress_def)
next
  case False
  then show ?thesis using forward_keeps assms by (simp add: switch_def ingress_def fwd_tbl_def)
qed

text \<open>A UDP datagram to port \<open>0x8888\<close> with a phase 2A for instance 7 in round 1.\<close>

definition example_bytes :: "u8 list" where
  "example_bytes = replicate 12 0 @ [8, 0] @ replicate 9 0 @ [0x11] @ replicate 10 0 @ [0, 0, 0x88, 0x88, 0, 0, 0, 0]
     @ [0, 0, 0, 7, 0, 1, 0, 0, 0, 0, 0, 3] @ replicate 96 0"

theorem cans_never_runs_paxos_witness:
  "\<exists>st' w'. switch (1, 2) (3, 4) Port_p0 plugin_init example_bytes = Some (Inr ((st', w'), RETURN_FORWARD))
    \<and> rnds st' 7 = 0 \<and> vrnds st' 7 = 0 \<and> map_option (\<lambda>p. (msgtype p, inst p, rnd p)) (paxos w') = Some (3, 7, 1)"
proof -
  have "map_option (\<lambda>w. map_option (\<lambda>p. (msgtype p, inst p, rnd p)) (paxos w)) (parse_ethernet example_bytes) = Some (Some (3, 7, 1))"
    by code_simp
  then obtain w p where w: "parse_ethernet example_bytes = Some w" "paxos w = Some p" "msgtype p = 3" "inst p = 7" "rnd p = 1"
    by auto
  from cans_never_runs_paxos[OF w(1), of "(1, 2)" "(3, 4)" Port_p0 plugin_init] show ?thesis
    using w(2-5) by (auto simp: paxos_state_def paxos_fields_def plugin_init_def)
qed

end
