(* ===== verification/Dpdk_Base.thy ===== *)
theory Dpdk_Base
  imports Prelude
begin

text \<open>
  The data the DPDK programs share: the constants of \<^verbatim>\<open>const.h\<close>, the libpaxos messages of
  \<^verbatim>\<open>paxos_types.h\<close>, the layout of the wire headers (Ethernet, ARP, IPv4, ICMP, UDP and the
  Paxos header of \<^verbatim>\<open>rte_paxos.h\<close>) as byte offsets, the packet buffer, and the part of DPDK the
  programs call, which is not in the repository and is an argument of the definitions.
\<close>

section \<open>Constants\<close>

definition BURST_SIZE :: nat where "BURST_SIZE = 32"
definition NUM_ACCEPTORS :: nat where "NUM_ACCEPTORS = 1"
definition PROPOSER_PORT :: u16 where "PROPOSER_PORT = 34952"
definition COORDINATOR_PORT :: u16 where "COORDINATOR_PORT = 34951"
definition ACCEPTOR_PORT :: u16 where "ACCEPTOR_PORT = 34952"
definition LEARNER_PORT :: u16 where "LEARNER_PORT = 34953"

text \<open>DPDK's \<^verbatim>\<open>IPv4(a,b,c,d)\<close>: host byte order.\<close>

definition IPv4 :: "u8 \<Rightarrow> u8 \<Rightarrow> u8 \<Rightarrow> u8 \<Rightarrow> u32" where
  "IPv4 a b c d = push_bit 24 (ucast a) OR push_bit 16 (ucast b) OR push_bit 8 (ucast c) OR ucast d"

definition COORDINATOR_ADDR :: u32 where "COORDINATOR_ADDR = IPv4 10 0 0 10"
definition ACCEPTOR_ADDR :: u32 where "ACCEPTOR_ADDR = IPv4 224 3 29 73"
definition LEARNER_ADDR :: u32 where "LEARNER_ADDR = IPv4 224 3 29 73"

lemmas port_defs = PROPOSER_PORT_def COORDINATOR_PORT_def ACCEPTOR_PORT_def LEARNER_PORT_def

text \<open>Numbers of the Internet protocols, as the DPDK and C headers define them.\<close>

abbreviation (input) ETHER_TYPE_IPv4 :: u16 where "ETHER_TYPE_IPv4 \<equiv> 0x0800"
abbreviation (input) ETHER_TYPE_ARP :: u16 where "ETHER_TYPE_ARP \<equiv> 0x0806"
abbreviation (input) ETHER_TYPE_VLAN :: u16 where "ETHER_TYPE_VLAN \<equiv> 0x8100"
abbreviation (input) ETHER_TYPE_IPv6 :: u16 where "ETHER_TYPE_IPv6 \<equiv> 0x86DD"
abbreviation (input) IPPROTO_ICMP :: u8 where "IPPROTO_ICMP \<equiv> 1"
abbreviation (input) IPPROTO_UDP :: u8 where "IPPROTO_UDP \<equiv> 17"
abbreviation (input) IPV4_HDR_DF_FLAG :: u16 where "IPV4_HDR_DF_FLAG \<equiv> 0x4000"
abbreviation (input) IP_ICMP_ECHO_REPLY :: u8 where "IP_ICMP_ECHO_REPLY \<equiv> 0"
abbreviation (input) ARP_HRD_ETHER :: u16 where "ARP_HRD_ETHER \<equiv> 1"
abbreviation (input) ARP_OP_REQUEST :: u16 where "ARP_OP_REQUEST \<equiv> 1"
abbreviation (input) ARP_OP_REPLY :: u16 where "ARP_OP_REPLY \<equiv> 2"

section \<open>libpaxos messages\<close>

text \<open>
  \<open>paxos_value_val\<close> is the memory the \<^verbatim>\<open>char *\<close> points to.  \<^verbatim>\<open>paxos_prepare\<close>, \<^verbatim>\<open>paxos_promise\<close>,
  \<^verbatim>\<open>paxos_accept\<close>, \<^verbatim>\<open>paxos_accepted\<close> and \<^verbatim>\<open>paxos_preempted\<close> have the same fields at the same
  offsets, and the programs read one member of the union through another: they are one record.
\<close>

record paxos_value =
  paxos_value_len :: u32
  paxos_value_val :: mem

record paxos_accept =
  iid :: u32
  ballot :: u16
  value_ballot :: u16
  aid :: u16
  body_value :: paxos_value

type_synonym paxos_prepare = paxos_accept
type_synonym paxos_promise = paxos_accept
type_synonym paxos_accepted = paxos_accept
type_synonym paxos_preempted = paxos_accept

record paxos_message =
  mtype :: u32
  body :: paxos_accept

datatype paxos_message_type =
  PAXOS_PREPARE | PAXOS_PROMISE | PAXOS_ACCEPT | PAXOS_ACCEPTED | PAXOS_PREEMPTED
| PAXOS_REPEAT | PAXOS_TRIM | PAXOS_ACCEPTOR_STATE | PAXOS_CLIENT_VALUE

fun msg_code :: "paxos_message_type \<Rightarrow> nat" where
  "msg_code PAXOS_PREPARE = 0"
| "msg_code PAXOS_PROMISE = 1"
| "msg_code PAXOS_ACCEPT = 2"
| "msg_code PAXOS_ACCEPTED = 3"
| "msg_code PAXOS_PREEMPTED = 4"
| "msg_code PAXOS_REPEAT = 5"
| "msg_code PAXOS_TRIM = 6"
| "msg_code PAXOS_ACCEPTOR_STATE = 7"
| "msg_code PAXOS_CLIENT_VALUE = 8"

text \<open>The initialiser \<^verbatim>\<open>{0, NULL}\<close>.\<close>

definition NULL_value :: paxos_value where
  "NULL_value = \<lparr>paxos_value_len = 0, paxos_value_val = (\<lambda>_. 0)\<rparr>"

text \<open>The bytes of a value: as many as its length says.\<close>

definition value_bytes :: "paxos_value \<Rightarrow> u8 list" where
  "value_bytes v = bytes_at 0 (unat (paxos_value_len v)) (paxos_value_val v)"

section \<open>Layout of the wire headers\<close>

text \<open>Sizes of the structures, and offsets of their fields from the start of the structure.\<close>

abbreviation (input) sizeof_ether_hdr :: nat where "sizeof_ether_hdr \<equiv> 14"
abbreviation (input) sizeof_ipv4_hdr :: nat where "sizeof_ipv4_hdr \<equiv> 20"
abbreviation (input) sizeof_udp_hdr :: nat where "sizeof_udp_hdr \<equiv> 8"
abbreviation (input) sizeof_vlan_hdr :: nat where "sizeof_vlan_hdr \<equiv> 4"
abbreviation (input) sizeof_ipv6_hdr :: nat where "sizeof_ipv6_hdr \<equiv> 40"

text \<open>\<^verbatim>\<open>struct paxos_hdr\<close>: 2 + 4 + 2 + 2 + 2 + 4 + 32 bytes, packed.\<close>

definition sizeof_paxos_hdr :: nat where "sizeof_paxos_hdr = 48"

text \<open>\<^verbatim>\<open>struct paxos_message\<close>: an enum (4) and the largest union member (4 + 2 + 2 + 2 + 4 + 8).\<close>

definition sizeof_paxos_message :: nat where "sizeof_paxos_message = 26"

abbreviation (input) eth_d_addr :: nat where "eth_d_addr \<equiv> 0"
abbreviation (input) eth_s_addr :: nat where "eth_s_addr \<equiv> 6"
abbreviation (input) eth_ether_type :: nat where "eth_ether_type \<equiv> 12"

abbreviation (input) ip_version_ihl :: nat where "ip_version_ihl \<equiv> 0"
abbreviation (input) ip_total_length :: nat where "ip_total_length \<equiv> 2"
abbreviation (input) ip_packet_id :: nat where "ip_packet_id \<equiv> 4"
abbreviation (input) ip_fragment_offset :: nat where "ip_fragment_offset \<equiv> 6"
abbreviation (input) ip_time_to_live :: nat where "ip_time_to_live \<equiv> 8"
abbreviation (input) ip_next_proto_id :: nat where "ip_next_proto_id \<equiv> 9"
abbreviation (input) ip_hdr_checksum :: nat where "ip_hdr_checksum \<equiv> 10"
abbreviation (input) ip_src_addr :: nat where "ip_src_addr \<equiv> 12"
abbreviation (input) ip_dst_addr :: nat where "ip_dst_addr \<equiv> 16"

abbreviation (input) udp_src_port :: nat where "udp_src_port \<equiv> 0"
abbreviation (input) udp_dst_port :: nat where "udp_dst_port \<equiv> 2"
abbreviation (input) udp_dgram_len :: nat where "udp_dgram_len \<equiv> 4"
abbreviation (input) udp_dgram_cksum :: nat where "udp_dgram_cksum \<equiv> 6"

abbreviation (input) px_msgtype :: nat where "px_msgtype \<equiv> 0"
abbreviation (input) px_inst :: nat where "px_inst \<equiv> 2"
abbreviation (input) px_rnd :: nat where "px_rnd \<equiv> 6"
abbreviation (input) px_vrnd :: nat where "px_vrnd \<equiv> 8"
abbreviation (input) px_acptid :: nat where "px_acptid \<equiv> 10"
abbreviation (input) px_value_len :: nat where "px_value_len \<equiv> 12"
abbreviation (input) px_paxosval :: nat where "px_paxosval \<equiv> 16"

text \<open>Where the headers of an untagged IPv4/UDP packet start.\<close>

abbreviation (input) IPH :: nat where "IPH \<equiv> 14"
abbreviation (input) UDPH :: nat where "UDPH \<equiv> 34"
abbreviation (input) PXH :: nat where "PXH \<equiv> 42"

section \<open>Packet buffers and the DPDK environment\<close>

text \<open>
  The fields of \<^verbatim>\<open>struct rte_mbuf\<close> the programs use, with DPDK's widths: the three header
  lengths are bit fields of 7, 9 and 8 bits (as \<^verbatim>\<open>union tunnel_offload_info\<close> repeats them), so
  an assignment truncates.  \<open>buf\<close> is the packet data from its first byte on.
\<close>

record mbuf =
  buf :: mem
  data_len :: u16
  pkt_len :: u32
  l2_len :: "7 word"
  l3_len :: "9 word"
  l4_len :: "8 word"
  ol_flags :: u64
  packet_type :: u32
  udata64 :: u64

text \<open>
  What the programs use of DPDK besides buffers: the MAC address of a port, the pseudo-header
  checksums (functions of the memory from the IP header on), the cycle counter, and the
  version-dependent flag masks.
\<close>

record rte_env =
  macaddr :: "u8 \<Rightarrow> mem"
  ipv4_phdr_cksum :: "mem \<Rightarrow> u64 \<Rightarrow> u16"
  ipv6_phdr_cksum :: "mem \<Rightarrow> u64 \<Rightarrow> u16"
  rdtsc :: u64
  PKT_TX_IPV4 :: u64
  PKT_TX_IP_CKSUM :: u64
  PKT_TX_UDP_CKSUM :: u64
  PTYPE_TUNNEL_MASK :: u32

definition tx_offload :: "rte_env \<Rightarrow> u64" where
  "tx_offload E = PKT_TX_IPV4 E OR PKT_TX_IP_CKSUM E OR PKT_TX_UDP_CKSUM E"

text \<open>A pointer into a memory: the memory seen from the offset \<open>a\<close> on.\<close>

definition from_offset :: "nat \<Rightarrow> mem \<Rightarrow> mem" where
  "from_offset a m = (\<lambda>i. m (a + i))"

section \<open>Reading a Paxos header\<close>

text \<open>What every receiver reads, at the header offset \<open>h\<close>.\<close>

definition hdr_msgtype :: "nat \<Rightarrow> mem \<Rightarrow> u16" where
  "hdr_msgtype h m = bswap16 (ld16 (h + px_msgtype) m)"

definition hdr_value_len :: "nat \<Rightarrow> mem \<Rightarrow> u32" where
  "hdr_value_len h m = bswap32 (ld32 (h + px_value_len) m)"

text \<open>The initialiser the programs write for a promise, accept or accepted message.\<close>

definition hdr_body :: "nat \<Rightarrow> mem \<Rightarrow> paxos_value \<Rightarrow> paxos_accept" where
  "hdr_body h m v = \<lparr>
     iid = bswap32 (ld32 (h + px_inst) m),
     ballot = bswap16 (ld16 (h + px_rnd) m),
     value_ballot = bswap16 (ld16 (h + px_vrnd) m),
     aid = bswap16 (ld16 (h + px_acptid) m),
     body_value = v\<rparr>"

definition hdr_value :: "nat \<Rightarrow> mem \<Rightarrow> paxos_value" where
  "hdr_value h m = \<lparr>paxos_value_len = hdr_value_len h m,
     paxos_value_val = from_offset (h + px_paxosval) m\<rparr>"

lemmas hdr_defs = hdr_msgtype_def hdr_value_len_def hdr_body_def hdr_value_def

lemma bytes_at_from_offset [simp]: "bytes_at a n (from_offset b m) = bytes_at (b + a) n m"
  by (simp add: bytes_at_def from_offset_def add.assoc)


text \<open>The header is read from the bytes at and after its offset only.\<close>

lemma hdr_cong:
  assumes "\<And>i. h \<le> i \<Longrightarrow> m i = m' i"
  shows "hdr_msgtype h m = hdr_msgtype h m'" "hdr_value_len h m = hdr_value_len h m'"
    "hdr_body h m v = hdr_body h m' v" "hdr_value h m = hdr_value h m'"
  using assms by (simp_all add: hdr_defs ld16_def ld32_def from_offset_def)

text \<open>
  What arrives of a packet: its length and as many bytes as that; what lies behind them in the buffer
  is anything.
\<close>

definition received :: "mbuf \<Rightarrow> mbuf \<Rightarrow> bool" where
  "received p q \<longleftrightarrow> pkt_len q = pkt_len p \<and> (\<forall>k < unat (pkt_len p). buf q k = buf p k)"

text \<open>
  The bytes of a buffer from the start of the packet in it: the pools are created with buffers of
  \<^verbatim>\<open>RTE_MBUF_DEFAULT_BUF_SIZE\<close>, which is this room and the headroom in front of it.
\<close>

definition RTE_MBUF_DEFAULT_DATAROOM :: nat where "RTE_MBUF_DEFAULT_DATAROOM = 2048"

end
