(* ===== verification/Rte_Paxos.thy ===== *)
theory Rte_Paxos
  imports Dpdk_Base
begin

text \<open>
  \<^verbatim>\<open>dpdk/lib/rte_paxos.c\<close> and \<^verbatim>\<open>dpdk/lib/utils.c\<close>: building a UDP packet and a Paxos message in a
  packet buffer, the multicast address rule, parsing an Ethernet header, the latency counters,
  the timer loop and the sending loop.
\<close>

section \<open>Building packets\<close>

text \<open>\<^verbatim>\<open>ETHER_ADDR_FOR_IPV4_MCAST\<close>; the union reads the first six bytes of the integer.\<close>

definition ETHER_ADDR_FOR_IPV4_MCAST :: "u32 \<Rightarrow> u64" where
  "ETHER_ADDR_FOR_IPV4_MCAST x =
     drop_bit 16 (bswap64 (0x01005e000000 OR (ucast x AND 0x7fffff)))"

definition as_addr :: "u64 \<Rightarrow> mem" where
  "as_addr w = (\<lambda>i. ucast (drop_bit (8 * i) w))"

definition get_psd_sum :: "rte_env \<Rightarrow> mem \<Rightarrow> u16 \<Rightarrow> u64 \<Rightarrow> u16" where
  "get_psd_sum E l3_hdr ethertype flags =
     (if ethertype = ETHER_TYPE_IPv4 then ipv4_phdr_cksum E l3_hdr flags
      else ipv6_phdr_cksum E l3_hdr flags)"

definition craft_new_packet ::
  "rte_env \<Rightarrow> mbuf \<Rightarrow> u32 \<Rightarrow> u32 \<Rightarrow> u16 \<Rightarrow> u16 \<Rightarrow> u64 \<Rightarrow> u8 \<Rightarrow> mbuf" where
  "craft_new_packet E pkt srcIP dstIP sport dport data_size output_port =
    (let pkt_size = of_nat (sizeof_ether_hdr + sizeof_ipv4_hdr + sizeof_udp_hdr) + data_size;
         m = buf pkt;
         m = memcpy eth_s_addr (macaddr E output_port) 0 6 m;
         m = memcpy eth_d_addr (as_addr (ETHER_ADDR_FOR_IPV4_MCAST dstIP)) 0 6 m;
         m = st16 eth_ether_type (bswap16 ETHER_TYPE_IPv4) m;
         m = st16 (IPH + ip_total_length)
               (bswap16 (ucast (of_nat (sizeof_ipv4_hdr + sizeof_udp_hdr) + data_size))) m;
         m = st8 (IPH + ip_version_ihl) 0x45 m;
         m = st8 (IPH + ip_time_to_live) 64 m;
         m = st16 (IPH + ip_packet_id) (bswap16 (ucast (rdtsc E))) m;
         m = st16 (IPH + ip_fragment_offset) (bswap16 IPV4_HDR_DF_FLAG) m;
         m = st8 (IPH + ip_next_proto_id) IPPROTO_UDP m;
         m = st16 (IPH + ip_hdr_checksum) 0 m;
         m = st32 (IPH + ip_src_addr) (bswap32 srcIP) m;
         m = st32 (IPH + ip_dst_addr) (bswap32 dstIP) m;
         m = st16 (UDPH + udp_src_port) (bswap16 sport) m;
         m = st16 (UDPH + udp_dst_port) (bswap16 dport) m;
         m = st16 (UDPH + udp_dgram_len)
               (bswap16 (ucast (of_nat sizeof_udp_hdr + data_size))) m;
         flags = tx_offload E;
         m = st16 (UDPH + udp_dgram_cksum)
               (get_psd_sum E (from_offset IPH m) ETHER_TYPE_IPv4 flags) m
     in pkt\<lparr>buf := m, data_len := ucast pkt_size, pkt_len := ucast pkt_size,
            l2_len := of_nat sizeof_ether_hdr, l3_len := of_nat sizeof_ipv4_hdr,
            l4_len := ucast (of_nat sizeof_udp_hdr + data_size), ol_flags := flags\<rparr>)"

definition add_paxos_message ::
  "rte_env \<Rightarrow> paxos_message \<Rightarrow> mbuf \<Rightarrow> u16 \<Rightarrow> u16 \<Rightarrow> u32 \<Rightarrow> mbuf" where
  "add_paxos_message E pm created_pkt sport dport dstIP =
    (let b = body pm; v = body_value b; len = scast (paxos_value_len v) :: u64;
         m = buf created_pkt;
         m = st16 (PXH + px_msgtype) (bswap16 (ucast (mtype pm))) m;
         m = st32 (PXH + px_inst) (bswap32 (iid b)) m;
         m = st16 (PXH + px_rnd) (bswap16 (ballot b)) m;
         m = st16 (PXH + px_vrnd) (bswap16 (value_ballot b)) m;
         m = st16 (PXH + px_acptid) (bswap16 (aid b)) m;
         m = st32 (PXH + px_value_len) (bswap32 (paxos_value_len v)) m;
         m = memcpy (PXH + px_paxosval) (paxos_value_val v) 0 (unat len) m
     in craft_new_packet E (created_pkt\<lparr>buf := m\<rparr>) (IPv4 192 168 4 97) dstIP sport dport
          (of_nat sizeof_paxos_message + len) 0)"

section \<open>Parsing an Ethernet header\<close>

text \<open>The two fields of \<^verbatim>\<open>union tunnel_offload_info\<close> the function fills (7 and 16 bits wide).\<close>

record tunnel_offload_info =
  outer_l2_len :: "7 word"
  outer_l3_len :: u16

definition parse_ethernet :: "mem \<Rightarrow> tunnel_offload_info \<Rightarrow> tunnel_offload_info \<times> u8" where
  "parse_ethernet eth info =
    (let info = info\<lparr>outer_l2_len := of_nat sizeof_ether_hdr\<rparr>;
         ethertype = bswap16 (ld16 eth_ether_type eth);
         vlan = (ethertype = ETHER_TYPE_VLAN);
         info = (if vlan then info\<lparr>outer_l2_len := outer_l2_len info + of_nat sizeof_vlan_hdr\<rparr> else info);
         ethertype = (if vlan then bswap16 (ld16 (sizeof_ether_hdr + 2) eth) else ethertype);
         l3 = unat (outer_l2_len info)
     in if ethertype = ETHER_TYPE_IPv4
        then (info\<lparr>outer_l3_len := of_nat sizeof_ipv4_hdr\<rparr>, eth (l3 + ip_next_proto_id))
        else if ethertype = ETHER_TYPE_IPv6
        then (info\<lparr>outer_l3_len := of_nat sizeof_ipv6_hdr\<rparr>, eth (l3 + 6))
        else (info\<lparr>outer_l3_len := 0\<rparr>, 0))"

section \<open>Counters and loops\<close>

record latency_numbers =
  total_cycles :: u64
  total_pkts :: u64

definition sum_latency :: "u64 \<Rightarrow> mbuf list \<Rightarrow> u64" where
  "sum_latency now pkts = fold (\<lambda>pkt cycles. cycles + (now - udata64 pkt)) pkts 0"

definition calc_latency ::
  "u64 \<Rightarrow> mbuf list \<Rightarrow> u16 \<Rightarrow> latency_numbers \<Rightarrow> latency_numbers \<times> u16" where
  "calc_latency now pkts nb_pkts ln =
    (let cycles = sum_latency now (take (unat nb_pkts) pkts);
         ln = \<lparr>total_cycles = total_cycles ln + cycles, total_pkts = total_pkts ln + ucast nb_pkts\<rparr>;
         ln = (if 1000 * 1000 \<le> total_pkts ln then \<lparr>total_cycles = 0, total_pkts = 0\<rparr> else ln)
     in (ln, nb_pkts))"

text \<open>
  The timer loop over the readings of the cycle counter it makes until \<^verbatim>\<open>force_quit\<close> is set:
  the readings at which it calls \<^verbatim>\<open>rte_timer_manage\<close>.
\<close>

fun check_timer_expiration :: "u64 \<Rightarrow> u64 \<Rightarrow> u64 list \<Rightarrow> u64 list" where
  "check_timer_expiration resolution prev_tsc [] = []"
| "check_timer_expiration resolution prev_tsc (cur_tsc # tscs) =
     (if resolution < cur_tsc - prev_tsc
      then cur_tsc # check_timer_expiration resolution cur_tsc tscs
      else check_timer_expiration resolution prev_tsc tscs)"

text \<open>
  The sending loop: \<open>tx_burst\<close> stands for \<^verbatim>\<open>rte_eth_tx_burst\<close> on the device state \<open>'d\<close>.  The
  loop may run forever, so the model has fuel: \<open>None\<close> when it is used up.  The result is the
  device and the number of bursts made.
\<close>

fun send_batch ::
  "nat \<Rightarrow> ('d \<Rightarrow> mbuf list \<Rightarrow> u16 \<Rightarrow> 'd \<times> u16) \<Rightarrow> 'd \<Rightarrow> mbuf list \<Rightarrow> int \<Rightarrow> nat \<Rightarrow> ('d \<times> nat) option" where
  "send_batch 0 tx_burst dev mbufs count n = None"
| "send_batch (Suc fuel) tx_burst dev mbufs count n =
     (case tx_burst dev mbufs (word_of_int count) of (dev', nb_tx) \<Rightarrow>
        if uint nb_tx = count then send_batch fuel tx_burst dev' mbufs count (Suc n)
        else Some (dev', Suc n))"

text \<open>\<^verbatim>\<open>signal_handler\<close>: SIGINT (2) and SIGTERM (15) set \<^verbatim>\<open>force_quit\<close>.\<close>

definition signal_handler :: "int \<Rightarrow> bool \<Rightarrow> bool" where
  "signal_handler signum force_quit = (if signum = 2 \<or> signum = 15 then True else force_quit)"

section \<open>The multicast address\<close>

text \<open>RFC 1112, which the comment in the source cites: the destination MAC address built for an
  IPv4 multicast address is \<^verbatim>\<open>01-00-5E\<close> followed by the low-order 23 bits of the address.\<close>

theorem mcast_addr_rfc1112:
  "bytes_at 0 6 (as_addr (ETHER_ADDR_FOR_IPV4_MCAST x)) =
     [0x01, 0x00, 0x5e, ucast (drop_bit 16 x) AND 0x7f, ucast (drop_bit 8 x), ucast x]"
  by (simp add: bytes_at_def upt_rec as_addr_def ETHER_ADDR_FOR_IPV4_MCAST_def, intro conjI; rule byte_eqI;
      simp add: bswap64_def bswap32_def bswap16_def bit_simps)

section \<open>What a receiver reads of a crafted packet\<close>

lemma value_len_size_t: "unat (v :: u32) < 2 ^ 31 \<Longrightarrow> unat (scast v :: u64) = unat v"
  by (simp add: scast_nonneg unsigned_ucast_eq take_bit_nat_eq_self)

lemma value_len_of_nat: "unat (v :: u32) < 2 ^ 31 \<Longrightarrow> (scast v :: u64) = of_nat (unat v)"
  by (simp add: scast_nonneg)

lemma unat_ucast_of_nat:
  "k < 2 ^ LENGTH('b) \<Longrightarrow> k < 2 ^ 64 \<Longrightarrow> unat (ucast (of_nat k :: u64) :: 'b::len word) = k"
  by (simp add: unsigned_of_nat take_bit_nat_eq_self unsigned_ucast_eq)

lemma sent_hdr:
  assumes "unat (paxos_value_len (body_value (body pm))) < 2 ^ 31"
  shows "hdr_msgtype PXH (buf (add_paxos_message E pm pkt sport dport dst)) = ucast (mtype pm)"
    "hdr_body PXH (buf (add_paxos_message E pm pkt sport dport dst)) v = (body pm)\<lparr>body_value := v\<rparr>"
    "hdr_value_len PXH (buf (add_paxos_message E pm pkt sport dport dst)) = paxos_value_len (body_value (body pm))"
  using value_len_size_t[OF assms]
  by (simp_all add: add_paxos_message_def craft_new_packet_def Let_def hdr_defs mem_simps)

lemma sent_value:
  assumes "unat (paxos_value_len (body_value (body pm))) < 2 ^ 31" "i < unat (paxos_value_len (body_value (body pm)))"
  shows "buf (add_paxos_message E pm pkt sport dport dst) (PXH + px_paxosval + i) = paxos_value_val (body_value (body pm)) i"
  using assms(2) value_len_size_t[OF assms(1)]
  by (simp add: add_paxos_message_def craft_new_packet_def Let_def frame_simps) (simp add: memcpy_def)

lemma sent_value_bytes:
  assumes "unat (paxos_value_len (body_value (body pm))) < 2 ^ 31"
  shows "value_bytes (hdr_value PXH (buf (add_paxos_message E pm pkt sport dport dst))) = value_bytes (body_value (body pm))"
  using sent_hdr(3)[OF assms] sent_value[OF assms]
  by (simp add: value_bytes_def hdr_value_def bytes_at_def from_offset_def)

text \<open>An accept message for instance 7 with the three-byte value \<open>1 2 3\<close>.\<close>

definition example_message :: paxos_message where
  "example_message = \<lparr>mtype = 2, body = \<lparr>iid = 7, ballot = 1, value_ballot = 0, aid = 0,
     body_value = \<lparr>paxos_value_len = 3, paxos_value_val = (\<lambda>i. of_nat (i + 1))\<rparr>\<rparr>\<rparr>"

definition example_env :: rte_env where
  "example_env = \<lparr>macaddr = (\<lambda>_ i. of_nat i), ipv4_phdr_cksum = (\<lambda>_ _. 0xbeef),
     ipv6_phdr_cksum = (\<lambda>_ _. 0xfeed), rdtsc = 12345, PKT_TX_IPV4 = 4, PKT_TX_IP_CKSUM = 1,
     PKT_TX_UDP_CKSUM = 2, PTYPE_TUNNEL_MASK = 0xf000\<rparr>"

definition example_mbuf :: mbuf where
  "example_mbuf = \<lparr>buf = (\<lambda>_. 0xaa), data_len = 0, pkt_len = 0, l2_len = 0, l3_len = 0, l4_len = 0,
     ol_flags = 0, packet_type = 0, udata64 = 0\<rparr>"

definition example_sent :: mbuf where
  "example_sent = add_paxos_message example_env example_message example_mbuf PROPOSER_PORT ACCEPTOR_PORT ACCEPTOR_ADDR"

section \<open>Lengths and bounds\<close>

text \<open>The lengths a message is sent with agree: the IP total length, the UDP length and the buffer
  length are those of one datagram of 26 bytes and the value, as long as it fits an IP packet.\<close>

lemma add_paxos_message_lengths:
  assumes p: "p = add_paxos_message E pm pkt sport dport dst"
    and n: "n = unat (paxos_value_len (body_value (body pm)))"
    and fits: "n + 54 < 2 ^ 16"
  shows "unat (bswap16 (ld16 (IPH + ip_total_length) (buf p))) = n + 54
    \<and> unat (bswap16 (ld16 (UDPH + udp_dgram_len) (buf p))) = n + 34
    \<and> unat (pkt_len p) = n + 68 \<and> (n + 68 < 2 ^ 16 \<longrightarrow> unat (data_len p) = n + 68)"
proof -
  have len: "(scast (paxos_value_len (body_value (body pm))) :: u64) = of_nat n"
    using fits n by (simp add: value_len_of_nat)
  have "54 + of_nat n = (of_nat (n + 54) :: u64)" "34 + of_nat n = (of_nat (n + 34) :: u64)"
    "68 + of_nat n = (of_nat (n + 68) :: u64)"
    by simp_all
  then show ?thesis
    using fits
    by (simp add: p len add_paxos_message_def craft_new_packet_def Let_def mem_simps
        sizeof_paxos_message_def unat_ucast_of_nat add.assoc[symmetric] del: of_nat_add)
qed

text \<open>\<^verbatim>\<open>add_paxos_message\<close> writes nothing past the Paxos header and the value, at most
  58 bytes after the value starts being written; so the ten bytes that follow the value, which the
  packet length counts, are sent as they were in the buffer.\<close>

lemma add_paxos_message_frame:
  assumes p: "p = add_paxos_message E pm pkt sport dport dst"
    and n: "n = unat (paxos_value_len (body_value (body pm)))"
    and small: "n < 2 ^ 31" and i: "58 + n \<le> i"
  shows "buf p i = buf pkt i"
  using i value_len_size_t[OF small[unfolded n]]
  by (simp add: p n add_paxos_message_def craft_new_packet_def Let_def frame_simps)

text \<open>C9: What a Paxos node puts into a packet with \<^verbatim>\<open>add_paxos_message\<close> is what the receiving node reads out of it, for
  every value that fits the data room of a packet buffer: nothing is written past the data room, the lengths of the
  buffer, of the IP packet and of the datagram are those of the message, and a receiver that gets as many
  bytes as the packet length says, whatever lies behind them, reads the type, every field of the
  message, the length and the bytes of the value, in a packet that passes its protocol and port tests.\<close>

theorem add_paxos_message_roundtrip:
  assumes p: "p = add_paxos_message E pm pkt sport dport dst"
    and v: "v = body_value (body pm)" "n = unat (paxos_value_len v)"
    and fits: "n + 68 \<le> RTE_MBUF_DEFAULT_DATAROOM"
    and q: "received p q"
  shows "(\<forall>i \<ge> RTE_MBUF_DEFAULT_DATAROOM. buf p i = buf pkt i)
    \<and> unat (pkt_len p) = n + 68 \<and> unat (data_len p) = n + 68
    \<and> unat (bswap16 (ld16 (IPH + ip_total_length) (buf q))) = n + 54
    \<and> unat (bswap16 (ld16 (UDPH + udp_dgram_len) (buf q))) = n + 34
    \<and> hdr_msgtype PXH (buf q) = ucast (mtype pm)
    \<and> hdr_body PXH (buf q) v = body pm
    \<and> hdr_value_len PXH (buf q) = paxos_value_len v
    \<and> value_bytes (hdr_value PXH (buf q)) = value_bytes v
    \<and> buf q (IPH + ip_next_proto_id) = IPPROTO_UDP
    \<and> ld16 (UDPH + udp_dst_port) (buf q) = bswap16 dport
    \<and> ld32 (IPH + ip_dst_addr) (buf q) = bswap32 dst"
proof -
  have small: "unat (paxos_value_len (body_value (body pm))) < 2 ^ 31" "n < 2 ^ 31" "n + 68 < 2 ^ 16"
    using fits v by (auto simp: RTE_MBUF_DEFAULT_DATAROOM_def)
  have "n + 54 < 2 ^ 16" using small(3) by simp
  note len = add_paxos_message_lengths[OF p v(2)[unfolded v(1)] this]
  have same: "buf q i = buf p i" if "i < n + 68" for i using q that len by (auto simp: received_def)
  then have low: "\<forall>i < 68. buf q i = buf p i" by simp
  then have fields: "ld16 (IPH + ip_total_length) (buf q) = ld16 (IPH + ip_total_length) (buf p)"
    "ld16 (UDPH + udp_dgram_len) (buf q) = ld16 (UDPH + udp_dgram_len) (buf p)"
    "hdr_msgtype PXH (buf q) = hdr_msgtype PXH (buf p)" "hdr_body PXH (buf q) v = hdr_body PXH (buf p) v"
    "hdr_value_len PXH (buf q) = hdr_value_len PXH (buf p)" "buf q (IPH + ip_next_proto_id) = buf p (IPH + ip_next_proto_id)"
    "ld16 (UDPH + udp_dst_port) (buf q) = ld16 (UDPH + udp_dst_port) (buf p)"
    "ld32 (IPH + ip_dst_addr) (buf q) = ld32 (IPH + ip_dst_addr) (buf p)"
    by (simp_all add: hdr_defs ld16_def ld32_def)
  have out: "hdr_msgtype PXH (buf p) = ucast (mtype pm)" "hdr_body PXH (buf p) v = body pm"
    "hdr_value_len PXH (buf p) = paxos_value_len v" "value_bytes (hdr_value PXH (buf p)) = value_bytes v"
    unfolding p v(1) using sent_hdr[OF small(1)] sent_value_bytes[OF small(1)] by (simp_all only:) simp
  then have "value_bytes (hdr_value PXH (buf q)) = value_bytes v"
    using same fields(5) v(2) by (simp add: value_bytes_def hdr_value_def bytes_at_def from_offset_def)
  moreover have "ld16 (UDPH + udp_dst_port) (buf p) = bswap16 dport" "ld32 (IPH + ip_dst_addr) (buf p) = bswap32 dst"
    "buf p (IPH + ip_next_proto_id) = IPPROTO_UDP"
    by (simp_all add: p add_paxos_message_def craft_new_packet_def Let_def mem_simps)
  moreover have "buf p i = buf pkt i" if "RTE_MBUF_DEFAULT_DATAROOM \<le> i" for i
    using add_paxos_message_frame[OF p v(2)[unfolded v(1)] small(2), of i] fits that by simp
  ultimately show ?thesis
    unfolding fields out using len small(3) by blast
qed

theorem add_paxos_message_roundtrip_witness:
  "unat (pkt_len example_sent) = 71 \<and> hdr_msgtype PXH (buf example_sent) = 2
    \<and> value_bytes (hdr_value PXH (buf example_sent)) = [1, 2, 3]
    \<and> ld16 (UDPH + udp_dst_port) (buf example_sent) = bswap16 ACCEPTOR_PORT"
proof -
  have "received example_sent example_sent" by (simp add: received_def)
  from add_paxos_message_roundtrip[OF example_sent_def refl refl _ this] show ?thesis
    by (simp add: example_message_def RTE_MBUF_DEFAULT_DATAROOM_def)
      (simp add: value_bytes_def bytes_at_def upt_rec)
qed

text \<open>The value is copied into the packet buffer without a check of its length: of a value too long for the data room, every
  byte that does not fit is written into the memory behind it.\<close>

theorem add_paxos_message_overflow:
  assumes "v = body_value (body pm)" "unat (paxos_value_len v) < 2 ^ 31"
    and "RTE_MBUF_DEFAULT_DATAROOM \<le> i" "i < 58 + unat (paxos_value_len v)"
  shows "buf (add_paxos_message E pm pkt sport dport dst) i = paxos_value_val v (i - 58)"
proof -
  have i: "i = PXH + px_paxosval + (i - 58)" "i - 58 < unat (paxos_value_len v)"
    using assms(3,4) by (auto simp: RTE_MBUF_DEFAULT_DATAROOM_def)
  show ?thesis using sent_value[of pm "i - 58" E pkt sport dport dst] assms(1,2) i by simp
qed

theorem add_paxos_message_overflow_witness:
  "buf (add_paxos_message example_env
      (example_message\<lparr>body := (body example_message)\<lparr>body_value := \<lparr>paxos_value_len = 2000, paxos_value_val = (\<lambda>_. 7)\<rparr>\<rparr>\<rparr>)
      example_mbuf PROPOSER_PORT ACCEPTOR_PORT ACCEPTOR_ADDR) 2050 = 7"
  by (subst add_paxos_message_overflow[OF refl]) (simp_all add: RTE_MBUF_DEFAULT_DATAROOM_def)

text \<open>A packet with an 802.1Q tag inserted after its addresses.\<close>

definition vlan_tagged :: "u8 \<Rightarrow> u8 \<Rightarrow> mem \<Rightarrow> mem" where
  "vlan_tagged t1 t2 m = (\<lambda>i. if i < 12 then m i else if i = 12 then 0x81 else if i = 13 then 0
     else if i = 14 then t1 else if i = 15 then t2 else m (i - 4))"

text \<open>\<^verbatim>\<open>parse_ethernet\<close> recognises the packets \<^verbatim>\<open>craft_new_packet\<close> builds as IPv4 packets that carry
  UDP, untagged as they are built and behind one VLAN tag, with the offsets of the two cases.\<close>

theorem parse_ethernet_crafted:
  assumes m: "m = buf (craft_new_packet E pkt src dst sport dport data_size port)"
  shows "parse_ethernet m info = (info\<lparr>outer_l2_len := 14, outer_l3_len := 20\<rparr>, IPPROTO_UDP)
    \<and> parse_ethernet (vlan_tagged t1 t2 m) info = (info\<lparr>outer_l2_len := 18, outer_l3_len := 20\<rparr>, IPPROTO_UDP)"
proof -
  have et: "ld16 12 m = bswap16 ETHER_TYPE_IPv4" and proto: "m 23 = IPPROTO_UDP"
    by (simp_all add: m craft_new_packet_def Let_def mem_simps)
  moreover have "ld16 12 (vlan_tagged t1 t2 m) = bswap16 ETHER_TYPE_VLAN"
    by (simp add: ld16_def vlan_tagged_def bswap16_def)
  moreover have "ld16 16 (vlan_tagged t1 t2 m) = ld16 12 m" "vlan_tagged t1 t2 m 27 = m 23"
    by (simp_all add: ld16_def vlan_tagged_def)
  ultimately show ?thesis
    by (simp add: parse_ethernet_def Let_def)
qed

theorem parse_ethernet_crafted_witness:
  "snd (parse_ethernet (vlan_tagged 0 5 (buf (craft_new_packet example_env example_mbuf 1 2 3 4 10 0)))
     \<lparr>outer_l2_len = 0, outer_l3_len = 0\<rparr>) = 17"
  using parse_ethernet_crafted[OF refl, of example_env example_mbuf 1 2 3 4 10 0 _ 0 5] by simp

section \<open>The timer loop\<close>

text \<open>The timer loop runs the timers at readings of the cycle counter that are more than the
  resolution apart, and no reading is more than the resolution away from the last run before it
  (differences wrap as the counter does).\<close>

theorem check_timer_expiration_spacing:
  "successively (\<lambda>p c. resolution < c - p) (prev # check_timer_expiration resolution prev tscs)
   \<and> (\<forall>t \<in> set tscs. \<exists>c \<in> set (prev # check_timer_expiration resolution prev tscs). t - c \<le> resolution)"
proof (induction tscs arbitrary: prev)
  case (Cons t tscs)
  show ?case
    using Cons.IH[of t] Cons.IH[of prev] by (auto simp: not_less)
qed simp

theorem check_timer_expiration_spacing_witness:
  "check_timer_expiration 10 0 [5, 11, 15, 22, 30] = [11, 22]
   \<and> (\<exists>c \<in> set (0 # check_timer_expiration 10 0 [5, 11, 15, 22, 30]). 30 - c \<le> 10)"
  using check_timer_expiration_spacing[of 10 0 "[5, 11, 15, 22, 30]"] by simp

section \<open>The sending loop\<close>

text \<open>C30: \<^verbatim>\<open>send_batch\<close> returns exactly when some burst sends a number of packets other than the one
  asked for: each burst that sends the whole batch is followed by another one.\<close>

theorem send_batch_returns_iff:
  "(\<exists>fuel r. send_batch fuel tx dev mbufs count n = Some r) \<longleftrightarrow>
   (\<exists>k. uint (snd (tx (((\<lambda>d. fst (tx d mbufs (word_of_int count))) ^^ k) dev) mbufs (word_of_int count))) \<noteq> count)"
  (is "?returns dev n \<longleftrightarrow> (\<exists>k. ?short k dev)")
proof
  assume "?returns dev n"
  then obtain fuel r where "send_batch fuel tx dev mbufs count n = Some r" by blast
  then show "\<exists>k. ?short k dev"
  proof (induction fuel arbitrary: dev n)
    case (Suc fuel)
    show ?case
    proof (cases "?short 0 dev")
      case False
      then have "\<exists>k. ?short k (fst (tx dev mbufs (word_of_int count)))"
        using Suc.prems by (intro Suc.IH[of _ "Suc n"]) (simp split: prod.splits)
      then obtain k where "?short k (fst (tx dev mbufs (word_of_int count)))" by blast
      then have "?short (Suc k) dev" by (simp only: funpow_Suc_right comp_apply not_False_eq_True)
      then show ?thesis by blast
    qed blast
  qed simp
next
  assume "\<exists>k. ?short k dev"
  then obtain k where "?short k dev" by blast
  then show "?returns dev n"
  proof (induction k arbitrary: dev n)
    case 0
    then have "\<exists>r. send_batch 1 tx dev mbufs count n = Some r"
      by (auto split: prod.splits)
    then show ?case by blast
  next
    case (Suc k)
    then have "?short k (fst (tx dev mbufs (word_of_int count)))"
      by (simp only: funpow_Suc_right comp_apply not_False_eq_True)
    then obtain fuel r where "send_batch fuel tx (fst (tx dev mbufs (word_of_int count))) mbufs count (Suc n) = Some r"
      using Suc.IH by blast
    then have "\<exists>r. send_batch (Suc fuel) tx dev mbufs count n = Some r"
      by (auto split: prod.splits)
    then show ?case by blast
  qed
qed

section \<open>The latency counters\<close>

text \<open>The counters are below the threshold, and no cycles are counted without packets.\<close>

definition latency_ok :: "latency_numbers \<Rightarrow> bool" where
  "latency_ok ln \<longleftrightarrow> total_pkts ln < 1000 * 1000 \<and> (total_pkts ln = 0 \<longrightarrow> total_cycles ln = 0)"

lemma calc_latency_ok:
  assumes "latency_ok ln"
  shows "latency_ok (fst (calc_latency now pkts nb_pkts ln))"
proof -
  have "unat (total_pkts ln + ucast nb_pkts) = unat (total_pkts ln) + unat nb_pkts"
  proof -
    have "unat (total_pkts ln) < 1000000" using assms by (simp add: latency_ok_def word_less_nat_alt)
    moreover have "unat nb_pkts < 2 ^ 16" using unsigned_less[of nb_pkts] by simp
    ultimately show ?thesis by (simp add: unat_word_ariths unsigned_ucast_eq take_bit_nat_eq_self)
  qed
  then have "total_pkts ln + ucast nb_pkts = 0 \<longleftrightarrow> total_pkts ln = 0 \<and> nb_pkts = 0"
    by (metis add_is_0 unat_eq_zero)
  then show ?thesis
    using assms by (auto simp: calc_latency_def latency_ok_def Let_def sum_latency_def not_le)
qed

end
