(* ===== verification/Dpdk_Host.thy ===== *)
theory Dpdk_Host
  imports Rte_Paxos
begin

text \<open>
  What the main programs under \<^verbatim>\<open>dpdk/\<close> have in common around their packet handlers: the calls
  they make to DPDK while they start up, as a trace in a state monad whose return codes come from
  an environment; the transmit buffer; the counters; and option parsing.
\<close>

section \<open>Start-up as a trace of calls\<close>

text \<open>The calls, with the arguments that distinguish them.\<close>

datatype call =
  signal int | eal_init | log_level | dev_count | dev_info_get u8 | dev_configure u8 nat nat
| rx_queue_setup u8 nat | tx_queue_setup u8 nat | dev_start u8 | macaddr_get u8
| promiscuous_enable u8 | add_rx_callback u8 string | add_tx_callback u8 string
| timer_init string | timer_hz | pool_create string | zmalloc_tx_buffer | tx_buffer_init nat
| set_err_callback | next_lcore | timer_reset string string | remote_launch string
| timer_subsystem_init | paxos_new string | paxos_free string | leveldb_new | leveldb_free
| alloc_mbufs nat | lcore_loop u8

text \<open>
  An environment answers each call, given the calls made before it; a pointer result that is
  \<^verbatim>\<open>NULL\<close> is the answer 0.
\<close>

type_synonym api = "call list \<Rightarrow> call \<Rightarrow> int"
type_synonym 'a host = "(call list, 'a) state"

definition ask :: "api \<Rightarrow> call \<Rightarrow> int host" where
  "ask api c = State (\<lambda>log. (api log c, log @ [c]))"

definition calls :: "call list \<Rightarrow> unit host" where
  "calls cs = State (\<lambda>log. ((), log @ cs))"

text \<open>How a program ends: \<^verbatim>\<open>main\<close> returns, or \<^verbatim>\<open>rte_exit\<close> stops it with a message.\<close>

datatype outcome = Returned int | Exit_failure string

lemma run_ask [simp]: "run_state (ask api c) log = (api log c, log @ [c])"
  by (simp add: ask_def)

lemma run_calls [simp]: "run_state (calls cs) log = ((), log @ cs)"
  by (simp add: calls_def)

text \<open>A run of \<^verbatim>\<open>main\<close> that returns passes every check that would call \<^verbatim>\<open>rte_exit\<close>.\<close>

lemma guard_returned:
  "run_state (if b then State_Monad.return (Exit_failure e) else m) log = (Returned v, log')
    \<longleftrightarrow> \<not> b \<and> run_state m log = (Returned v, log')"
  by simp

definition is_callback :: "call \<Rightarrow> bool" where
  "is_callback c = (case c of add_rx_callback _ _ \<Rightarrow> True | add_tx_callback _ _ \<Rightarrow> True | _ \<Rightarrow> False)"

definition is_loop :: "call \<Rightarrow> bool" where
  "is_loop c = (case c of lcore_loop _ \<Rightarrow> True | _ \<Rightarrow> False)"

lemmas trace_simps = is_callback_def is_loop_def

text \<open>A trace without the packet loop, and a program all whose exits have such a trace.\<close>

definition quiet :: "call list \<Rightarrow> bool" where
  "quiet log \<longleftrightarrow> (\<forall>c \<in> set log. \<not> is_loop c)"

definition exits_early :: "outcome host \<Rightarrow> call list \<Rightarrow> bool" where
  "exits_early m log \<longleftrightarrow> (\<forall>e log'. run_state m log = (Exit_failure e, log') \<longrightarrow> quiet log')"

lemma quiet_simps [simp]:
  "quiet []" "quiet (c # log) \<longleftrightarrow> \<not> is_loop c \<and> quiet log" "quiet (log @ log') \<longleftrightarrow> quiet log \<and> quiet log'"
  by (auto simp: quiet_def)

lemma quiet_if: "quiet (if b then log else log') \<longleftrightarrow> (b \<longrightarrow> quiet log) \<and> (\<not> b \<longrightarrow> quiet log')"
  by simp

lemma exits_early_if: "exits_early (if b then m else m') log \<longleftrightarrow> (b \<longrightarrow> exits_early m log) \<and> (\<not> b \<longrightarrow> exits_early m' log)"
  by simp

lemma exits_early_simps [simp]:
  "exits_early (State_Monad.return (Exit_failure e)) log = quiet log"
  "exits_early (State_Monad.return (Returned v)) log"
  "exits_early (State_Monad.bind (ask api c) f) log = exits_early (f (api log c)) (log @ [c])"
  "exits_early (State_Monad.bind (calls cs) g) log = exits_early (g ()) (log @ cs)"
  by (simp_all add: exits_early_def)

text \<open>
  The contract of the \<^verbatim>\<open>port_init\<close> functions: they append to the trace, never enter the packet
  loop, and register the packet callbacks exactly when they report success, after the device has
  been started.
\<close>

locale port_initialiser =
  fixes init :: "api \<Rightarrow> u8 \<Rightarrow> int host" and callbacks :: "u8 \<Rightarrow> call list"
  assumes init_ok: "run_state (init api p) log = (0, log') \<Longrightarrow>
      \<exists>pre mid. log' = log @ pre @ [dev_start p] @ mid @ callbacks p
        \<and> (\<forall>c \<in> set (pre @ mid). \<not> is_callback c \<and> \<not> is_loop c)"
    and init_fail: "run_state (init api p) log = (r, log') \<Longrightarrow> r \<noteq> 0 \<Longrightarrow>
      \<exists>suf. log' = log @ suf \<and> (\<forall>c \<in> set suf. \<not> is_callback c \<and> \<not> is_loop c)"

begin

lemma init_fail_no_loop:
  assumes "run_state (init api p) log = (r, log')" "r \<noteq> 0" "\<forall>c \<in> set log. \<not> is_loop c"
  shows "\<forall>c \<in> set log'. \<not> is_loop c"
  using init_fail[OF assms(1,2)] assms(3) by auto

lemma exits_early_init:
  assumes "quiet log" "\<And>r log'. exits_early (m r) log'"
  shows "exits_early (State_Monad.bind (init api p) (\<lambda>r. if r \<noteq> 0 then State_Monad.return (Exit_failure e) else m r)) log"
  using assms init_fail_no_loop unfolding exits_early_def quiet_def
  by (auto split: prod.splits if_splits)

end

text \<open>A port is ready in a trace that started it and then registered its callbacks.\<close>

definition port_ready :: "u8 \<Rightarrow> call list \<Rightarrow> call list \<Rightarrow> bool" where
  "port_ready p cbs log \<longleftrightarrow> (\<exists>pre mid post. log = pre @ [dev_start p] @ mid @ cbs @ post
     \<and> (\<forall>c \<in> set (pre @ mid @ post). \<not> is_callback c))"

text \<open>
  The contract of a \<^verbatim>\<open>main\<close>: it returns normally only through the packet loop, which it enters
  after its \<^verbatim>\<open>port_init\<close> succeeded on port 0, and it never enters the loop when it exits.
\<close>

locale dpdk_program = port_initialiser init callbacks
  for init :: "api \<Rightarrow> u8 \<Rightarrow> int host" and callbacks +
  fixes main :: "api \<Rightarrow> outcome host"
  assumes main_returns: "run_state (main api) [] = (Returned v, log) \<Longrightarrow>
      \<exists>l0 l1 mid post. run_state (init api 0) l0 = (0, l1) \<and> log = l1 @ mid @ [lcore_loop 0] @ post
        \<and> (\<forall>c \<in> set (l0 @ mid @ post). \<not> is_callback c \<and> \<not> is_loop c)"
    and main_exits: "run_state (main api) [] = (Exit_failure msg, log) \<Longrightarrow> \<forall>c \<in> set log. \<not> is_loop c"
begin

lemma loop_only_when_ready:
  assumes "run_state (main api) [] = (r, log)" "lcore_loop 0 \<in> set log"
  shows "\<exists>a b. log = a @ [lcore_loop 0] @ b \<and> port_ready 0 (callbacks 0) a"
proof (cases r)
  case (Returned v)
  then obtain l0 l1 mid post where l1: "run_state (init api 0) l0 = (0, l1)"
    and log: "log = l1 @ mid @ [lcore_loop 0] @ post"
    and none: "\<forall>c \<in> set (l0 @ mid @ post). \<not> is_callback c \<and> \<not> is_loop c"
    using main_returns assms(1) by metis
  from init_ok[OF l1] obtain pre m where pm: "l1 = l0 @ pre @ [dev_start 0] @ m @ callbacks 0"
      "\<forall>c \<in> set (pre @ m). \<not> is_callback c \<and> \<not> is_loop c" by blast
  have "port_ready 0 (callbacks 0) (l1 @ mid)"
    unfolding port_ready_def using pm none
    by (intro exI[of _ "l0 @ pre"] exI[of _ m] exI[of _ mid]) auto
  then show ?thesis using log by (intro exI[of _ "l1 @ mid"] exI[of _ post]) simp
next
  case (Exit_failure msg)
  then show ?thesis using main_exits assms by (fastforce simp: is_loop_def)
qed

end

section \<open>The transmit buffer\<close>

text \<open>
  \<^verbatim>\<open>rte_eth_tx_buffer\<close> and \<^verbatim>\<open>rte_eth_tx_buffer_flush\<close> on the state \<open>'d\<close> of buffer and device; both
  return the number of packets the device took.
\<close>

record 'd tx_api =
  tx_buffer :: "'d \<Rightarrow> mbuf \<Rightarrow> 'd \<times> u16"
  tx_buffer_flush :: "'d \<Rightarrow> 'd \<times> u16"

text \<open>
  What DPDK documents of the two calls: a packet given to the buffer waits there until it is sent
  or, when the device does not take it, dropped.  \<open>held\<close> counts the packets that wait or were
  dropped.
\<close>

definition tx_api_ok :: "('d \<Rightarrow> nat) \<Rightarrow> 'd tx_api \<Rightarrow> bool" where
  "tx_api_ok held T \<longleftrightarrow>
     (\<forall>d p. held (fst (tx_buffer T d p)) + unat (snd (tx_buffer T d p)) = held d + 1)
     \<and> (\<forall>d. held (fst (tx_buffer_flush T d)) + unat (snd (tx_buffer_flush T d)) = held d)"

lemma tx_buffer_held:
  assumes "tx_api_ok held T" "tx_buffer T d p = (d', n)"
  shows "of_nat (held d') + ucast n = (of_nat (held d) + 1 :: u32)"
proof -
  have "held d' + unat n = held d + 1" using assms unfolding tx_api_ok_def by (metis fst_conv snd_conv)
  then have "(of_nat (held d' + unat n) :: u32) = of_nat (held d + 1)" by (rule arg_cong)
  then show ?thesis by simp
qed

lemma tx_flush_held:
  assumes "tx_api_ok held T" "tx_buffer_flush T d = (d', n)"
  shows "of_nat (held d') + ucast n = (of_nat (held d) :: u32)"
proof -
  have "held d' + unat n = held d" using assms unfolding tx_api_ok_def by (metis fst_conv snd_conv)
  then have "(of_nat (held d' + unat n) :: u32) = of_nat (held d)" by (rule arg_cong)
  then show ?thesis by simp
qed

text \<open>
  A buffer of this kind, of which only the number of waiting packets is kept: it sends a burst of
  32 when it is full, up to the 65535 packets one call can report.
\<close>

definition counting_buffer :: "nat tx_api" where
  "counting_buffer = \<lparr>
     tx_buffer = (\<lambda>d pkt. if 31 \<le> d \<and> d < 65535 then (0, of_nat (d + 1)) else (d + 1, 0)),
     tx_buffer_flush = (\<lambda>d. if d < 65536 then (0, of_nat d) else (d, 0))\<rparr>"

lemma counting_buffer_ok: "tx_api_ok id counting_buffer"
  by (simp add: tx_api_ok_def counting_buffer_def unat_of_nat del: of_nat_add of_nat_Suc)

section \<open>Option parsing\<close>

text \<open>
  \<^verbatim>\<open>getopt\<close> is the C library's: its results are the input, option letters with their arguments.
  \<^verbatim>\<open>atoi\<close> reads an optional sign and the digits that follow, after white space.
\<close>

type_synonym getopt = "(char \<times> string) list"

definition is_digit :: "char \<Rightarrow> bool" where
  "is_digit c \<longleftrightarrow> (48 \<le> (of_char c :: nat) \<and> (of_char c :: nat) \<le> 57)"

definition digits :: "string \<Rightarrow> int" where
  "digits s = foldl (\<lambda>n c. 10 * n + (of_char c - 48)) 0 (takeWhile is_digit s)"

fun atoi :: "string \<Rightarrow> int" where
  "atoi [] = 0"
| "atoi (c # s) = (if c = CHR '' '' \<or> 9 \<le> (of_char c :: nat) \<and> (of_char c :: nat) \<le> 13 then atoi s
     else if c = CHR ''-'' then - digits s
     else if c = CHR ''+'' then digits s
     else digits (c # s))"

text \<open>A failed parse stops the program with the message.\<close>

type_synonym 'a parsed = "string + 'a"

end
