(* ===== verification/Dpdk_Acceptor.thy ===== *)
theory Dpdk_Acceptor
  imports Dpdk_Host
begin

text \<open>
  \<^verbatim>\<open>dpdk/acceptor\<close>: the acceptor process.  It receives a packet, hands the Paxos message in it to
  the acceptor of libpaxos, writes the answer over the message and sends the same buffer on to
  the learners.  libpaxos is not in the repository (a binary library): its two operations are
  arguments.
\<close>

section \<open>The packet handler\<close>

text \<open>libpaxos's acceptor on its state \<open>'a\<close>: the return value and the message it writes.\<close>

record 'a acceptor_api =
  acceptor_receive_prepare :: "'a \<Rightarrow> paxos_prepare \<Rightarrow> 'a \<times> int \<times> paxos_message"
  acceptor_receive_accept :: "'a \<Rightarrow> paxos_accept \<Rightarrow> 'a \<times> int \<times> paxos_message"

text \<open>The first switch: what the acceptor of libpaxos makes of the message.\<close>

definition paxos_dispatch ::
  "'a acceptor_api \<Rightarrow> mem \<Rightarrow> 'a \<Rightarrow> 'a \<times> int \<times> paxos_message option" where
  "paxos_dispatch L m acceptor =
    (let msgtype = unat (hdr_msgtype PXH m) in
     if msgtype = msg_code PAXOS_PREPARE then
       (case acceptor_receive_prepare L acceptor (hdr_body PXH m NULL_value) of
          (acceptor, ret, out) \<Rightarrow> (acceptor, ret, Some out))
     else if msgtype = msg_code PAXOS_ACCEPT then
       (case acceptor_receive_accept L acceptor (hdr_body PXH m (hdr_value PXH m)) of
          (acceptor, ret, out) \<Rightarrow> (acceptor, ret, Some out))
     else (acceptor, 0, None))"

text \<open>The second switch: the answer is written over the request; \<open>dlen\<close>, the \<^verbatim>\<open>data_len\<close> of the source, is a \<^verbatim>\<open>size_t\<close>.\<close>

definition write_reply :: "paxos_message \<Rightarrow> mem \<Rightarrow> mem \<times> u64" where
  "write_reply out m =
    (let b = body out; v = body_value b;
         m = st16 (PXH + px_msgtype) (bswap16 (ucast (mtype out))) m;
         dlen = of_nat sizeof_paxos_hdr;
         vlen = scast (paxos_value_len v) :: u64
     in if unat (mtype out) = msg_code PAXOS_PROMISE then
          (let m = st32 (PXH + px_inst) (bswap32 (iid b)) m;
               m = st16 (PXH + px_rnd) (bswap16 (ballot b)) m;
               m = st16 (PXH + px_vrnd) (bswap16 (value_ballot b)) m;
               m = st16 (PXH + px_acptid) (bswap16 (aid b)) m;
               m = st32 (PXH + px_value_len) (bswap32 (paxos_value_len v)) m;
               m = (if paxos_value_len v \<noteq> 0
                    then memcpy (PXH + px_paxosval) (paxos_value_val v) 0 (unat vlen) m else m)
           in (m, dlen + vlen))
        else if unat (mtype out) = msg_code PAXOS_ACCEPTED then
          (st16 (PXH + px_acptid) (bswap16 (aid b)) m, dlen + vlen)
        else if unat (mtype out) = msg_code PAXOS_PREEMPTED then
          (let m = st16 (PXH + px_rnd) (bswap16 (ballot b)) m;
               m = st16 (PXH + px_vrnd) (bswap16 (value_ballot b)) m;
               m = st16 (PXH + px_acptid) (bswap16 (aid b)) m
           in (m, dlen + vlen))
        else (m, dlen))"

text \<open>
  The whole handler: the packet after the call, the acceptor and the return value.  The message
  \<^verbatim>\<open>out\<close> is only read when libpaxos returned 1.
\<close>

definition paxos_rx_process ::
  "rte_env \<Rightarrow> 'a acceptor_api \<Rightarrow> mbuf \<Rightarrow> 'a \<Rightarrow> mbuf \<times> 'a \<times> int" where
  "paxos_rx_process E L pkt acceptor =
    (let m = buf pkt in
     if m (IPH + ip_next_proto_id) \<noteq> IPPROTO_UDP then (pkt, acceptor, -1)
     else if ld16 (UDPH + udp_dst_port) m \<noteq> bswap16 ACCEPTOR_PORT
       \<and> packet_type pkt AND PTYPE_TUNNEL_MASK E = 0 then (pkt, acceptor, -1)
     else (case paxos_dispatch L m acceptor of (acceptor, ret, out) \<Rightarrow>
       (case out of
         None \<Rightarrow> (pkt, acceptor, -1)
       | Some out \<Rightarrow>
         if ret \<noteq> 1 then (pkt, acceptor, -1)
         else (case write_reply out m of (m, dlen) \<Rightarrow>
           let m = memcpy eth_d_addr (as_addr (ETHER_ADDR_FOR_IPV4_MCAST LEARNER_ADDR)) 0 6 m;
                m = st32 (IPH + ip_dst_addr) (bswap32 LEARNER_ADDR) m;
                m = st16 (IPH + ip_hdr_checksum) 0 m;
                flags = tx_offload E;
                m = st16 (UDPH + udp_src_port) (bswap16 ACCEPTOR_PORT) m;
                m = st16 (UDPH + udp_dst_port) (bswap16 LEARNER_PORT) m;
                m = st16 (UDPH + udp_dgram_cksum)
                      (get_psd_sum E (from_offset IPH m) ETHER_TYPE_IPv4 flags) m
            in (pkt\<lparr>buf := m, l2_len := of_nat sizeof_ether_hdr, l3_len := of_nat sizeof_ipv4_hdr,
                    l4_len := ucast (bswap16 (ucast (of_nat sizeof_udp_hdr + dlen))),
                    ol_flags := flags\<rparr>, acceptor, 0)))))"

section \<open>Bursts, statistics and the packet loop\<close>

text \<open>
  The state of the process: libpaxos's acceptor, the transmit buffer, the counters, and the
  packets given back to the memory pool so far.
\<close>

record ('a, 'd) acceptor_proc =
  acceptor :: 'a
  dev :: 'd
  tx_counter :: u32
  rx_counter :: u32
  dropped :: u32
  latency :: latency_numbers
  freed :: "mbuf list"

text \<open>One round of the loop of \<^verbatim>\<open>add_timestamps\<close>.\<close>

definition rx_packet ::
  "rte_env \<Rightarrow> 'a acceptor_api \<Rightarrow> 'd tx_api \<Rightarrow> u64 \<Rightarrow> mbuf \<Rightarrow> ('a, 'd) acceptor_proc \<Rightarrow> ('a, 'd) acceptor_proc" where
  "rx_packet E L T now pkt s =
    (case paxos_rx_process E L (pkt\<lparr>udata64 := now\<rparr>) (acceptor s) of (pkt, a, ret) \<Rightarrow>
      if ret < 0 then s\<lparr>acceptor := a, freed := freed s @ [pkt]\<rparr>
      else (case tx_buffer T (dev s) pkt of (d, nb_tx) \<Rightarrow>
        s\<lparr>acceptor := a, dev := d,
          tx_counter := (if nb_tx \<noteq> 0 then tx_counter s + ucast nb_tx else tx_counter s)\<rparr>))"

definition add_timestamps ::
  "rte_env \<Rightarrow> 'a acceptor_api \<Rightarrow> 'd tx_api \<Rightarrow> u64 \<Rightarrow> mbuf list \<Rightarrow> ('a, 'd) acceptor_proc \<Rightarrow> ('a, 'd) acceptor_proc" where
  "add_timestamps E L T now pkts s = fold (rx_packet E L T now) pkts s"

text \<open>\<^verbatim>\<open>report_stat\<close>: the average it prints, \<open>None\<close> for the division by zero, and the reset.\<close>

definition report_stat :: "('a, 'd) acceptor_proc \<Rightarrow> (u32 \<times> u32 \<times> u32 \<times> u64 option) \<times> ('a, 'd) acceptor_proc" where
  "report_stat s =
    (let ln = latency s;
         avg_cycles = (if 0 < total_cycles ln
           then if total_pkts ln = 0 then None else Some (total_cycles ln div total_pkts ln)
           else Some 0)
     in ((tx_counter s, rx_counter s, dropped s, avg_cycles),
         s\<lparr>tx_counter := 0, rx_counter := 0, latency := \<lparr>total_cycles = 0, total_pkts = 0\<rparr>, dropped := 0\<rparr>))"

definition drain_tsc :: "u64 \<Rightarrow> u64" where
  "drain_tsc hz = (hz + 1000000000 - 1) div 1000000000 * 100"

text \<open>
  The loop until \<^verbatim>\<open>force_quit\<close>: each round reads the cycle counter and receives a burst, which
  the receive callback \<^verbatim>\<open>add_timestamps\<close> handles inside \<^verbatim>\<open>rte_eth_rx_burst\<close>; a round is the
  reading, the reading the callback makes and the packets of the burst.
\<close>

fun lcore_main ::
  "rte_env \<Rightarrow> 'a acceptor_api \<Rightarrow> 'd tx_api \<Rightarrow> u64 \<Rightarrow> u64 \<Rightarrow> (u64 \<times> u64 \<times> mbuf list) list
    \<Rightarrow> ('a, 'd) acceptor_proc \<Rightarrow> ('a, 'd) acceptor_proc" where
  "lcore_main E L T drain prev_tsc [] s = s"
| "lcore_main E L T drain prev_tsc ((cur_tsc, now, burst) # rounds) s =
    (let s = (if drain < cur_tsc - prev_tsc
              then case tx_buffer_flush T (dev s) of (d, nb_tx) \<Rightarrow>
                s\<lparr>dev := d, tx_counter := tx_counter s + ucast nb_tx\<rparr>
              else s);
         s = add_timestamps E L T now burst s;
         s = (if burst = [] then s else s\<lparr>rx_counter := rx_counter s + of_nat (length burst)\<rparr>)
     in lcore_main E L T drain cur_tsc rounds s)"

section \<open>Start-up\<close>

definition port_init :: "api \<Rightarrow> u8 \<Rightarrow> int host" where
  "port_init api port = do {
     calls [dev_info_get port];
     n \<leftarrow> ask api dev_count;
     if uint port \<ge> n then State_Monad.return (-1)
     else do {
       retval \<leftarrow> ask api (dev_configure port 1 1);
       if retval \<noteq> 0 then State_Monad.return retval
       else do {
         retval \<leftarrow> ask api (rx_queue_setup port 0);
         if retval < 0 then State_Monad.return retval
         else do {
           retval \<leftarrow> ask api (tx_queue_setup port 0);
           if retval < 0 then State_Monad.return retval
           else do {
             retval \<leftarrow> ask api (dev_start port);
             if retval < 0 then State_Monad.return retval
             else do {
               calls [promiscuous_enable port];
               calls [add_rx_callback port ''add_timestamps'', add_tx_callback port ''calc_latency''];
               State_Monad.return 0
             }
           }
         }
       }
     }
   }"

definition callbacks :: "u8 \<Rightarrow> call list" where
  "callbacks port = [add_rx_callback port ''add_timestamps'', add_tx_callback port ''calc_latency'']"

text \<open>\<^verbatim>\<open>parse_args\<close>: the acceptor's id.\<close>

fun parse_opts :: "getopt \<Rightarrow> int \<Rightarrow> int parsed" where
  "parse_opts [] acceptor_id = Inr acceptor_id"
| "parse_opts ((opt, optarg) # opts) acceptor_id =
    (if opt = CHR ''i'' then parse_opts opts (atoi optarg) else Inl ''Invalid option specified'')"

definition parse_args :: "getopt \<Rightarrow> int parsed" where
  "parse_args opts = (case parse_opts opts 0 of
     Inl e \<Rightarrow> Inl e
   | Inr acceptor_id \<Rightarrow> if acceptor_id < 0 then Inl ''acceptor_id is invalid'' else Inr acceptor_id)"

definition main :: "getopt \<Rightarrow> api \<Rightarrow> outcome host" where
  "main opts api = do {
     calls [signal 15, signal 2];
     ret \<leftarrow> ask api eal_init;
     if ret < 0 then State_Monad.return (Exit_failure ''Error with EAL initialization'')
     else case parse_args opts of Inl e \<Rightarrow> State_Monad.return (Exit_failure e) | Inr acceptor_id \<Rightarrow> do {
       calls [timer_init ''timer'', timer_hz];
       mbuf_pool \<leftarrow> ask api (pool_create ''MBUF_POOL'');
       if mbuf_pool = 0 then State_Monad.return (Exit_failure ''Cannot create mbuf_pool'')
       else do {
         tx_buffer \<leftarrow> ask api zmalloc_tx_buffer;
         if tx_buffer = 0 then State_Monad.return (Exit_failure ''Cannot allocate buffer for tx'')
         else do {
           calls [tx_buffer_init BURST_SIZE];
           ret \<leftarrow> ask api set_err_callback;
           if ret < 0 then State_Monad.return (Exit_failure ''Cannot set error callback'')
           else do {
             calls [paxos_new ''acceptor''];
             r \<leftarrow> port_init api 0;
             if r \<noteq> 0 then State_Monad.return (Exit_failure ''Cannot init port'')
             else do {
               calls [next_lcore, timer_reset ''timer'' ''report_stat'',
                      remote_launch ''check_timer_expiration'', timer_subsystem_init];
               calls [lcore_loop 0];
               calls [paxos_free ''acceptor''];
               State_Monad.return (Returned 0)
             }
           }
         }
       }
     }
   }"


section \<open>The answers\<close>

text \<open>The packets the handler looks into.\<close>

definition for_acceptor :: "rte_env \<Rightarrow> mbuf \<Rightarrow> bool" where
  "for_acceptor E pkt \<longleftrightarrow> buf pkt (IPH + ip_next_proto_id) = IPPROTO_UDP \<and>
     (ld16 (UDPH + udp_dst_port) (buf pkt) = bswap16 ACCEPTOR_PORT
      \<or> packet_type pkt AND PTYPE_TUNNEL_MASK E \<noteq> 0)"

text \<open>A packet of the acceptor on its way to the learners' group.\<close>

definition sent_to_learners :: "mbuf \<Rightarrow> bool" where
  "sent_to_learners pkt \<longleftrightarrow>
     ld16 (UDPH + udp_src_port) (buf pkt) = bswap16 ACCEPTOR_PORT
     \<and> ld16 (UDPH + udp_dst_port) (buf pkt) = bswap16 LEARNER_PORT
     \<and> ld32 (IPH + ip_dst_addr) (buf pkt) = bswap32 LEARNER_ADDR
     \<and> bytes_at eth_d_addr 6 (buf pkt) = bytes_at 0 6 (as_addr (ETHER_ADDR_FOR_IPV4_MCAST LEARNER_ADDR))"

text \<open>The three lengths a packet is sent with: of the buffer, of the IP packet, of the datagram.\<close>

definition wire_lengths :: "mbuf \<Rightarrow> u32 \<times> u16 \<times> u16 \<times> u16" where
  "wire_lengths pkt = (pkt_len pkt, data_len pkt, ld16 (IPH + ip_total_length) (buf pkt),
     ld16 (UDPH + udp_dgram_len) (buf pkt))"

lemma write_reply_frame: "i < PXH \<Longrightarrow> fst (write_reply out m) i = m i"
  by (simp add: write_reply_def Let_def frame_simps)

lemma write_reply_ld16: "a + 2 \<le> PXH \<Longrightarrow> ld16 a (fst (write_reply out m)) = ld16 a m"
  by (simp add: ld16_def write_reply_frame)

lemma rx_process_reply:
  assumes "for_acceptor E pkt" "paxos_dispatch L (buf pkt) a = (a', 1, Some out)"
  obtains pkt' where "paxos_rx_process E L pkt a = (pkt', a', 0)" "sent_to_learners pkt'"
    "\<And>i. PXH \<le> i \<Longrightarrow> buf pkt' i = fst (write_reply out (buf pkt)) i"
    "wire_lengths pkt' = wire_lengths pkt"
proof -
  obtain m dl where w: "write_reply out (buf pkt) = (m, dl)" by fastforce
  have "ld16 16 m = ld16 16 (buf pkt)" "ld16 38 m = ld16 38 (buf pkt)"
    using write_reply_ld16[of _ out "buf pkt"] by (simp_all add: w)
  then show thesis
    using assms w
    by (intro that[of "fst (paxos_rx_process E L pkt a)"])
      (auto simp: paxos_rx_process_def for_acceptor_def sent_to_learners_def wire_lengths_def Let_def
        mem_simps split: prod.splits)
qed

lemma rx_process_proto [simplified]:
  "buf (fst (paxos_rx_process E L pkt a)) (IPH + ip_next_proto_id) = buf pkt (IPH + ip_next_proto_id)"
  by (simp add: paxos_rx_process_def Let_def mem_simps frame_simps write_reply_frame split: prod.split option.split)
    (auto dest!: arg_cong[where f = fst] simp: write_reply_frame)

lemma rx_process_rejects:
  assumes "\<not> (for_acceptor E pkt \<and> fst (snd (paxos_dispatch L (buf pkt) a)) = 1)"
  shows "fst (paxos_rx_process E L pkt a) = pkt"
  using assms by (auto simp: paxos_rx_process_def for_acceptor_def Let_def split: prod.splits option.splits)

text \<open>What a promise carries.\<close>

lemma promise_packet:
  assumes "for_acceptor E pkt" "paxos_dispatch L (buf pkt) a = (a', 1, Some out)"
    and "unat (mtype out) = msg_code PAXOS_PROMISE"
    and "unat (paxos_value_len (body_value (body out))) < 2 ^ 31"
  shows "\<exists>pkt'. paxos_rx_process E L pkt a = (pkt', a', 0) \<and> sent_to_learners pkt'
    \<and> unat (hdr_msgtype PXH (buf pkt')) = msg_code PAXOS_PROMISE
    \<and> hdr_body PXH (buf pkt') (body_value (body out)) = body out
    \<and> value_bytes (hdr_value PXH (buf pkt')) = value_bytes (body_value (body out))"
proof -
  obtain pkt' where p: "paxos_rx_process E L pkt a = (pkt', a', 0)" "sent_to_learners pkt'"
    and m: "\<And>i. PXH \<le> i \<Longrightarrow> buf pkt' i = fst (write_reply out (buf pkt)) i"
    using rx_process_reply[OF assms(1,2)] by metis
  have "mtype out = 1" using assms(3) by (simp add: word_unat_eq_iff)
  then show ?thesis
    using p value_len_size_t[OF assms(4)]
    by (intro exI[of _ pkt'])
      (simp add: hdr_cong[OF m], simp add: write_reply_def Let_def hdr_defs value_bytes_def mem_simps)
qed

text \<open>The promise the learner side reads out of the acceptor's answer is the one libpaxos's
  acceptor gave: instance, ballots, acceptor id, and the accepted value with its length; and the
  packet goes to the learners.\<close>

theorem promise_reply:
  assumes "for_acceptor E pkt" "paxos_dispatch L (buf pkt) a = (a', 1, Some out)"
    and "unat (mtype out) = msg_code PAXOS_PROMISE"
    and "unat (paxos_value_len (body_value (body out))) < 2 ^ 31"
  shows "\<exists>pkt'. paxos_rx_process E L pkt a = (pkt', a', 0) \<and> sent_to_learners pkt'
    \<and> unat (hdr_msgtype PXH (buf pkt')) = msg_code PAXOS_PROMISE
    \<and> hdr_body PXH (buf pkt') (body_value (body out)) = body out
    \<and> value_bytes (hdr_value PXH (buf pkt')) = value_bytes (body_value (body out))"
  using assms by (rule promise_packet)

text \<open>What an accepted answer keeps of the request.\<close>

lemma accepted_packet:
  assumes "for_acceptor E pkt" "paxos_dispatch L (buf pkt) a = (a', 1, Some out)"
    and "unat (mtype out) = msg_code PAXOS_ACCEPTED"
  shows "\<exists>pkt'. paxos_rx_process E L pkt a = (pkt', a', 0) \<and> sent_to_learners pkt'
    \<and> unat (hdr_msgtype PXH (buf pkt')) = msg_code PAXOS_ACCEPTED
    \<and> hdr_body PXH (buf pkt') v = (hdr_body PXH (buf pkt) v)\<lparr>aid := aid (body out)\<rparr>
    \<and> value_bytes (hdr_value PXH (buf pkt')) = value_bytes (hdr_value PXH (buf pkt))"
proof -
  obtain pkt' where p: "paxos_rx_process E L pkt a = (pkt', a', 0)" "sent_to_learners pkt'"
    and m: "\<And>i. PXH \<le> i \<Longrightarrow> buf pkt' i = fst (write_reply out (buf pkt)) i"
    using rx_process_reply[OF assms(1,2)] by metis
  have "mtype out = 3" using assms(3) by (simp add: word_unat_eq_iff)
  then show ?thesis
    using p
    by (intro exI[of _ pkt'])
      (simp add: hdr_cong[OF m], simp add: write_reply_def Let_def hdr_defs value_bytes_def mem_simps)
qed

text \<open>An accepted answer carries the request's instance, ballot and value on to the learners with
  the id of the acceptor: where libpaxos's answer echoes those fields of the request, the
  learners read its answer, except that the value ballot is the request's.\<close>

theorem accepted_reply:
  assumes "for_acceptor E pkt" "paxos_dispatch L (buf pkt) a = (a', 1, Some out)"
    and "unat (mtype out) = msg_code PAXOS_ACCEPTED"
  shows "\<exists>pkt'. paxos_rx_process E L pkt a = (pkt', a', 0) \<and> sent_to_learners pkt'
    \<and> unat (hdr_msgtype PXH (buf pkt')) = msg_code PAXOS_ACCEPTED
    \<and> hdr_body PXH (buf pkt') v = (hdr_body PXH (buf pkt) v)\<lparr>aid := aid (body out)\<rparr>
    \<and> value_bytes (hdr_value PXH (buf pkt')) = value_bytes (hdr_value PXH (buf pkt))"
  using assms by (rule accepted_packet)

text \<open>A preempted answer tells the ballot that preempted the request, for the request's instance.\<close>

theorem preempted_reply:
  assumes "for_acceptor E pkt" "paxos_dispatch L (buf pkt) a = (a', 1, Some out)"
    and "unat (mtype out) = msg_code PAXOS_PREEMPTED"
  shows "\<exists>pkt'. paxos_rx_process E L pkt a = (pkt', a', 0) \<and> sent_to_learners pkt'
    \<and> unat (hdr_msgtype PXH (buf pkt')) = msg_code PAXOS_PREEMPTED
    \<and> hdr_body PXH (buf pkt') v = (body out)\<lparr>iid := iid (hdr_body PXH (buf pkt) v), body_value := v\<rparr>"
proof -
  obtain pkt' where p: "paxos_rx_process E L pkt a = (pkt', a', 0)" "sent_to_learners pkt'"
    and m: "\<And>i. PXH \<le> i \<Longrightarrow> buf pkt' i = fst (write_reply out (buf pkt)) i"
    using rx_process_reply[OF assms(1,2)] by metis
  have "mtype out = 4" using assms(3) by (simp add: word_unat_eq_iff)
  then show ?thesis
    using p
    by (intro exI[of _ pkt'])
      (simp add: hdr_cong[OF m], simp add: write_reply_def Let_def hdr_defs mem_simps)
qed

text \<open>C25: The acceptor answers exactly the prepare and accept messages addressed to it that libpaxos
  answers; every other packet comes back unchanged with \<^verbatim>\<open>-1\<close>, and one that carries no such
  message leaves libpaxos's acceptor as it was.\<close>

theorem answers_iff:
  "case paxos_rx_process E L pkt a of (pkt', a', ret) \<Rightarrow>
     ret = (if for_acceptor E pkt \<and> fst (snd (paxos_dispatch L (buf pkt) a)) = 1 then 0 else -1)
     \<and> (ret = -1 \<longrightarrow> pkt' = pkt)
     \<and> (\<not> for_acceptor E pkt \<or> unat (hdr_msgtype PXH (buf pkt)) \<notin> {msg_code PAXOS_PREPARE, msg_code PAXOS_ACCEPT}
         \<longrightarrow> ret = -1 \<and> a' = a)"
  by (auto simp: paxos_rx_process_def paxos_dispatch_def for_acceptor_def Let_def split: prod.splits)

text \<open>Answering never changes the lengths the packet is sent with, whatever the length of the value
  in the answer: a promise whose value is longer than the prepare's packet is cut off on the wire.\<close>

theorem reply_lengths_kept:
  "wire_lengths (fst (paxos_rx_process E L pkt a)) = wire_lengths pkt"
proof (cases "for_acceptor E pkt \<and> fst (snd (paxos_dispatch L (buf pkt) a)) = 1")
  case True
  then obtain a' out where "paxos_dispatch L (buf pkt) a = (a', 1, Some out)"
    by (auto simp: paxos_dispatch_def Let_def split: prod.splits if_splits)
  then show ?thesis using True rx_process_reply by (metis fst_conv)
next
  case False
  then show ?thesis using rx_process_rejects by metis
qed


text \<open>
  A concrete acceptor of the shape libpaxos's has: it promises every prepare, naming the value 9 of
  ballot 1 it accepted, accepts the even instances and says it is preempted by ballot 8 at the odd ones.
\<close>

definition example_acceptor :: "nat acceptor_api" where
  "example_acceptor = \<lparr>
     acceptor_receive_prepare = (\<lambda>a p. (a + 1, 1, \<lparr>mtype = 1, body = p\<lparr>value_ballot := 1, aid := 3,
        body_value := \<lparr>paxos_value_len = 1, paxos_value_val = (\<lambda>_. 9)\<rparr>\<rparr>\<rparr>)),
     acceptor_receive_accept = (\<lambda>a p. if even (iid p) then (a + 1, 1, \<lparr>mtype = 3, body = p\<lparr>aid := 3\<rparr>\<rparr>)
        else (a, 1, \<lparr>mtype = 4, body = p\<lparr>ballot := 8, aid := 3\<rparr>\<rparr>))\<rparr>"

definition example_request :: "u32 \<Rightarrow> u32 \<Rightarrow> mbuf" where
  "example_request t i = add_paxos_message example_env
     (example_message\<lparr>mtype := t, body := (body example_message)\<lparr>iid := i\<rparr>\<rparr>) example_mbuf
     PROPOSER_PORT ACCEPTOR_PORT ACCEPTOR_ADDR"

lemma example_request_hdr:
  "for_acceptor example_env (example_request t i)"
  "hdr_msgtype PXH (buf (example_request t i)) = ucast t"
  "hdr_body PXH (buf (example_request t i)) v = \<lparr>iid = i, ballot = 1, value_ballot = 0, aid = 0, body_value = v\<rparr>"
  by (simp_all add: example_request_def example_message_def for_acceptor_def add_paxos_message_def
      craft_new_packet_def Let_def hdr_defs mem_simps)

lemma example_prepare:
  "paxos_dispatch example_acceptor (buf (example_request 0 7)) 0 =
    (1, 1, Some \<lparr>mtype = 1, body = \<lparr>iid = 7, ballot = 1, value_ballot = 1, aid = 3,
       body_value = \<lparr>paxos_value_len = 1, paxos_value_val = (\<lambda>_. 9)\<rparr>\<rparr>\<rparr>)"
  by (simp add: paxos_dispatch_def example_request_hdr example_acceptor_def)

lemma example_accept:
  "paxos_dispatch example_acceptor (buf (example_request 2 i)) 0 =
    (let b = \<lparr>iid = i, ballot = 1, value_ballot = 0, aid = 3, body_value = hdr_value PXH (buf (example_request 2 i))\<rparr>
     in if even i then (1, 1, Some \<lparr>mtype = 3, body = b\<rparr>) else (0, 1, Some \<lparr>mtype = 4, body = b\<lparr>ballot := 8\<rparr>\<rparr>))"
  by (simp add: paxos_dispatch_def example_request_hdr example_acceptor_def)

theorem promise_reply_witness:
  "\<exists>pkt'. paxos_rx_process example_env example_acceptor (example_request 0 7) 0 = (pkt', 1, 0)
     \<and> value_bytes (hdr_value PXH (buf pkt')) = [9]"
  using promise_reply[OF example_request_hdr(1) example_prepare]
  by (auto simp: value_bytes_def bytes_at_def)

theorem accepted_reply_witness:
  "\<exists>pkt'. paxos_rx_process example_env example_acceptor (example_request 2 6) 0 = (pkt', 1, 0)
     \<and> hdr_body PXH (buf pkt') NULL_value
         = \<lparr>iid = 6, ballot = 1, value_ballot = 0, aid = 3, body_value = NULL_value\<rparr>"
  using accepted_reply[OF example_request_hdr(1) example_accept[of 6, simplified], of NULL_value]
  by (auto simp: example_request_hdr)

theorem preempted_reply_witness:
  "\<exists>pkt'. paxos_rx_process example_env example_acceptor (example_request 2 7) 0 = (pkt', 0, 0)
     \<and> hdr_body PXH (buf pkt') NULL_value
         = \<lparr>iid = 7, ballot = 8, value_ballot = 0, aid = 3, body_value = NULL_value\<rparr>"
  using preempted_reply[OF example_request_hdr(1) example_accept[of 7, simplified], of NULL_value]
  by (auto simp: example_request_hdr)


theorem answers_iff_witness:
  "paxos_rx_process example_env example_acceptor (example_request 5 7) 0 = (example_request 5 7, 0, -1)"
  using answers_iff[of example_env "example_request 5 7" example_acceptor 0]
  by (auto simp: example_request_hdr split: prod.splits)

section \<open>Accounting\<close>

text \<open>
  Packets received, minus those sent, freed, waiting or dropped (as 32-bit counters): what the
  process has lost track of.
\<close>

definition unaccounted :: "('d \<Rightarrow> nat) \<Rightarrow> ('a, 'd) acceptor_proc \<Rightarrow> u32" where
  "unaccounted held s = rx_counter s - (tx_counter s + of_nat (held (dev s)) + of_nat (length (freed s)))"

lemma unaccounted_rx_packet:
  assumes "tx_api_ok held T"
  shows "unaccounted held (rx_packet E L T now pkt s) = unaccounted held s - 1"
proof -
  obtain p a r where p: "paxos_rx_process E L (pkt\<lparr>udata64 := now\<rparr>) (acceptor s) = (p, a, r)"
    by (metis prod_cases3)
  obtain d n where d: "tx_buffer T (dev s) p = (d, n)" by fastforce
  have "of_nat (held d) = of_nat (held (dev s)) + 1 - (ucast n :: u32)"
    using tx_buffer_held[OF assms d] by (simp add: eq_diff_eq)
  then show ?thesis by (simp add: rx_packet_def p d unaccounted_def)
qed

lemma unaccounted_add_timestamps:
  assumes "tx_api_ok held T"
  shows "unaccounted held (add_timestamps E L T now pkts s) = unaccounted held s - of_nat (length pkts)"
  unfolding add_timestamps_def
  by (induction pkts arbitrary: s) (simp_all add: unaccounted_rx_packet[OF assms])

lemma unaccounted_received:
  "unaccounted held (s\<lparr>rx_counter := rx_counter s + n\<rparr>) = unaccounted held s + n"
  by (simp add: unaccounted_def)

lemma unaccounted_flush:
  assumes "tx_api_ok held T" "tx_buffer_flush T (dev s) = (d, n)"
  shows "unaccounted held (s\<lparr>dev := d, tx_counter := tx_counter s + ucast n\<rparr>) = unaccounted held s"
proof -
  have "of_nat (held d) = of_nat (held (dev s)) - (ucast n :: u32)"
    using tx_flush_held[OF assms] by (simp add: eq_diff_eq)
  then show ?thesis by (simp add: unaccounted_def)
qed

text \<open>C20: The packet loop loses no packet and counts none twice: over every run of the loop the packets
  received are those sent, those given back to the pool and those that wait in the transmit
  buffer or were dropped by it.\<close>

theorem lcore_main_accounting:
  assumes "tx_api_ok held T"
  shows "unaccounted held (lcore_main E L T drain prev rounds s) = unaccounted held s"
proof (induction rounds arbitrary: prev s)
  case (Cons r rounds)
  obtain cur now burst where r: "r = (cur, now, burst)" by (metis prod_cases3)
  obtain d n where d: "tx_buffer_flush T (dev s) = (d, n)" by fastforce
  show ?case
    by (simp add: r d Let_def Cons.IH unaccounted_received unaccounted_add_timestamps[OF assms]
        unaccounted_flush[OF assms d])
qed simp

theorem lcore_main_accounting_witness:
  "unaccounted id (lcore_main example_env example_acceptor counting_buffer 100 0
      [(500, 501, [example_request 0 7, example_request 5 7])]
      \<lparr>acceptor = 0, dev = 3, tx_counter = 0, rx_counter = 3, dropped = 0,
       latency = \<lparr>total_cycles = 0, total_pkts = 0\<rparr>, freed = []\<rparr>) = 0"
  by (subst lcore_main_accounting[OF counting_buffer_ok]) (simp add: unaccounted_def)

text \<open>The drain of the transmit buffer: a run of the loop whose rounds are at most
  the drain interval apart never flushes the buffer, however long it takes in all, so a packet may
  wait there without bound.\<close>

theorem lcore_main_no_drain:
  assumes "successively (\<lambda>p c. c - p \<le> drain) (prev # map fst rounds)"
  shows "lcore_main E L (T\<lparr>tx_buffer_flush := f\<rparr>) drain prev rounds s = lcore_main E L T drain prev rounds s"
  using assms
proof (induction rounds arbitrary: prev s)
  case (Cons r rounds)
  have "rx_packet E L (T\<lparr>tx_buffer_flush := f\<rparr>) = rx_packet E L T"
    by (simp add: fun_eq_iff rx_packet_def split: prod.split)
  then have "add_timestamps E L (T\<lparr>tx_buffer_flush := f\<rparr>) = add_timestamps E L T"
    by (intro ext) (simp add: add_timestamps_def)
  moreover obtain cur now burst where r: "r = (cur, now, burst)" by (metis prod_cases3)
  moreover have "\<not> drain < cur - prev" "successively (\<lambda>p c. c - p \<le> drain) (cur # map fst rounds)"
    using Cons.prems by (simp_all add: r not_less)
  ultimately show ?case
    by (simp add: Let_def Cons.IH)
qed simp

theorem lcore_main_no_drain_witness:
  "dev (lcore_main example_env example_acceptor counting_buffer 100 0
      [(80, 81, []), (160, 161, []), (240, 241, [])]
      \<lparr>acceptor = 0, dev = 3, tx_counter = 0, rx_counter = 0, dropped = 0,
       latency = \<lparr>total_cycles = 0, total_pkts = 0\<rparr>, freed = []\<rparr>) = 3"
  by (subst lcore_main_no_drain[where f = "\<lambda>d. (d, 0)", symmetric])
    (simp_all add: counting_buffer_def add_timestamps_def)

section \<open>Statistics\<close>

text \<open>What moves the latency counters: the transmit callback and the report.\<close>

datatype stat_event = Tx_callback u64 "mbuf list" u16 | Report

fun stat_step :: "stat_event \<Rightarrow> ('a, 'd) acceptor_proc \<Rightarrow> ('a, 'd) acceptor_proc" where
  "stat_step (Tx_callback now pkts nb) s = s\<lparr>latency := fst (calc_latency now pkts nb (latency s))\<rparr>"
| "stat_step Report s = snd (report_stat s)"

lemma stat_step_ok: "latency_ok (latency s) \<Longrightarrow> latency_ok (latency (stat_step e s))"
  by (cases e) (simp_all add: calc_latency_ok, simp add: report_stat_def latency_ok_def Let_def)

lemma stat_run_ok: "latency_ok (latency s) \<Longrightarrow> latency_ok (latency (fold stat_step es s))"
  by (induction es arbitrary: s) (simp_all add: stat_step_ok)

text \<open>\<^verbatim>\<open>report_stat\<close> never divides by zero, after every sequence of transmit callbacks and reports,
  although it tests the cycle count and divides by the packet count; and it resets the counters.\<close>

theorem report_stat_no_division_by_zero:
  assumes "latency_ok (latency s)" "s' = fold stat_step es s" "report_stat s' = ((tx, rx, drops, avg), s'')"
  shows "avg \<noteq> None \<and> latency s'' = \<lparr>total_cycles = 0, total_pkts = 0\<rparr>
    \<and> tx_counter s'' = 0 \<and> rx_counter s'' = 0 \<and> dropped s'' = 0"
  using stat_run_ok[OF assms(1), of es] assms(2,3)
  by (auto simp: report_stat_def Let_def latency_ok_def)

theorem report_stat_no_division_by_zero_witness:
  "fst (report_stat (stat_step (Tx_callback 1000 [example_mbuf] 1)
     \<lparr>acceptor = 0 :: nat, dev = 3 :: nat, tx_counter = 5, rx_counter = 6, dropped = 0,
      latency = \<lparr>total_cycles = 0, total_pkts = 0\<rparr>, freed = []\<rparr>)) = (5, 6, 0, Some 1000)"
proof -
  let ?s = "\<lparr>acceptor = 0 :: nat, dev = 3 :: nat, tx_counter = 5, rx_counter = 6, dropped = 0,
      latency = \<lparr>total_cycles = 0, total_pkts = 0\<rparr>, freed = []\<rparr>"
  have "latency_ok (latency ?s)" by (simp add: latency_ok_def)
  from report_stat_no_division_by_zero[OF this refl, of "[Tx_callback 1000 [example_mbuf] 1]"]
  show ?thesis
    by (auto simp: report_stat_def Let_def calc_latency_def sum_latency_def example_mbuf_def word_le_nat_alt)
qed

section \<open>Start-up\<close>

interpretation acceptor_port: port_initialiser port_init callbacks
proof
  show "\<exists>pre mid. log' = log @ pre @ [dev_start p] @ mid @ callbacks p
      \<and> (\<forall>c \<in> set (pre @ mid). \<not> is_callback c \<and> \<not> is_loop c)"
    if "run_state (port_init api p) log = (0, log')" for api p log log'
    using that
    by (intro exI[of _ "[dev_info_get p, dev_count, dev_configure p 1 1, rx_queue_setup p 0, tx_queue_setup p 0]"]
        exI[of _ "[promiscuous_enable p]"])
      (auto simp: port_init_def callbacks_def trace_simps Let_def split: if_splits)
  show "\<exists>suf. log' = log @ suf \<and> (\<forall>c \<in> set suf. \<not> is_callback c \<and> \<not> is_loop c)"
    if "run_state (port_init api p) log = (r, log')" "r \<noteq> 0" for api p log r log'
    using that by (auto simp: port_init_def trace_simps Let_def split: if_splits)
qed

abbreviation (input) startup :: "call list" where
  "startup \<equiv> [signal 15, signal 2, eal_init, timer_init ''timer'', timer_hz, pool_create ''MBUF_POOL'',
     zmalloc_tx_buffer, tx_buffer_init BURST_SIZE, set_err_callback, paxos_new ''acceptor'']"

lemma acceptor_main_run:
  "run_state (main opts api) [] = (Returned v, log) \<Longrightarrow> \<exists>l1. run_state (port_init api 0) startup = (0, l1)
    \<and> log = l1 @ [next_lcore, timer_reset ''timer'' ''report_stat'',
      remote_launch ''check_timer_expiration'', timer_subsystem_init] @ [lcore_loop 0] @ [paxos_free ''acceptor'']"
  by (simp add: main_def guard_returned split: prod.splits sum.splits)

interpretation acceptor_main: dpdk_program port_init callbacks "main opts" for opts
proof
  show "\<exists>l0 l1 mid post. run_state (port_init api 0) l0 = (0, l1) \<and> log = l1 @ mid @ [lcore_loop 0] @ post
      \<and> (\<forall>c \<in> set (l0 @ mid @ post). \<not> is_callback c \<and> \<not> is_loop c)"
    if run: "run_state (main opts api) [] = (Returned v, log)" for api v log
  proof -
    obtain l1 where "run_state (port_init api 0) startup = (0, l1)"
      "log = l1 @ [next_lcore, timer_reset ''timer'' ''report_stat'',
      remote_launch ''check_timer_expiration'', timer_subsystem_init] @ [lcore_loop 0] @ [paxos_free ''acceptor'']"
      using acceptor_main_run[OF run] by blast
    then show ?thesis
      by (intro exI[of _ startup] exI[of _ l1] exI[of _ "[next_lcore, timer_reset ''timer'' ''report_stat'',
      remote_launch ''check_timer_expiration'', timer_subsystem_init]"] exI[of _ "[paxos_free ''acceptor'']"])
        (simp add: trace_simps)
  qed
  show "\<forall>c \<in> set log. \<not> is_loop c" if run: "run_state (main opts api) [] = (Exit_failure msg, log)" for api msg log
  proof -
    have "exits_early (main opts api) []"
      by (simp add: main_def is_loop_def acceptor_port.exits_early_init split: sum.split)
    then show ?thesis using run by (simp add: exits_early_def quiet_def)
  qed
qed

end
