(* ===== verification/Dpdk_Coordinator.thy ===== *)
theory Dpdk_Coordinator
  imports Dpdk_Host
begin

text \<open>
  \<^verbatim>\<open>dpdk/coordinator\<close>: the coordinator process.  It numbers the client requests it receives with
  consecutive Paxos instances and forwards them to the acceptors in the same buffer; it also
  answers ARP requests and ICMP packets.
\<close>

section \<open>The packet handler\<close>

text \<open>The ARP header after the Ethernet header, and the ICMP header after the IP header.\<close>

abbreviation (input) arp_hrd :: nat where "arp_hrd \<equiv> 0"
abbreviation (input) arp_pro :: nat where "arp_pro \<equiv> 2"
abbreviation (input) arp_hln :: nat where "arp_hln \<equiv> 4"
abbreviation (input) arp_pln :: nat where "arp_pln \<equiv> 5"
abbreviation (input) arp_op :: nat where "arp_op \<equiv> 6"
abbreviation (input) arp_sha :: nat where "arp_sha \<equiv> 8"
abbreviation (input) arp_sip :: nat where "arp_sip \<equiv> 14"
abbreviation (input) arp_tha :: nat where "arp_tha \<equiv> 18"
abbreviation (input) arp_tip :: nat where "arp_tip \<equiv> 24"
abbreviation (input) icmp_type :: nat where "icmp_type \<equiv> 0"
abbreviation (input) icmp_cksum :: nat where "icmp_cksum \<equiv> 2"

text \<open>
  The process: \<^verbatim>\<open>struct coordinator\<close> (its instance counter and transmit buffer), the counters, the
  packets handed to the transmit buffer and the packets given back to the pool, in order.
\<close>

record 'd coordinator =
  cur_inst :: u32
  dev :: 'd
  tx_counter :: u32
  rx_counter :: u32
  latency :: latency_numbers
  queued :: "mbuf list"
  freed :: "mbuf list"

definition hand_over :: "'d tx_api \<Rightarrow> mbuf \<Rightarrow> 'd coordinator \<Rightarrow> 'd coordinator" where
  "hand_over T pkt c = (case tx_buffer T (dev c) pkt of (d, nb_tx) \<Rightarrow>
     c\<lparr>dev := d, queued := queued c @ [pkt],
       tx_counter := (if nb_tx \<noteq> 0 then tx_counter c + ucast nb_tx else tx_counter c)\<rparr>)"

definition arp_reply :: "mem \<Rightarrow> mem \<Rightarrow> mem" where
  "arp_reply mac m =
    (let m = memcpy eth_d_addr m eth_s_addr 6 m;
         m = memcpy eth_s_addr mac 0 6 m;
         m = st16 (IPH + arp_op) (bswap16 ARP_OP_REPLY) m;
         ip_addr = ld32 (IPH + arp_sip) m;
         m = st32 (IPH + arp_sip) (ld32 (IPH + arp_tip) m) m;
         m = memcpy (IPH + arp_sha) mac 0 6 m
     in st32 (IPH + arp_tip) ip_addr m)"

definition icmp_reply :: "mem \<Rightarrow> mem" where
  "icmp_reply m =
    (let eth_addr = from_offset eth_s_addr m;
         m = memcpy eth_s_addr m eth_d_addr 6 m;
         m = memcpy eth_d_addr eth_addr 0 6 m;
         ip_addr = ld32 (IPH + ip_src_addr) m;
         m = st32 (IPH + ip_src_addr) (ld32 (IPH + ip_dst_addr) m) m;
         m = st32 (IPH + ip_dst_addr) ip_addr m;
         m = st8 (UDPH + icmp_type) IP_ICMP_ECHO_REPLY m
     in st16 (UDPH + icmp_cksum) 0 m)"

definition sequence_request :: "rte_env \<Rightarrow> u32 \<Rightarrow> mem \<Rightarrow> mem" where
  "sequence_request E inst m =
    (let m = memcpy eth_d_addr (as_addr (ETHER_ADDR_FOR_IPV4_MCAST ACCEPTOR_ADDR)) 0 6 m;
         m = st32 (IPH + ip_dst_addr) (bswap32 ACCEPTOR_ADDR) m;
         m = st32 (IPH + ip_src_addr) (bswap32 COORDINATOR_ADDR) m;
         m = st16 (IPH + ip_hdr_checksum) 0 m;
         m = st32 (PXH + px_inst) (bswap32 inst) m;
         m = st16 (UDPH + udp_dst_port) (bswap16 ACCEPTOR_PORT) m;
         m = st16 (UDPH + udp_src_port) (bswap16 COORDINATOR_PORT) m
     in st16 (UDPH + udp_dgram_cksum) (get_psd_sum E (from_offset IPH m) ETHER_TYPE_IPv4 (tx_offload E)) m)"

text \<open>The handler: the process after it, the packet and the return value.\<close>

definition paxos_rx_process ::
  "rte_env \<Rightarrow> 'd tx_api \<Rightarrow> u8 \<Rightarrow> mbuf \<Rightarrow> 'd coordinator \<Rightarrow> mbuf \<times> 'd coordinator \<times> int" where
  "paxos_rx_process E T port pkt coord =
    (let m = buf pkt; eth_type = bswap16 (ld16 eth_ether_type m) in
     if eth_type = ETHER_TYPE_ARP then
       if bswap16 (ld16 (IPH + arp_hrd) m) \<noteq> ARP_HRD_ETHER \<or> bswap16 (ld16 (IPH + arp_pro) m) \<noteq> ETHER_TYPE_IPv4
          \<or> m (IPH + arp_hln) \<noteq> 6 \<or> m (IPH + arp_pln) \<noteq> 4 then (pkt, coord, -1)
       else if bswap16 (ld16 (IPH + arp_op) m) \<noteq> ARP_OP_REQUEST then (pkt, coord, -1)
       else
         (let pkt = pkt\<lparr>buf := arp_reply (macaddr E port) m, l2_len := of_nat sizeof_ether_hdr,
                l3_len := of_nat sizeof_ipv4_hdr\<rparr>
          in (pkt, hand_over T pkt coord, 0))
     else if eth_type \<noteq> ETHER_TYPE_IPv4 then (pkt, coord, -1)
     else if m (IPH + ip_next_proto_id) = IPPROTO_ICMP then
       (let pkt = pkt\<lparr>buf := icmp_reply m, l2_len := of_nat sizeof_ether_hdr, l3_len := of_nat sizeof_ipv4_hdr\<rparr>
        in (pkt, hand_over T pkt coord, 0))
     else if m (IPH + ip_next_proto_id) = IPPROTO_UDP then
       if ld16 (UDPH + udp_dst_port) m \<noteq> bswap16 COORDINATOR_PORT \<and> packet_type pkt AND PTYPE_TUNNEL_MASK E = 0
       then (pkt, coord, -1)
       else
         (let pkt = pkt\<lparr>buf := sequence_request E (cur_inst coord) m, l2_len := of_nat sizeof_ether_hdr,
                l3_len := of_nat sizeof_ipv4_hdr,
                l4_len := ucast (bswap16 (ld16 (UDPH + udp_dgram_len) m)), ol_flags := tx_offload E\<rparr>
          in (pkt, hand_over T pkt (coord\<lparr>cur_inst := cur_inst coord + 1\<rparr>), 0))
     else (pkt, coord, -1))"

definition rx_packet :: "rte_env \<Rightarrow> 'd tx_api \<Rightarrow> u8 \<Rightarrow> u64 \<Rightarrow> mbuf \<Rightarrow> 'd coordinator \<Rightarrow> 'd coordinator" where
  "rx_packet E T port now pkt coord =
    (case paxos_rx_process E T port (pkt\<lparr>udata64 := now\<rparr>) coord of (pkt, coord, ret) \<Rightarrow>
      if ret < 0 then coord\<lparr>freed := freed coord @ [pkt]\<rparr> else coord)"

definition add_timestamps :: "rte_env \<Rightarrow> 'd tx_api \<Rightarrow> u8 \<Rightarrow> u64 \<Rightarrow> mbuf list \<Rightarrow> 'd coordinator \<Rightarrow> 'd coordinator" where
  "add_timestamps E T port now pkts coord = fold (rx_packet E T port now) pkts coord"

definition report_stat :: "'d coordinator \<Rightarrow> (u32 \<times> u32 \<times> u64 option) \<times> 'd coordinator" where
  "report_stat s =
    (let ln = latency s;
         avg_cycles = (if 0 < total_cycles ln
           then if total_pkts ln = 0 then None else Some (total_cycles ln div total_pkts ln)
           else Some 0)
     in ((tx_counter s, rx_counter s, avg_cycles),
         s\<lparr>latency := \<lparr>total_cycles = 0, total_pkts = 0\<rparr>, rx_counter := 0, tx_counter := 0\<rparr>))"

text \<open>The packet loop; a round is the reading of the cycle counter, the callback's, and the burst.\<close>

fun lcore_main ::
  "rte_env \<Rightarrow> 'd tx_api \<Rightarrow> u8 \<Rightarrow> u64 \<Rightarrow> u64 \<Rightarrow> (u64 \<times> u64 \<times> mbuf list) list \<Rightarrow> 'd coordinator \<Rightarrow> 'd coordinator" where
  "lcore_main E T port drain prev_tsc [] s = s"
| "lcore_main E T port drain prev_tsc ((cur_tsc, now, burst) # rounds) s =
    (let s = (if drain < cur_tsc - prev_tsc
              then case tx_buffer_flush T (dev s) of (d, nb_tx) \<Rightarrow>
                s\<lparr>dev := d, tx_counter := (if nb_tx \<noteq> 0 then tx_counter s + ucast nb_tx else tx_counter s)\<rparr>
              else s);
         s = add_timestamps E T port now burst s;
         s = (if burst = [] then s else s\<lparr>rx_counter := rx_counter s + of_nat (length burst)\<rparr>)
     in lcore_main E T port drain cur_tsc rounds s)"

section \<open>Start-up\<close>

definition port_init :: "api \<Rightarrow> u8 \<Rightarrow> int host" where
  "port_init api port = do {
     calls [dev_info_get port];
     n \<leftarrow> ask api dev_count;
     if uint port \<ge> n then State_Monad.return (-1)
     else do {
       retval \<leftarrow> ask api (dev_configure port 1 1);
       if retval < 0 then State_Monad.return (-1)
       else do {
         retval \<leftarrow> ask api (rx_queue_setup port 0);
         if retval < 0 then State_Monad.return retval
         else do {
           retval \<leftarrow> ask api (tx_queue_setup port 0);
           if retval < 0 then State_Monad.return retval
           else do {
             retval \<leftarrow> ask api (dev_start port);
             if retval < 0 then State_Monad.return retval
             else do {
               calls [promiscuous_enable port];
               calls [add_rx_callback port ''add_timestamps'', add_tx_callback port ''calc_latency''];
               State_Monad.return 0
             }
           }
         }
       }
     }
   }"

definition callbacks :: "u8 \<Rightarrow> call list" where
  "callbacks port = [add_rx_callback port ''add_timestamps'', add_tx_callback port ''calc_latency'']"

definition init_coordinator :: "'d \<Rightarrow> 'd coordinator" where
  "init_coordinator d = \<lparr>cur_inst = 1, dev = d, tx_counter = 0, rx_counter = 0,
     latency = \<lparr>total_cycles = 0, total_pkts = 0\<rparr>, queued = [], freed = []\<rparr>"

definition main :: "api \<Rightarrow> outcome host" where
  "main api = do {
     calls [signal 15, signal 2];
     ret \<leftarrow> ask api eal_init;
     if ret < 0 then State_Monad.return (Exit_failure ''Error with EAL initilization'')
     else do {
       calls [timer_init ''timer'', timer_hz];
       mbuf_pool \<leftarrow> ask api (pool_create ''MBUF_POOL'');
       if mbuf_pool = 0 then State_Monad.return (Exit_failure ''Cannot create mbuf_pool'')
       else do {
         tx_buffer \<leftarrow> ask api zmalloc_tx_buffer;
         if tx_buffer = 0 then State_Monad.return (Exit_failure ''Cannot allocate buffer for tx'')
         else do {
           calls [tx_buffer_init BURST_SIZE];
           calls [next_lcore, timer_reset ''timer'' ''report_stat'',
                  remote_launch ''check_timer_expiration'', timer_subsystem_init];
           r \<leftarrow> port_init api 0;
           if r \<noteq> 0 then State_Monad.return (Exit_failure ''Cannot init port'')
           else do {
             calls [lcore_loop 0];
             State_Monad.return (Returned 0)
           }
         }
       }
     }
   }"


section \<open>Numbering the requests\<close>

text \<open>The packets that get an instance, and the packets forwarded to the acceptors.\<close>

definition is_udp :: "mbuf \<Rightarrow> bool" where
  "is_udp pkt \<longleftrightarrow> bswap16 (ld16 eth_ether_type (buf pkt)) = ETHER_TYPE_IPv4
     \<and> buf pkt (IPH + ip_next_proto_id) = IPPROTO_UDP"

definition is_request :: "rte_env \<Rightarrow> mbuf \<Rightarrow> bool" where
  "is_request E pkt \<longleftrightarrow> is_udp pkt \<and>
     (ld16 (UDPH + udp_dst_port) (buf pkt) = bswap16 COORDINATOR_PORT
      \<or> packet_type pkt AND PTYPE_TUNNEL_MASK E \<noteq> 0)"

definition inst_of :: "mbuf \<Rightarrow> u32" where
  "inst_of pkt = bswap32 (ld32 (PXH + px_inst) (buf pkt))"

lemma hand_over_simps [simp]:
  "cur_inst (hand_over T pkt c) = cur_inst c" "queued (hand_over T pkt c) = queued c @ [pkt]"
  "freed (hand_over T pkt c) = freed c"
  by (simp_all add: hand_over_def split: prod.split)

lemma eth_type_kept [simplified]:
  "ld16 eth_ether_type (arp_reply mac m) = ld16 eth_ether_type m"
  "ld16 eth_ether_type (icmp_reply m) = ld16 eth_ether_type m"
  "ld16 eth_ether_type (sequence_request E i m) = ld16 eth_ether_type m"
  by (simp_all add: arp_reply_def icmp_reply_def sequence_request_def Let_def mem_simps)

lemma proto_kept [simplified]:
  "icmp_reply m (IPH + ip_next_proto_id) = m (IPH + ip_next_proto_id)"
  "sequence_request E i m (IPH + ip_next_proto_id) = m (IPH + ip_next_proto_id)"
  by (simp_all add: icmp_reply_def sequence_request_def Let_def mem_simps)

lemma inst_of_sequenced [simplified]: "bswap32 (ld32 (PXH + px_inst) (sequence_request E i m)) = i"
  by (simp add: sequence_request_def Let_def mem_simps)

text \<open>One packet: what is forwarded to the acceptors and what becomes of the counter.\<close>

lemma rx_packet_request:
  assumes "is_request E pkt"
  shows "\<exists>p. queued (rx_packet E T port now pkt c) = queued c @ [p] \<and> is_udp p \<and> inst_of p = cur_inst c
    \<and> buf p = sequence_request E (cur_inst c) (buf pkt)
    \<and> cur_inst (rx_packet E T port now pkt c) = cur_inst c + 1
    \<and> freed (rx_packet E T port now pkt c) = freed c"
  using assms
  by (auto simp: rx_packet_def paxos_rx_process_def is_request_def is_udp_def Let_def inst_of_def
      eth_type_kept proto_kept inst_of_sequenced)

lemma rx_packet_other:
  assumes "\<not> is_request E pkt"
  shows "cur_inst (rx_packet E T port now pkt c) = cur_inst c
    \<and> filter is_udp (queued (rx_packet E T port now pkt c)) = filter is_udp (queued c)"
  using assms
  by (auto simp: rx_packet_def paxos_rx_process_def is_request_def is_udp_def Let_def
      eth_type_kept proto_kept)

lemma rx_packet_counts:
  "length (queued (rx_packet E T port now pkt c)) + length (freed (rx_packet E T port now pkt c))
    = length (queued c) + length (freed c) + 1"
  by (simp add: rx_packet_def paxos_rx_process_def Let_def)

lemma sequences:
  "map inst_of (filter is_udp (queued (fold (rx_packet E T port now) pkts c))) =
     map inst_of (filter is_udp (queued c)) @
     map (\<lambda>i. cur_inst c + of_nat i) [0..<length (filter (is_request E) pkts)]
   \<and> cur_inst (fold (rx_packet E T port now) pkts c) = cur_inst c + of_nat (length (filter (is_request E) pkts))"
proof (induction pkts arbitrary: c)
  case (Cons pkt pkts)
  show ?case
  proof (cases "is_request E pkt")
    case True
    from rx_packet_request[OF this, of T port now c] show ?thesis
      using True Cons.IH[of "rx_packet E T port now pkt c"]
      by (auto simp: upt_conv_Cons map_Suc_upt[symmetric] add_ac simp del: upt_Suc)
  next
    case False
    from rx_packet_other[OF this, of T port now c] show ?thesis
      using False Cons.IH[of "rx_packet E T port now pkt c"] by auto
  qed
qed simp

text \<open>Every packet of a burst is either handed to the transmit buffer or given back to the pool, and
  not both.\<close>

theorem every_packet_handled:
  "length (queued (add_timestamps E T port now pkts c)) + length (freed (add_timestamps E T port now pkts c))
    = length (queued c) + length (freed c) + length pkts"
  unfolding add_timestamps_def
proof (induction pkts arbitrary: c)
  case (Cons pkt pkts)
  then show ?case using rx_packet_counts[of E T port now pkt c] by simp
qed simp

lemma distinct_instances:
  assumes "length (filter (is_request E) pkts) < 2 ^ 32"
  shows "distinct (map inst_of (filter is_udp (queued (add_timestamps E T port now pkts (init_coordinator d)))))"
proof -
  have "inj_on (\<lambda>i. (1 :: u32) + of_nat i) {0..<length (filter (is_request E) pkts)}"
    using assms by (intro inj_onI, elim word_add_of_nat_inj[rotated 2]) auto
  then show ?thesis
    using sequences[of E T port now pkts "init_coordinator d"]
    by (simp add: add_timestamps_def init_coordinator_def distinct_map)
qed

text \<open>No two requests get the same instance until the 32-bit counter has gone round.\<close>

theorem instances_distinct:
  assumes "length (filter (is_request E) pkts) < 2 ^ 32"
  shows "distinct (map inst_of (filter is_udp (queued (add_timestamps E T port now pkts (init_coordinator d)))))"
  using assms by (rule distinct_instances)

definition example_client_request :: mbuf where
  "example_client_request = add_paxos_message example_env example_message example_mbuf 12345
     COORDINATOR_PORT COORDINATOR_ADDR"

lemma example_client_request: "is_request example_env example_client_request"
  by (simp add: is_request_def is_udp_def example_client_request_def add_paxos_message_def
      craft_new_packet_def Let_def mem_simps)

theorem instances_distinct_witness:
  "distinct (map inst_of (filter is_udp (queued (add_timestamps example_env counting_buffer 0 77
     [example_client_request, example_mbuf, example_client_request] (init_coordinator 0)))))"
  by (rule instances_distinct) (simp add: example_client_request)

lemma sequence_request_fields [simplified]:
  "ld16 (PXH + px_msgtype) (sequence_request E i m) = ld16 (PXH + px_msgtype) m"
  "ld16 (PXH + px_rnd) (sequence_request E i m) = ld16 (PXH + px_rnd) m"
  "ld16 (PXH + px_vrnd) (sequence_request E i m) = ld16 (PXH + px_vrnd) m"
  "ld16 (PXH + px_acptid) (sequence_request E i m) = ld16 (PXH + px_acptid) m"
  "ld32 (PXH + px_value_len) (sequence_request E i m) = ld32 (PXH + px_value_len) m"
  "from_offset (PXH + px_paxosval) (sequence_request E i m) = from_offset (PXH + px_paxosval) m"
  "ld16 (UDPH + udp_dst_port) (sequence_request E i m) = bswap16 ACCEPTOR_PORT"
  "ld32 (IPH + ip_dst_addr) (sequence_request E i m) = bswap32 ACCEPTOR_ADDR"
  "bytes_at eth_d_addr 6 (sequence_request E i m) = bytes_at 0 6 (as_addr (ETHER_ADDR_FOR_IPV4_MCAST ACCEPTOR_ADDR))"
  by (simp_all add: sequence_request_def Let_def mem_simps) (simp add: from_offset_def frame_simps)

text \<open>What the acceptors see of a packet: the instance, the addressee, the message type and the value.\<close>

definition forwarded_as :: "mbuf \<Rightarrow> u32 \<times> u16 \<times> u32 \<times> u16 \<times> u8 list" where
  "forwarded_as p = (inst_of p, bswap16 (ld16 (UDPH + udp_dst_port) (buf p)), bswap32 (ld32 (IPH + ip_dst_addr) (buf p)),
     hdr_msgtype PXH (buf p), value_bytes (hdr_value PXH (buf p)))"

definition numbered :: "u32 \<Rightarrow> mbuf \<Rightarrow> u32 \<times> u16 \<times> u32 \<times> u16 \<times> u8 list" where
  "numbered i pkt = (i, ACCEPTOR_PORT, ACCEPTOR_ADDR, hdr_msgtype PXH (buf pkt), value_bytes (hdr_value PXH (buf pkt)))"

lemma forwarded_sequenced:
  assumes "buf p = sequence_request E i (buf pkt)" "inst_of p = i"
  shows "forwarded_as p = numbered i pkt"
  using assms(2) by (simp add: forwarded_as_def numbered_def assms(1) hdr_defs sequence_request_fields)

lemma sequenced_in_order:
  "map forwarded_as (filter is_udp (queued (fold (rx_packet E T port now) pkts c))) =
     map forwarded_as (filter is_udp (queued c)) @
     map (\<lambda>k. numbered (cur_inst c + of_nat k) (filter (is_request E) pkts ! k)) [0..<length (filter (is_request E) pkts)]"
proof (induction pkts arbitrary: c)
  case (Cons pkt pkts)
  let ?c = "rx_packet E T port now pkt c"
  show ?case
  proof (cases "is_request E pkt")
    case True
    obtain p where p: "queued ?c = queued c @ [p]" "is_udp p" "inst_of p = cur_inst c"
      "buf p = sequence_request E (cur_inst c) (buf pkt)" "cur_inst ?c = cur_inst c + 1"
      using rx_packet_request[OF True, of T port now c] by blast
    have "[0..<Suc n] = 0 # map Suc [0..<n]" for n by (simp add: upt_conv_Cons map_Suc_upt del: upt_Suc)
    then show ?thesis
      using True p Cons.IH[of ?c] forwarded_sequenced[OF p(4,3)] by (simp add: comp_def add.assoc del: upt_Suc)
  next
    case False
    from rx_packet_other[OF this, of T port now c] show ?thesis
      using False Cons.IH[of ?c] by simp
  qed
qed simp

text \<open>C10: A burst of packets is forwarded to the acceptors in the order of arrival: the packets it adds to those waiting for
  transmission are, one after the other, the client requests of the burst, addressed to the acceptors, with consecutive
  instances and with their own types and values, and the coordinator's counter advances by their number;
  nothing else is numbered.\<close>

theorem add_timestamps_sequences:
  "map forwarded_as (filter is_udp (queued (add_timestamps E T port now pkts c))) =
     map forwarded_as (filter is_udp (queued c)) @
     map (\<lambda>k. numbered (cur_inst c + of_nat k) (filter (is_request E) pkts ! k)) [0..<length (filter (is_request E) pkts)]
   \<and> cur_inst (add_timestamps E T port now pkts c) = cur_inst c + of_nat (length (filter (is_request E) pkts))"
  unfolding add_timestamps_def by (intro conjI sequenced_in_order conjunct2[OF sequences])

text \<open>The request the acceptors get is the client's message with the coordinator's instance in it,
  nothing else of it changed, in a packet addressed to the acceptors' group and port.\<close>

theorem request_forwarded:
  assumes "is_request E pkt"
  shows "\<exists>p c'. paxos_rx_process E T port pkt c = (p, c', 0) \<and> queued c' = queued c @ [p]
    \<and> hdr_msgtype PXH (buf p) = hdr_msgtype PXH (buf pkt)
    \<and> hdr_body PXH (buf p) v = (hdr_body PXH (buf pkt) v)\<lparr>iid := cur_inst c\<rparr>
    \<and> hdr_value PXH (buf p) = hdr_value PXH (buf pkt)
    \<and> ld16 (UDPH + udp_dst_port) (buf p) = bswap16 ACCEPTOR_PORT
    \<and> ld32 (IPH + ip_dst_addr) (buf p) = bswap32 ACCEPTOR_ADDR
    \<and> bytes_at eth_d_addr 6 (buf p) = bytes_at 0 6 (as_addr (ETHER_ADDR_FOR_IPV4_MCAST ACCEPTOR_ADDR))
    \<and> pkt_len p = pkt_len pkt"
  using assms
  by (intro exI[of _ "fst (paxos_rx_process E T port pkt c)"] exI[of _ "fst (snd (paxos_rx_process E T port pkt c))"])
    (auto simp: paxos_rx_process_def is_request_def is_udp_def Let_def hdr_defs sequence_request_fields
      inst_of_sequenced)

theorem request_forwarded_witness:
  "\<exists>p c'. paxos_rx_process example_env counting_buffer 0 example_client_request (init_coordinator 0) = (p, c', 0)
    \<and> hdr_msgtype PXH (buf p) = 2 \<and> iid (hdr_body PXH (buf p) NULL_value) = 1 \<and> ballot (hdr_body PXH (buf p) NULL_value) = 1"
proof -
  have "hdr_msgtype PXH (buf example_client_request) = 2"
    "ballot (hdr_body PXH (buf example_client_request) v) = 1" for v
    by (simp_all add: example_client_request_def add_paxos_message_def example_message_def
        craft_new_packet_def Let_def hdr_defs mem_simps)
  with request_forwarded[OF example_client_request, of counting_buffer 0 "init_coordinator 0" NULL_value]
  show ?thesis by (auto simp: init_coordinator_def)
qed

text \<open>An ARP request is answered to the host that sent it: the Ethernet and ARP sender addresses are
  the coordinator's MAC address and the address asked for, the target address the asking host's;
  the target hardware address stays as the request had it.\<close>

theorem arp_request_answered:
  assumes "bswap16 (ld16 eth_ether_type (buf pkt)) = ETHER_TYPE_ARP"
    and "bswap16 (ld16 (IPH + arp_hrd) (buf pkt)) = ARP_HRD_ETHER" "bswap16 (ld16 (IPH + arp_pro) (buf pkt)) = ETHER_TYPE_IPv4"
    and "buf pkt (IPH + arp_hln) = 6" "buf pkt (IPH + arp_pln) = 4"
    and "bswap16 (ld16 (IPH + arp_op) (buf pkt)) = ARP_OP_REQUEST"
  shows "\<exists>p c'. paxos_rx_process E T port pkt c = (p, c', 0) \<and> queued c' = queued c @ [p] \<and> cur_inst c' = cur_inst c
    \<and> bytes_at eth_d_addr 6 (buf p) = bytes_at eth_s_addr 6 (buf pkt)
    \<and> bytes_at eth_s_addr 6 (buf p) = bytes_at 0 6 (macaddr E port)
    \<and> bytes_at (IPH + arp_sha) 6 (buf p) = bytes_at 0 6 (macaddr E port)
    \<and> bswap16 (ld16 (IPH + arp_op) (buf p)) = ARP_OP_REPLY
    \<and> ld32 (IPH + arp_sip) (buf p) = ld32 (IPH + arp_tip) (buf pkt)
    \<and> ld32 (IPH + arp_tip) (buf p) = ld32 (IPH + arp_sip) (buf pkt)
    \<and> bytes_at (IPH + arp_tha) 6 (buf p) = bytes_at (IPH + arp_tha) 6 (buf pkt)"
  using assms
  by (simp add: paxos_rx_process_def Let_def)
    (simp add: arp_reply_def Let_def mem_simps)

definition example_arp :: mbuf where
  "example_arp = example_mbuf\<lparr>buf := st16 12 (bswap16 ETHER_TYPE_ARP) (st16 14 (bswap16 1) (st16 16 (bswap16 0x0800)
     (st8 18 6 (st8 19 4 (st16 20 (bswap16 1) (st32 38 0x0a00000a (\<lambda>i. of_nat i)))))))\<rparr>"

theorem arp_request_answered_witness:
  "\<exists>p c'. paxos_rx_process example_env counting_buffer 0 example_arp (init_coordinator 0) = (p, c', 0)
    \<and> ld32 (IPH + arp_sip) (buf p) = 0x0a00000a \<and> bytes_at eth_d_addr 6 (buf p) = [6, 7, 8, 9, 10, 11]"
  using arp_request_answered[of example_arp example_env counting_buffer 0 "init_coordinator 0"]
  by (simp add: example_arp_def mem_simps) (auto simp: bytes_at_def upt_rec)

text \<open>Every ICMP packet goes back to its sender as an echo reply: addresses swapped on both layers,
  the rest of the payload as it came, the ICMP checksum zeroed.\<close>

theorem icmp_answered:
  assumes "bswap16 (ld16 eth_ether_type (buf pkt)) = ETHER_TYPE_IPv4"
    and "buf pkt (IPH + ip_next_proto_id) = IPPROTO_ICMP"
  shows "\<exists>p c'. paxos_rx_process E T port pkt c = (p, c', 0) \<and> queued c' = queued c @ [p] \<and> cur_inst c' = cur_inst c
    \<and> bytes_at eth_d_addr 6 (buf p) = bytes_at eth_s_addr 6 (buf pkt)
    \<and> bytes_at eth_s_addr 6 (buf p) = bytes_at eth_d_addr 6 (buf pkt)
    \<and> ld32 (IPH + ip_src_addr) (buf p) = ld32 (IPH + ip_dst_addr) (buf pkt)
    \<and> ld32 (IPH + ip_dst_addr) (buf p) = ld32 (IPH + ip_src_addr) (buf pkt)
    \<and> buf p (UDPH + icmp_type) = IP_ICMP_ECHO_REPLY \<and> ld16 (UDPH + icmp_cksum) (buf p) = 0
    \<and> bytes_at (UDPH + 4) n (buf p) = bytes_at (UDPH + 4) n (buf pkt)"
  using assms
  by (simp add: paxos_rx_process_def Let_def)
    (simp add: icmp_reply_def Let_def mem_simps)

definition example_icmp :: mbuf where
  "example_icmp = example_mbuf\<lparr>buf := st16 12 (bswap16 ETHER_TYPE_IPv4) (st8 23 1 (\<lambda>i. of_nat i))\<rparr>"

theorem icmp_answered_witness:
  "\<exists>p c'. paxos_rx_process example_env counting_buffer 0 example_icmp (init_coordinator 0) = (p, c', 0)
    \<and> buf p 34 = 0 \<and> bytes_at eth_d_addr 6 (buf p) = [6, 7, 8, 9, 10, 11]"
  using icmp_answered[of example_icmp example_env counting_buffer 0 "init_coordinator 0" 0]
  by (simp add: example_icmp_def mem_simps) (auto simp: bytes_at_def upt_rec)

section \<open>Start-up\<close>

interpretation coordinator_port: port_initialiser port_init callbacks
proof
  show "\<exists>pre mid. log' = log @ pre @ [dev_start p] @ mid @ callbacks p
      \<and> (\<forall>c \<in> set (pre @ mid). \<not> is_callback c \<and> \<not> is_loop c)"
    if "run_state (port_init api p) log = (0, log')" for api p log log'
    using that
    by (intro exI[of _ "[dev_info_get p, dev_count, dev_configure p 1 1, rx_queue_setup p 0, tx_queue_setup p 0]"]
        exI[of _ "[promiscuous_enable p]"])
      (auto simp: port_init_def callbacks_def trace_simps Let_def split: if_splits)
  show "\<exists>suf. log' = log @ suf \<and> (\<forall>c \<in> set suf. \<not> is_callback c \<and> \<not> is_loop c)"
    if "run_state (port_init api p) log = (r, log')" "r \<noteq> 0" for api p log r log'
    using that by (auto simp: port_init_def trace_simps Let_def split: if_splits)
qed

abbreviation (input) startup :: "call list" where
  "startup \<equiv> [signal 15, signal 2, eal_init, timer_init ''timer'', timer_hz, pool_create ''MBUF_POOL'',
     zmalloc_tx_buffer, tx_buffer_init BURST_SIZE, next_lcore, timer_reset ''timer'' ''report_stat'',
     remote_launch ''check_timer_expiration'', timer_subsystem_init]"

lemma coordinator_main_run:
  "run_state (main api) [] = (Returned v, log) \<Longrightarrow> \<exists>l1. run_state (port_init api 0) startup = (0, l1)
    \<and> log = l1 @ [] @ [lcore_loop 0] @ []"
  by (simp add: main_def guard_returned split: prod.splits)

interpretation coordinator_main: dpdk_program port_init callbacks main
proof
  show "\<exists>l0 l1 mid post. run_state (port_init api 0) l0 = (0, l1) \<and> log = l1 @ mid @ [lcore_loop 0] @ post
      \<and> (\<forall>c \<in> set (l0 @ mid @ post). \<not> is_callback c \<and> \<not> is_loop c)"
    if run: "run_state (main api) [] = (Returned v, log)" for api v log
  proof -
    obtain l1 where "run_state (port_init api 0) startup = (0, l1)"
      "log = l1 @ [] @ [lcore_loop 0] @ []"
      using coordinator_main_run[OF run] by blast
    then show ?thesis
      by (intro exI[of _ startup] exI[of _ l1] exI[of _ "[]"] exI[of _ "[]"])
        (simp add: trace_simps)
  qed
  show "\<forall>c \<in> set log. \<not> is_loop c" if run: "run_state (main api) [] = (Exit_failure msg, log)" for api msg log
  proof -
    have "exits_early (main api) []"
      by (simp add: main_def is_loop_def coordinator_port.exits_early_init split: sum.split)
    then show ?thesis using run by (simp add: exits_early_def quiet_def)
  qed
qed

end
