(* ===== verification/Dpdk_System.thy ===== *)
theory Dpdk_System
  imports Dpdk_Acceptor Dpdk_Coordinator Paxos_Spec
begin

text \<open>
  A deployment of the DPDK programs: one coordinator, \<open>n\<close> acceptors, clients and recovering proposers,
  over a network that loses, duplicates and reorders packets and carries of each as many bytes as its
  length says.  Coordinator and acceptors are the
  packet handlers of their theories, with the acceptor of libpaxos under its contract; the
  deployment refines the specification of Paxos in \<open>Paxos_Spec\<close>, so it keeps agreement.
\<close>

section \<open>The contract of libpaxos's acceptor\<close>

text \<open>What an acceptor remembers: its id; and of an instance the ballot it promised and the ballot and value of its vote.\<close>

record 'a acceptor_memory =
  mem_id :: "'a \<Rightarrow> u16"
  mem_promise :: "'a \<Rightarrow> u32 \<Rightarrow> u16"
  mem_ballot :: "'a \<Rightarrow> u32 \<Rightarrow> u16"
  mem_value :: "'a \<Rightarrow> u32 \<Rightarrow> u8 list"

definition same_memory :: "'a acceptor_memory \<Rightarrow> 'a \<Rightarrow> 'a \<Rightarrow> bool" where
  "same_memory M a a' \<longleftrightarrow> mem_id M a' = mem_id M a \<and> mem_promise M a' = mem_promise M a \<and> mem_ballot M a' = mem_ballot M a \<and> mem_value M a' = mem_value M a"

text \<open>A prepare is answered with a promise of the higher of the two ballots, which names the vote.\<close>

definition prepare_ok :: "'a acceptor_memory \<Rightarrow> 'a \<Rightarrow> paxos_prepare \<Rightarrow> 'a \<Rightarrow> paxos_message \<Rightarrow> bool" where
  "prepare_ok M a p a' out \<longleftrightarrow> mtype out = of_nat (msg_code PAXOS_PROMISE) \<and> iid (body out) = iid p \<and> aid (body out) = mem_id M a
     \<and> ballot (body out) = max (mem_promise M a (iid p)) (ballot p)
     \<and> value_ballot (body out) = mem_ballot M a (iid p) \<and> value_bytes (body_value (body out)) = mem_value M a (iid p)
     \<and> mem_id M a' = mem_id M a \<and> mem_promise M a' = (mem_promise M a)(iid p := ballot (body out))
     \<and> mem_ballot M a' = mem_ballot M a \<and> mem_value M a' = mem_value M a"

text \<open>An accept is voted for unless a higher ballot was promised, which is what a preempted message says.\<close>

definition accept_ok :: "'a acceptor_memory \<Rightarrow> 'a \<Rightarrow> paxos_accept \<Rightarrow> 'a \<Rightarrow> paxos_message \<Rightarrow> bool" where
  "accept_ok M a p a' out \<longleftrightarrow>
     (if mem_promise M a (iid p) \<le> ballot p
      then mtype out = of_nat (msg_code PAXOS_ACCEPTED) \<and> aid (body out) = mem_id M a \<and> mem_id M a' = mem_id M a
        \<and> mem_promise M a' = (mem_promise M a)(iid p := ballot p) \<and> mem_ballot M a' = (mem_ballot M a)(iid p := ballot p)
        \<and> mem_value M a' = (mem_value M a)(iid p := value_bytes (body_value p))
      else mtype out = of_nat (msg_code PAXOS_PREEMPTED) \<and> same_memory M a a')"

text \<open>Whatever it does not answer with 1, a trimmed instance for example, changes nothing.\<close>

definition acceptor_ok :: "'a acceptor_api \<Rightarrow> 'a acceptor_memory \<Rightarrow> bool" where
  "acceptor_ok L M \<longleftrightarrow>
     (\<forall>a p a' ret out. acceptor_receive_prepare L a p = (a', ret, out) \<longrightarrow>
        (if ret = 1 then prepare_ok M a p a' out else same_memory M a a')) \<and>
     (\<forall>a p a' ret out. acceptor_receive_accept L a p = (a', ret, out) \<longrightarrow>
        (if ret = 1 then accept_ok M a p a' out else same_memory M a a'))"

section \<open>The deployment\<close>

record ('a, 'd) deployment =
  dcoord :: "'d coordinator"
  daccs :: "nat \<Rightarrow> 'a"
  dnet :: "(sender \<times> mbuf) set"

text \<open>What a packet says: its type, and instance, ballot and value.\<close>

definition says :: "paxos_message_type \<Rightarrow> u32 \<Rightarrow> u16 \<Rightarrow> u8 list \<Rightarrow> mbuf \<Rightarrow> bool" where
  "says t i b v p \<longleftrightarrow> unat (hdr_msgtype PXH (buf p)) = msg_code t \<and> iid (hdr_body PXH (buf p) NULL_value) = i
     \<and> ballot (hdr_body PXH (buf p) NULL_value) = b \<and> value_bytes (hdr_value PXH (buf p)) = v"

definition names_acceptor :: "mbuf \<Rightarrow> u16" where
  "names_acceptor p = aid (hdr_body PXH (buf p) NULL_value)"

definition names_ballot :: "mbuf \<Rightarrow> u16" where
  "names_ballot p = value_ballot (hdr_body PXH (buf p) NULL_value)"

text \<open>
  The programs never compare the length of a packet with what they read, so they rely on packets that hold
  the header, and the value if there is one.
\<close>

definition headed :: "mbuf \<Rightarrow> bool" where
  "headed p \<longleftrightarrow> PXH + px_paxosval \<le> unat (pkt_len p)"

definition whole :: "mbuf \<Rightarrow> bool" where
  "whole p \<longleftrightarrow> PXH + px_paxosval + unat (hdr_value_len PXH (buf p)) \<le> unat (pkt_len p)"

definition dpdk_proposed :: "u32 \<Rightarrow> ('a, 'd) deployment \<Rightarrow> u16 \<Rightarrow> u8 list \<Rightarrow> bool" where
  "dpdk_proposed i s b v \<longleftrightarrow> (\<exists>x p. (x, p) \<in> dnet s \<and> says PAXOS_ACCEPT i b v p)"

definition dpdk_voted :: "u32 \<Rightarrow> ('a, 'd) deployment \<Rightarrow> nat \<Rightarrow> u16 \<Rightarrow> u8 list \<Rightarrow> bool" where
  "dpdk_voted i s a b v \<longleftrightarrow> (\<exists>q. (Acc a, q) \<in> dnet s \<and> says PAXOS_ACCEPTED i b v q)"

definition dpdk_promised :: "u32 \<Rightarrow> ('a, 'd) deployment \<Rightarrow> nat \<Rightarrow> u16 \<Rightarrow> u16 \<Rightarrow> u8 list \<Rightarrow> bool" where
  "dpdk_promised i s a b r w \<longleftrightarrow> (\<exists>q. (Acc a, q) \<in> dnet s \<and> says PAXOS_PROMISE i b w q \<and> names_ballot q = r)"

text \<open>
  What a recovering proposer owes: nobody else proposed in its ballot, and the rule of phase 2, on promises
  that reached it whole.  An acceptor sends a promise with the length of the prepare it answers, so
  whole promises take prepares as long as the values they ask for.
\<close>

definition dpdk_proposer_rule :: "nat \<Rightarrow> ('a, 'd) deployment \<Rightarrow> u32 \<Rightarrow> u16 \<Rightarrow> u8 list \<Rightarrow> bool" where
  "dpdk_proposer_rule n s i b v \<longleftrightarrow>
     (\<forall>w. dpdk_proposed i s b w \<longrightarrow> w = v) \<and>
     (\<exists>Q r w. majority n Q \<and> (\<forall>a\<in>Q. \<exists>q. (Acc a, q) \<in> dnet s \<and> says PAXOS_PROMISE i b (w a) q \<and> names_ballot q = r a \<and> whole q) \<and>
        ((\<forall>a\<in>Q. r a = 0) \<or> (\<exists>a\<in>Q. r a \<noteq> 0 \<and> w a = v \<and> (\<forall>a'\<in>Q. r a' \<le> r a))))"

text \<open>
  \<open>request\<close> is the coordinator on a client's accept message, which has ballot 1 as every client of the
  repository sends it; the instance counter has not gone round.  Recovering proposers use higher
  ballots and keep the rule of phase 2.  \<open>handle\<close> is an acceptor on what arrives of any packet of the network.
  Values are shorter than 2 GB.
\<close>

inductive dpdk_step ::
  "rte_env \<Rightarrow> 'd tx_api \<Rightarrow> u8 \<Rightarrow> 'a acceptor_api \<Rightarrow> nat \<Rightarrow> ('a, 'd) deployment \<Rightarrow> ('a, 'd) deployment \<Rightarrow> bool"
  for E T port L n where
  prepare: "unat (hdr_msgtype PXH (buf p)) = msg_code PAXOS_PREPARE \<Longrightarrow> headed p \<Longrightarrow>
     dpdk_step E T port L n s (s\<lparr>dnet := insert (Env, p) (dnet s)\<rparr>)"
| request: "says PAXOS_ACCEPT i 1 v p \<Longrightarrow> length v < 2 ^ 31 \<Longrightarrow> whole p \<Longrightarrow> is_request E p \<Longrightarrow> cur_inst (dcoord s) \<noteq> - 1 \<Longrightarrow>
     Dpdk_Coordinator.paxos_rx_process E T port p (dcoord s) = (q, c, ret) \<Longrightarrow>
     dpdk_step E T port L n s (s\<lparr>dcoord := c, dnet := insert (Coord, q) (dnet s)\<rparr>)"
| recover: "says PAXOS_ACCEPT i b v p \<Longrightarrow> 1 < b \<Longrightarrow> length v < 2 ^ 31 \<Longrightarrow> whole p \<Longrightarrow> dpdk_proposer_rule n s i b v \<Longrightarrow>
     dpdk_step E T port L n s (s\<lparr>dnet := insert (Env, p) (dnet s)\<rparr>)"
| handle: "a < n \<Longrightarrow> (x, p') \<in> dnet s \<Longrightarrow> received p' p \<Longrightarrow> Dpdk_Acceptor.paxos_rx_process E L p (daccs s a) = (q, a', ret) \<Longrightarrow>
     dpdk_step E T port L n s (s\<lparr>daccs := (daccs s)(a := a'),
       dnet := (if ret = 0 then insert (Acc a, q) (dnet s) else dnet s)\<rparr>)"

definition dpdk_start :: "'a acceptor_memory \<Rightarrow> ('a, 'd) deployment \<Rightarrow> bool" where
  "dpdk_start M s \<longleftrightarrow> cur_inst (dcoord s) = 1 \<and> dnet s = {} \<and> (\<forall>a. mem_id M (daccs s a) = of_nat a) \<and>
     (\<forall>a i. mem_promise M (daccs s a) i = 0 \<and> mem_ballot M (daccs s a) i = 0 \<and> mem_value M (daccs s a) i = [])"

text \<open>A value is chosen when a majority of the acceptors sent accepted messages for it with one ballot.\<close>

definition dpdk_chosen :: "nat \<Rightarrow> u32 \<Rightarrow> ('a, 'd) deployment \<Rightarrow> u8 list \<Rightarrow> bool" where
  "dpdk_chosen n i s v \<longleftrightarrow> (\<exists>b Q. majority n Q \<and> (\<forall>a\<in>Q. dpdk_voted i s a b v))"

text \<open>Sets of acceptors by their ids.\<close>

lemma majority_of_ids:
  assumes "n < 2 * card A" "\<And>k. k \<in> A \<Longrightarrow> \<exists>a<n. k = (of_nat a :: u16)"
  shows "majority n {a. a < n \<and> (of_nat a :: u16) \<in> A}" (is "majority n ?Q")
proof -
  have "A \<subseteq> of_nat ` ?Q" using assms(2) by fastforce
  then have "card A \<le> card ?Q" by (rule surj_card_le[rotated]) simp
  then show ?thesis using assms(1) by (auto simp: majority_def)
qed

lemma of_nat_id: "a < n \<Longrightarrow> c < n \<Longrightarrow> n \<le> 2 ^ 16 \<Longrightarrow> (of_nat a :: u16) = of_nat c \<Longrightarrow> a = c"
  by (auto simp: word_unat_eq_iff unsigned_of_nat take_bit_nat_eq_self)

section \<open>The view of an instance\<close>

definition dpdk_view :: "'a acceptor_memory \<Rightarrow> u32 \<Rightarrow> ('a, 'd) deployment \<Rightarrow> (u16, u8 list) spec" where
  "dpdk_view M i s = \<lparr>sprom = (\<lambda>a. mem_promise M (daccs s a) i), svrnd = (\<lambda>a. mem_ballot M (daccs s a) i),
     svval = (\<lambda>a. mem_value M (daccs s a) i), sprops = {(b, v). dpdk_proposed i s b v},
     svotes = {(a, b, v). dpdk_voted i s a b v}, sproms = {(a, b, r, w). dpdk_promised i s a b r w}\<rparr>"

section \<open>What the handlers do to a packet\<close>

lemma length_value_bytes: "length (value_bytes v) = unat (paxos_value_len v)"
  by (simp add: value_bytes_def bytes_at_def)

lemma received_hdr:
  assumes "received p q" "headed p"
  shows "hdr_msgtype PXH (buf q) = hdr_msgtype PXH (buf p)" "hdr_body PXH (buf q) v = hdr_body PXH (buf p) v"
    "hdr_value_len PXH (buf q) = hdr_value_len PXH (buf p)"
  using assms by (simp_all add: received_def headed_def hdr_defs ld16_def ld32_def)

lemma whole_headed: "whole p \<Longrightarrow> headed p"
  by (simp add: whole_def headed_def)

lemma received_says:
  assumes "received p q" "whole p"
  shows "says t i b v q = says t i b v p"
proof -
  note hdr = received_hdr[OF assms(1) whole_headed[OF assms(2)]]
  have "value_bytes (hdr_value PXH (buf q)) = value_bytes (hdr_value PXH (buf p))"
    using assms hdr(3) by (auto simp: value_bytes_def hdr_value_def bytes_at_def from_offset_def received_def whole_def)
  then show ?thesis by (simp add: says_def hdr)
qed

lemma says_whole: "says t i b v p \<Longrightarrow> whole p \<longleftrightarrow> PXH + px_paxosval + length v \<le> unat (pkt_len p)"
  by (auto simp: whole_def says_def length_value_bytes hdr_value_def)

lemmas dpdk_msg_defs = dpdk_proposed_def dpdk_voted_def dpdk_promised_def

lemma says_unique:
  assumes "says t i b v p"
  shows "says t' i' b' v' p \<longleftrightarrow> msg_code t' = msg_code t \<and> i' = i \<and> b' = b \<and> v' = v"
  using assms unfolding says_def by auto

text \<open>The three answers, and a packet that is not answered.\<close>

lemma answer_promise:
  assumes "for_acceptor E p" "paxos_dispatch L (buf p) a = (a', 1, Some out)"
    and ok: "prepare_ok M a m a' out" and small: "length (mem_value M a (iid m)) < 2 ^ 31"
    and run: "Dpdk_Acceptor.paxos_rx_process E L p a = (q, a'', ret)"
  shows "a'' = a'" "ret = 0" "says PAXOS_PROMISE (iid m) (ballot (body out)) (mem_value M a (iid m)) q"
    "names_ballot q = mem_ballot M a (iid m)" "names_acceptor q = mem_id M a"
proof -
  have "unat (mtype out) = msg_code PAXOS_PROMISE" "unat (paxos_value_len (body_value (body out))) < 2 ^ 31"
    using ok small by (simp_all add: prepare_ok_def flip: length_value_bytes)
  from promise_packet[OF assms(1,2) this] run
  have q: "a'' = a'" "ret = 0" "unat (hdr_msgtype PXH (buf q)) = msg_code PAXOS_PROMISE"
    "hdr_body PXH (buf q) (body_value (body out)) = body out"
    "value_bytes (hdr_value PXH (buf q)) = value_bytes (body_value (body out))" by auto
  have "iid (hdr_body PXH (buf q) NULL_value) = iid (body out)" "ballot (hdr_body PXH (buf q) NULL_value) = ballot (body out)"
    "value_ballot (hdr_body PXH (buf q) NULL_value) = value_ballot (body out)"
    "aid (hdr_body PXH (buf q) NULL_value) = aid (body out)"
    using arg_cong[OF q(4), of iid] arg_cong[OF q(4), of ballot] arg_cong[OF q(4), of value_ballot] arg_cong[OF q(4), of aid]
    by (simp_all add: hdr_body_def)
  then show "a'' = a'" "ret = 0" "says PAXOS_PROMISE (iid m) (ballot (body out)) (mem_value M a (iid m)) q"
    "names_ballot q = mem_ballot M a (iid m)" "names_acceptor q = mem_id M a"
    using q ok by (simp_all add: says_def names_ballot_def names_acceptor_def prepare_ok_def)
qed

lemma answer_accepted:
  assumes "for_acceptor E p" "paxos_dispatch L (buf p) a = (a', 1, Some out)"
    and out: "mtype out = of_nat (msg_code PAXOS_ACCEPTED)" and p: "says PAXOS_ACCEPT i b v p"
    and run: "Dpdk_Acceptor.paxos_rx_process E L p a = (q, a'', ret)"
  shows "a'' = a'" "ret = 0" "says PAXOS_ACCEPTED i b v q" "names_acceptor q = aid (body out)"
proof -
  have "unat (mtype out) = msg_code PAXOS_ACCEPTED" using out by simp
  from accepted_packet[OF assms(1,2) this, of NULL_value] run
  show "a'' = a'" "ret = 0" "says PAXOS_ACCEPTED i b v q" "names_acceptor q = aid (body out)"
    using p by (auto simp: says_def names_acceptor_def)
qed

lemma answer_preempted:
  assumes "for_acceptor E p" "paxos_dispatch L (buf p) a = (a', 1, Some out)"
    and out: "mtype out = of_nat (msg_code PAXOS_PREEMPTED)"
    and run: "Dpdk_Acceptor.paxos_rx_process E L p a = (q, a'', ret)"
  shows "a'' = a'" "unat (hdr_msgtype PXH (buf q)) = msg_code PAXOS_PREEMPTED"
proof -
  have "unat (mtype out) = msg_code PAXOS_PREEMPTED" using out by simp
  from preempted_reply[OF assms(1,2) this, of NULL_value] run
  show "a'' = a'" "unat (hdr_msgtype PXH (buf q)) = msg_code PAXOS_PREEMPTED" by auto
qed

lemma acceptor_okD:
  assumes "acceptor_ok L M"
  shows "acceptor_receive_prepare L a p = (a', ret, out) \<Longrightarrow> ret = 1 \<Longrightarrow> prepare_ok M a p a' out"
    "acceptor_receive_prepare L a p = (a', ret, out) \<Longrightarrow> ret \<noteq> 1 \<Longrightarrow> same_memory M a a'"
    "acceptor_receive_accept L a p = (a', ret, out) \<Longrightarrow> ret = 1 \<Longrightarrow> accept_ok M a p a' out"
    "acceptor_receive_accept L a p = (a', ret, out) \<Longrightarrow> ret \<noteq> 1 \<Longrightarrow> same_memory M a a'"
  using assms unfolding acceptor_ok_def by metis+

lemma silent_dispatch:
  assumes "acceptor_ok L M" "paxos_dispatch L m a = (a', ret, out)" "ret \<noteq> 1"
  shows "same_memory M a a'"
  using assms(2,3) acceptor_okD(2,4)[OF assms(1)]
  by (auto simp: paxos_dispatch_def Let_def same_memory_def split: prod.splits if_splits)

lemma handled_cases:
  assumes ok: "acceptor_ok L M" and small: "\<And>i. length (mem_value M a i) < 2 ^ 31"
    and run: "Dpdk_Acceptor.paxos_rx_process E L p a = (q, a', ret)"
  obtains (silent) "same_memory M a a'" "ret \<noteq> 0"
  | (preempted) "same_memory M a a'" "unat (hdr_msgtype PXH (buf q)) = msg_code PAXOS_PREEMPTED"
  | (promise) i b where "ret = 0" "mem_promise M a i \<le> b" "says PAXOS_PROMISE i b (mem_value M a i) q"
      "names_ballot q = mem_ballot M a i" "names_acceptor q = mem_id M a" "mem_id M a' = mem_id M a" "mem_promise M a' = (mem_promise M a)(i := b)"
      "mem_ballot M a' = mem_ballot M a" "mem_value M a' = mem_value M a"
  | (vote) i b v where "ret = 0" "mem_promise M a i \<le> b" "says PAXOS_ACCEPT i b v p" "says PAXOS_ACCEPTED i b v q"
      "names_acceptor q = mem_id M a" "mem_id M a' = mem_id M a" "mem_promise M a' = (mem_promise M a)(i := b)" "mem_ballot M a' = (mem_ballot M a)(i := b)"
      "mem_value M a' = (mem_value M a)(i := v)"
proof (cases "for_acceptor E p \<and> fst (snd (paxos_dispatch L (buf p) a)) = 1")
  case False
  have "same_memory M a a' \<and> ret \<noteq> 0"
    using False run silent_dispatch[OF ok]
    by (auto simp: Dpdk_Acceptor.paxos_rx_process_def for_acceptor_def same_memory_def
        Let_def split: prod.splits if_splits option.splits)
  then show thesis using silent by blast
next
  case True
  let ?m = "hdr_body PXH (buf p) NULL_value" and ?v = "hdr_value PXH (buf p)"
  consider (prep) b out where "acceptor_receive_prepare L a ?m = (b, 1, out)" "paxos_dispatch L (buf p) a = (b, 1, Some out)"
    | (acc) b out where "acceptor_receive_accept L a (?m\<lparr>body_value := ?v\<rparr>) = (b, 1, out)"
        "unat (hdr_msgtype PXH (buf p)) = msg_code PAXOS_ACCEPT" "paxos_dispatch L (buf p) a = (b, 1, Some out)"
    using True by (auto simp: paxos_dispatch_def hdr_body_def Let_def split: prod.splits if_splits)
  then show thesis
  proof cases
    case prep
    have p: "prepare_ok M a ?m b out" by (rule acceptor_okD(1)[OF ok prep(1) refl])
    note q = answer_promise[OF conjunct1[OF True] prep(2) p small run]
    show thesis
      by (rule promise[OF q(2) _ q(3,4,5)]) (use p q(1) in \<open>auto simp: prepare_ok_def\<close>)
  next
    case acc
    have p: "accept_ok M a (?m\<lparr>body_value := ?v\<rparr>) b out" by (rule acceptor_okD(3)[OF ok acc(1) refl])
    have s: "says PAXOS_ACCEPT (iid ?m) (ballot ?m) (value_bytes ?v) p" using acc(2) by (simp add: says_def)
    show thesis
    proof (cases "mem_promise M a (iid ?m) \<le> ballot ?m")
      case True
      then have "mtype out = of_nat (msg_code PAXOS_ACCEPTED)" using p by (simp add: accept_ok_def)
      note q = answer_accepted[OF conjunct1[OF \<open>for_acceptor E p \<and> _\<close>] acc(3) this s run]
      show thesis by (rule vote[OF q(2) True s q(3)]) (use p q(1,4) True in \<open>simp_all add: accept_ok_def\<close>)
    next
      case False
      then have o: "mtype out = of_nat (msg_code PAXOS_PREEMPTED)" "same_memory M a b" using p by (simp_all add: accept_ok_def)
      note q = answer_preempted[OF conjunct1[OF True] acc(3) o(1) run]
      show thesis by (rule preempted[OF _ q(2)]) (use o q(1) in simp)
    qed
  qed
qed

lemma numbered_request:
  assumes "says PAXOS_ACCEPT i b v p" "is_request E p"
    and "Dpdk_Coordinator.paxos_rx_process E T port p c = (q, c', ret)"
  shows "says PAXOS_ACCEPT (cur_inst c) b v q" "cur_inst c' = cur_inst c + 1" "for_acceptor E q" "pkt_len q = pkt_len p"
  using assms
  by (auto simp: Dpdk_Coordinator.paxos_rx_process_def is_request_def is_udp_def Let_def says_def hdr_defs
      for_acceptor_def proto_kept sequence_request_fields inst_of_sequenced)

section \<open>Refinement of the specification\<close>

text \<open>
  The invariant: libpaxos keeps its contract, ballot 1 belongs to the coordinator, which has used it only
  below its counter, no value is too long for the answers, and every packet holds what it says it holds;
  promises and accepted messages come from acceptors and name them.
\<close>

definition packet_ok :: "nat \<Rightarrow> sender \<Rightarrow> mbuf \<Rightarrow> bool" where
  "packet_ok n x p \<longleftrightarrow> (let t = unat (hdr_msgtype PXH (buf p)) in
     headed p \<and> (t \<in> {msg_code PAXOS_ACCEPT, msg_code PAXOS_ACCEPTED} \<longrightarrow> whole p)
     \<and> (t \<in> {msg_code PAXOS_PROMISE, msg_code PAXOS_ACCEPTED} \<longrightarrow> (\<exists>a<n. x = Acc a \<and> names_acceptor p = of_nat a)))"

definition dpdk_inv :: "nat \<Rightarrow> 'a acceptor_api \<Rightarrow> 'a acceptor_memory \<Rightarrow> ('a, 'd) deployment \<Rightarrow> bool" where
  "dpdk_inv n L M s \<longleftrightarrow> acceptor_ok L M \<and> (\<forall>i v. dpdk_proposed i s 1 v \<longrightarrow> i < cur_inst (dcoord s))
     \<and> (\<forall>i b v. dpdk_proposed i s b v \<longrightarrow> length v < 2 ^ 31) \<and> (\<forall>a i. length (mem_value M (daccs s a) i) < 2 ^ 31)
     \<and> (\<forall>a. mem_id M (daccs s a) = of_nat a) \<and> (\<forall>x p. (x, p) \<in> dnet s \<longrightarrow> packet_ok n x p)"

lemma dpdk_msg_insert:
  assumes "dnet t = insert (x, p) (dnet s)"
  shows "dpdk_proposed i t b v \<longleftrightarrow> dpdk_proposed i s b v \<or> says PAXOS_ACCEPT i b v p"
    "dpdk_voted i t a b v \<longleftrightarrow> dpdk_voted i s a b v \<or> x = Acc a \<and> says PAXOS_ACCEPTED i b v p"
    "dpdk_promised i t a b r w \<longleftrightarrow> dpdk_promised i s a b r w
       \<or> x = Acc a \<and> says PAXOS_PROMISE i b w p \<and> names_ballot p = r"
  using assms by (auto simp: dpdk_msg_defs)

text \<open>What a step has to show of the invariant.\<close>

lemma dpdk_inv_packet:
  assumes "dpdk_inv n L M s" "dcoord t = c" "daccs t = daccs s" "dnet t = insert (x, p) (dnet s)"
    and "cur_inst (dcoord s) \<le> cur_inst c" "packet_ok n x p"
    and "\<And>i b v. says PAXOS_ACCEPT i b v p \<Longrightarrow> length v < 2 ^ 31 \<and> (b = 1 \<longrightarrow> i < cur_inst c)"
  shows "dpdk_inv n L M t"
proof -
  have "length v < 2 ^ 31 \<and> (b = 1 \<longrightarrow> i < cur_inst c)" if "dpdk_proposed i t b v" for i b v
    using that assms(1,5,7) by (auto simp: dpdk_msg_insert(1)[OF assms(4)] dpdk_inv_def intro: order.strict_trans2)
  then show ?thesis using assms(1-4,6) by (auto simp: dpdk_inv_def)
qed

lemma dpdk_inv_answer:
  assumes "dpdk_inv n L M s" "dcoord t = dcoord s" "daccs t = (daccs s)(a := a')"
    and net: "dnet t = insert (Acc a, q) (dnet s) \<and> packet_ok n (Acc a) q
        \<and> unat (hdr_msgtype PXH (buf q)) \<noteq> msg_code PAXOS_ACCEPT \<or> dnet t = dnet s"
    and "mem_id M a' = mem_id M (daccs s a)" "\<And>i. length (mem_value M a' i) < 2 ^ 31"
  shows "dpdk_inv n L M t"
proof -
  have "dpdk_proposed i t b v = dpdk_proposed i s b v" for i b v
    using net
  proof (elim disjE conjE)
    assume "dnet t = insert (Acc a, q) (dnet s)" "unat (hdr_msgtype PXH (buf q)) \<noteq> msg_code PAXOS_ACCEPT"
    then show ?thesis by (simp add: dpdk_msg_insert(1)[of t "Acc a" q s] says_def)
  qed (simp add: dpdk_proposed_def)
  moreover have "packet_ok n x p" if "(x, p) \<in> dnet t" for x p using net that assms(1) by (auto simp: dpdk_inv_def)
  ultimately show ?thesis using assms(1,2,3,5,6) by (simp add: dpdk_inv_def)
qed

lemma says_other: "unat (hdr_msgtype PXH (buf p)) = msg_code t' \<Longrightarrow> msg_code t \<noteq> msg_code t' \<Longrightarrow> \<not> says t i b v p"
  by (simp add: says_def)

lemma dpdk_rule_view:
  assumes "dpdk_proposer_rule n s i b v"
  shows "dpdk_proposed i s b w \<Longrightarrow> w = v" "phase2_rule n (dpdk_view M i s) b v"
proof -
  show "dpdk_proposed i s b w \<Longrightarrow> w = v" using assms by (simp add: dpdk_proposer_rule_def)
  obtain Q r w where Q: "majority n Q" "\<forall>a\<in>Q. \<exists>q. (Acc a, q) \<in> dnet s \<and> says PAXOS_PROMISE i b (w a) q
      \<and> names_ballot q = r a \<and> whole q"
    and top: "(\<forall>a\<in>Q. r a = 0) \<or> (\<exists>a\<in>Q. r a \<noteq> 0 \<and> w a = v \<and> (\<forall>a'\<in>Q. r a' \<le> r a))"
    using assms unfolding dpdk_proposer_rule_def by (elim conjE exE)
  have "\<forall>a\<in>Q. (a, b, r a, w a) \<in> sproms (dpdk_view M i s)" using Q(2) by (auto simp: dpdk_view_def dpdk_promised_def)
  with Q(1) top show "phase2_rule n (dpdk_view M i s) b v"
    unfolding phase2_rule_def by (intro exI[of _ Q] exI[of _ r] exI[of _ w] conjI)
qed

lemma dpdk_propose:
  assumes acc: "daccs t = daccs s" and net: "dnet t = insert (x, p) (dnet s)" and x: "\<forall>a. x \<noteq> Acc a"
    and p: "says PAXOS_ACCEPT j b v p" "0 < b" "\<And>w. dpdk_proposed j s b w \<Longrightarrow> w = v"
    and rule: "b = 1 \<or> phase2_rule n (dpdk_view M j s) b v"
  shows "spec_step n (dpdk_view M i s) (dpdk_view M i t)"
proof (rule spec_propose_if)
  show "dpdk_view M i t = (if i = j
      then (dpdk_view M i s)\<lparr>sprops := insert (b, v) (sprops (dpdk_view M i s))\<rparr> else dpdk_view M i s)"
    using x acc by (auto simp: dpdk_view_def dpdk_msg_insert[OF net] says_unique[OF p(1)])
  show "(\<forall>c. 0 < c \<longrightarrow> b \<le> c) \<or> phase2_rule n (dpdk_view M i s) b v" if "i = j"
    using rule that by (auto simp: word_le_nat_alt word_less_nat_alt)
  show "w = v" if "i = j" "(b, w) \<in> sprops (dpdk_view M i s)" for w
    using p(3) that by (simp add: dpdk_view_def)
qed (rule p(2))

lemma answer_packet_ok:
  assumes "dpdk_inv n L M s" "(x, p') \<in> dnet s" "received p' p" "a < n"
    and run: "Dpdk_Acceptor.paxos_rx_process E L p (daccs s a) = (q, a', ret)"
    and q: "unat (hdr_msgtype PXH (buf q)) \<noteq> msg_code PAXOS_ACCEPT"
      "unat (hdr_msgtype PXH (buf q)) \<in> {msg_code PAXOS_PROMISE, msg_code PAXOS_ACCEPTED} \<Longrightarrow> names_acceptor q = of_nat a"
      "unat (hdr_msgtype PXH (buf q)) = msg_code PAXOS_ACCEPTED \<Longrightarrow>
        \<exists>i b v. says PAXOS_ACCEPT i b v p \<and> says PAXOS_ACCEPTED i b v q"
  shows "packet_ok n (Acc a) q"
proof -
  have ok: "packet_ok n x p'" using assms(1,2) by (simp add: dpdk_inv_def)
  have len: "pkt_len q = pkt_len p'" "headed p'"
    using reply_lengths_kept[of E L p "daccs s a"] run assms(3) ok
    by (simp_all add: wire_lengths_def received_def packet_ok_def Let_def)
  have "whole q" if s: "says PAXOS_ACCEPT i b v p" "says PAXOS_ACCEPTED i b v q" for i b v
  proof -
    have w: "whole p'" using s(1) ok received_hdr(1)[OF assms(3) len(2)] by (simp add: says_def packet_ok_def Let_def)
    then have "says PAXOS_ACCEPT i b v p'" using s(1) received_says[OF assms(3)] by simp
    then show ?thesis using w says_whole says_whole[OF s(2)] len(1) by simp
  qed
  then show ?thesis using q len assms(4) by (auto simp: packet_ok_def headed_def Let_def)
qed

lemma dpdk_handle:
  assumes inv: "dpdk_inv n L M s" and a: "a < n" and p: "(x, p') \<in> dnet s" "received p' p"
    and run: "Dpdk_Acceptor.paxos_rx_process E L p (daccs s a) = (q, a', ret)"
  defines "t \<equiv> s\<lparr>daccs := (daccs s)(a := a'), dnet := (if ret = 0 then insert (Acc a, q) (dnet s) else dnet s)\<rparr>"
  shows "spec_step n (dpdk_view M i s) (dpdk_view M i t) \<and> dpdk_inv n L M t"
proof -
  have ok: "acceptor_ok L M" and small: "\<And>i. length (mem_value M (daccs s a) i) < 2 ^ 31"
    and id: "mem_id M (daccs s a) = of_nat a"
    using inv by (simp_all add: dpdk_inv_def)
  have net: "dnet t = insert (Acc a, q) (dnet s)" if "ret = 0" using that by (simp add: t_def)
  have acc: "daccs t = (daccs s)(a := a')" "dcoord t = dcoord s" by (simp_all add: t_def)
  note packet = answer_packet_ok[OF inv p a run] and keep = dpdk_inv_answer[where q = q, OF inv acc(2,1)]
  from ok small run show ?thesis
  proof (cases rule: handled_cases)
    case silent
    then have "dpdk_view M i t = dpdk_view M i s"
      by (auto simp: dpdk_view_def dpdk_msg_defs t_def same_memory_def fun_eq_iff)
    moreover have "dpdk_inv n L M t" using silent small by (intro keep) (simp_all add: t_def same_memory_def)
    ultimately show ?thesis by (simp add: spec_step.stutter)
  next
    case preempted
    have "\<not> says t' j b v q" if "msg_code t' \<noteq> 4" for t' j b v using says_other[OF preempted(2)] that by simp
    then have "dpdk_view M i t = dpdk_view M i s"
      using preempted(1) by (auto simp: dpdk_view_def dpdk_msg_defs t_def same_memory_def fun_eq_iff)
    moreover have "dpdk_inv n L M t"
      using preempted packet small by (intro keep) (simp_all add: t_def same_memory_def)
    ultimately show ?thesis by (simp add: spec_step.stutter)
  next
    case (promise j b)
    note msg = dpdk_msg_insert[OF net[OF promise(1)]] says_unique[OF promise(3)]
    have "dpdk_view M i t = (if i = j then (dpdk_view M i s)\<lparr>sprom := (sprom (dpdk_view M i s))(a := b),
        sproms := insert (a, b, svrnd (dpdk_view M i s) a, svval (dpdk_view M i s) a) (sproms (dpdk_view M i s))\<rparr>
      else dpdk_view M i s)"
      using promise by (auto simp: dpdk_view_def msg acc fun_eq_iff)
    then have "spec_step n (dpdk_view M i s) (dpdk_view M i t)"
      by (rule spec_promise_if[OF _ a]) (use promise(2) in \<open>simp add: dpdk_view_def\<close>)
    moreover have "unat (hdr_msgtype PXH (buf q)) = msg_code PAXOS_PROMISE" using promise(3) by (simp add: says_def)
    then have "dpdk_inv n L M t" using promise id packet small by (intro keep) (simp_all add: net)
    ultimately show ?thesis ..
  next
    case (vote j b v)
    note msg = dpdk_msg_insert[OF net[OF vote(1)]] says_unique[OF vote(4)]
    have type: "unat (hdr_msgtype PXH (buf q)) = msg_code PAXOS_ACCEPTED" using vote(4) by (simp add: says_def)
    have "packet_ok n x p'" using inv p(1) by (simp add: dpdk_inv_def)
    then have "whole p'" using vote(3) received_hdr(1)[OF p(2)] by (simp add: says_def packet_ok_def Let_def)
    then have "says PAXOS_ACCEPT j b v p'" using received_says[OF p(2)] vote(3) by simp
    then have pro: "dpdk_proposed j s b v" using p(1) by (auto simp: dpdk_proposed_def)
    then have "length v < 2 ^ 31" using inv by (simp add: dpdk_inv_def)
    then have "dpdk_inv n L M t" using vote id packet small type by (intro keep) (auto simp: net)
    moreover have "dpdk_view M i t = (if i = j then (dpdk_view M i s)\<lparr>sprom := (sprom (dpdk_view M i s))(a := b),
        svrnd := (svrnd (dpdk_view M i s))(a := b), svval := (svval (dpdk_view M i s))(a := v),
        svotes := insert (a, b, v) (svotes (dpdk_view M i s))\<rparr> else dpdk_view M i s)"
      using vote by (auto simp: dpdk_view_def msg acc fun_eq_iff)
    then have "spec_step n (dpdk_view M i s) (dpdk_view M i t)"
      by (rule spec_vote_if[OF _ a]) (use vote(2) pro in \<open>simp_all add: dpdk_view_def\<close>)
    ultimately show ?thesis by blast
  qed
qed

lemma dpdk_step_refines:
  assumes "dpdk_step E T port L n s t" "dpdk_inv n L M s"
  shows "spec_step n (dpdk_view M i s) (dpdk_view M i t) \<and> dpdk_inv n L M t"
  using assms
proof (induction rule: dpdk_step.induct)
  case (prepare p s)
  let ?t = "s\<lparr>dnet := insert (Env, p) (dnet s)\<rparr>"
  have no: "\<not> says PAXOS_ACCEPT j b v p" for j b v using says_other[OF prepare.hyps(1)] by simp
  then have "dpdk_view M i ?t = dpdk_view M i s" by (simp add: dpdk_view_def dpdk_msg_insert[of ?t Env p s])
  moreover have "dpdk_inv n L M ?t"
    by (rule dpdk_inv_packet[OF prepare.prems, of ?t "dcoord s" Env p]) (use prepare.hyps no in \<open>auto simp: packet_ok_def Let_def\<close>)
  ultimately show ?case by (simp add: spec_step.stutter)
next
  case (request j v p s q c ret)
  let ?t = "s\<lparr>dcoord := c, dnet := insert (Coord, q) (dnet s)\<rparr>"
  note q = numbered_request[OF request.hyps(1,4,6)]
  have less: "cur_inst (dcoord s) < cur_inst c" using q(2) word_less_Suc[OF request.hyps(5)] by simp
  have fresh: "\<not> dpdk_proposed (cur_inst (dcoord s)) s 1 w" for w using request.prems by (auto simp: dpdk_inv_def)
  have "spec_step n (dpdk_view M i s) (dpdk_view M i ?t)"
    by (rule dpdk_propose[OF _ _ _ q(1), of ?t s Coord]) (use fresh in auto)
  moreover have "whole q" using request.hyps(3) says_whole[OF request.hyps(1)] says_whole[OF q(1)] q(4) by simp
  then have "packet_ok n Coord q" using q(1) by (auto simp: packet_ok_def says_def whole_headed Let_def)
  then have "dpdk_inv n L M ?t"
    by (intro dpdk_inv_packet[OF request.prems, of ?t c Coord q]) (use request.hyps(2) less in \<open>auto simp: says_unique[OF q(1)]\<close>)
  ultimately show ?case by blast
next
  case (recover j b v p s)
  let ?t = "s\<lparr>dnet := insert (Env, p) (dnet s)\<rparr>"
  have "0 < b" using recover.hyps(2) by (simp add: word_less_nat_alt)
  then have "spec_step n (dpdk_view M i s) (dpdk_view M i ?t)"
    using dpdk_rule_view[OF recover.hyps(5)] by (intro dpdk_propose[OF _ _ _ recover.hyps(1), of ?t s Env]) auto
  moreover have "packet_ok n Env p"
    using recover.hyps(1,4) by (auto simp: packet_ok_def says_def whole_headed Let_def)
  then have "dpdk_inv n L M ?t"
    by (intro dpdk_inv_packet[OF recover.prems, of ?t "dcoord s" Env p])
      (use recover.hyps(2,3) in \<open>auto simp: says_unique[OF recover.hyps(1)]\<close>)
  ultimately show ?case by blast
next
  case (handle a x p' s p q a' ret)
  show ?case by (rule dpdk_handle[OF handle.prems handle.hyps])
qed

lemma dpdk_start_inv: "acceptor_ok L M \<and> dpdk_start M s \<Longrightarrow> dpdk_inv n L M s"
  by (simp add: dpdk_inv_def dpdk_start_def dpdk_proposed_def)

lemma dpdk_start_view: "dpdk_start M s \<Longrightarrow> \<exists>v. dpdk_view M i s = spec_init v"
  by (simp add: dpdk_view_def dpdk_start_def spec_init_def dpdk_msg_defs)

text \<open>The deployment implements the specification of Paxos, for every libpaxos that keeps the contract.\<close>

interpretation dpdk: paxos_implementation n "\<lambda>s. acceptor_ok L M \<and> dpdk_start M s" "dpdk_step E T port L n" "dpdk_inv n L M"
  "dpdk_view M" for E T port L M n
proof unfold_locales
  fix s i
  assume s: "acceptor_ok L M \<and> dpdk_start M s"
  show "dpdk_inv n L M s" by (rule dpdk_start_inv[OF s])
  show "\<exists>v. dpdk_view M i s = spec_init v" by (rule dpdk_start_view[OF conjunct2[OF s]])
next
  fix s t i
  assume s: "dpdk_inv n L M s" "dpdk_step E T port L n s t"
  show "dpdk_inv n L M t" by (rule conjunct2[OF dpdk_step_refines[OF s(2,1)]])
  show "spec_step n (dpdk_view M i s) (dpdk_view M i t)" by (rule conjunct1[OF dpdk_step_refines[OF s(2,1)]])
qed

lemma dpdk_chosen_view: "dpdk_chosen n i s v \<longleftrightarrow> spec_chosen n (dpdk_view M i s) v"
  by (simp add: dpdk_chosen_def spec_chosen_def dpdk_view_def)

section \<open>Agreement\<close>

text \<open>C3: Agreement between the learners of a DPDK deployment: with an acceptor of libpaxos that keeps its contract,
  however packets are lost, duplicated and reordered, and whichever of them an acceptor is handed, the
  accepted messages on the wire never give a majority to two different values of an instance; and a
  value that has its majority keeps it in every later state.\<close>

theorem dpdk_agreement:
  assumes "acceptor_ok L M" "dpdk_start M s" "(dpdk_step E T port L n)\<^sup>*\<^sup>* s t" "(dpdk_step E T port L n)\<^sup>*\<^sup>* t u"
    and "dpdk_chosen n i t v"
  shows "dpdk_chosen n i u v \<and> (\<forall>w. dpdk_chosen n i u w \<longrightarrow> w = v)"
proof -
  have s: "acceptor_ok L M \<and> dpdk_start M s" using assms(1,2) ..
  have "spec_chosen n (dpdk_view M i t) v" using assms(5) unfolding dpdk_chosen_view[where M = M] .
  then have v: "spec_chosen n (dpdk_view M i u) v" by (rule dpdk.chosen_final[OF s assms(3,4)])
  have "w = v" if "spec_chosen n (dpdk_view M i u) w" for w
    by (rule dpdk.agreement[OF s rtranclp_trans[OF assms(3,4)] that v])
  with v show ?thesis unfolding dpdk_chosen_view[where M = M] by blast
qed

subsection \<open>A run\<close>

text \<open>An acceptor that keeps its contract in a map; one request, numbered by the coordinator and voted for by the only acceptor.\<close>

type_synonym map_state = "u16 \<times> (u32 \<Rightarrow> u16 \<times> u16 \<times> paxos_value)"

definition map_acceptor :: "map_state acceptor_api" where
  "map_acceptor = \<lparr>
     acceptor_receive_prepare = (\<lambda>(k, a) p. case a (iid p) of (pr, vb, v) \<Rightarrow>
       ((k, a(iid p := (max pr (ballot p), vb, v))), 1, \<lparr>mtype = 1, body = \<lparr>iid = iid p, ballot = max pr (ballot p),
          value_ballot = vb, aid = k, body_value = v\<rparr>\<rparr>)),
     acceptor_receive_accept = (\<lambda>(k, a) p. case a (iid p) of (pr, vb, v) \<Rightarrow>
       if pr \<le> ballot p then ((k, a(iid p := (ballot p, ballot p, body_value p))), 1, \<lparr>mtype = 3, body = p\<lparr>aid := k\<rparr>\<rparr>)
       else ((k, a), 1, \<lparr>mtype = 4, body = p\<lparr>ballot := pr, value_ballot := vb, aid := k\<rparr>\<rparr>))\<rparr>"

definition map_memory :: "map_state acceptor_memory" where
  "map_memory = \<lparr>mem_id = fst, mem_promise = (\<lambda>a i. fst (snd a i)), mem_ballot = (\<lambda>a i. fst (snd (snd a i))),
     mem_value = (\<lambda>a i. value_bytes (snd (snd (snd a i))))\<rparr>"

lemma map_acceptor_ok: "acceptor_ok map_acceptor map_memory"
  by (auto simp: acceptor_ok_def map_acceptor_def map_memory_def prepare_ok_def accept_ok_def same_memory_def
      split: prod.splits if_splits)

definition example_deployment :: "(map_state, nat) deployment" where
  "example_deployment = \<lparr>dcoord = init_coordinator 0, daccs = (\<lambda>a. (of_nat a, \<lambda>_. (0, 0, NULL_value))), dnet = {}\<rparr>"

lemma example_deployment_start: "dpdk_start map_memory example_deployment"
  by (simp add: dpdk_start_def example_deployment_def map_memory_def init_coordinator_def value_bytes_def NULL_value_def
      bytes_at_def)

text \<open>The packets \<^verbatim>\<open>add_paxos_message\<close> builds hold what they say; a client's is a request the coordinator takes.\<close>

lemma sent_accept:
  assumes "unat (mtype pm) = msg_code PAXOS_ACCEPT" "length (value_bytes (body_value (body pm))) + 54 < 2 ^ 16"
    and p: "p = add_paxos_message E pm pkt sport dport dst"
  shows "says PAXOS_ACCEPT (iid (body pm)) (ballot (body pm)) (value_bytes (body_value (body pm))) p" "whole p"
proof -
  have small: "unat (paxos_value_len (body_value (body pm))) < 2 ^ 31" "unat (paxos_value_len (body_value (body pm))) + 54 < 2 ^ 16"
    using assms(2) by (simp_all add: length_value_bytes)
  have type: "mtype pm = 2" using assms(1) by (simp add: word_unat_eq_iff)
  show "says PAXOS_ACCEPT (iid (body pm)) (ballot (body pm)) (value_bytes (body_value (body pm))) p"
    using sent_hdr[OF small(1)] sent_value_bytes[OF small(1)] by (simp add: says_def p type)
  then show "whole p"
    using add_paxos_message_lengths[OF p refl small(2)] by (simp add: says_whole length_value_bytes)
qed

lemma client_request: "is_request E (add_paxos_message E pm pkt sport COORDINATOR_PORT dst)"
  by (simp add: is_request_def is_udp_def add_paxos_message_def craft_new_packet_def Let_def mem_simps)

lemma one_vote_run:
  fixes pm :: paxos_message
  assumes "unat (mtype pm) = msg_code PAXOS_ACCEPT" "ballot (body pm) = 1" "length (value_bytes (body_value (body pm))) + 54 < 2 ^ 16"
  defines "v \<equiv> value_bytes (body_value (body pm))"
  obtains t r where "(dpdk_step example_env counting_buffer 0 map_acceptor 1)\<^sup>*\<^sup>* example_deployment t"
    "(Acc 0, r) \<in> dnet t" "says PAXOS_ACCEPTED 1 1 v r" "names_acceptor r = 0" "sent_to_learners r"
    "buf r (IPH + ip_next_proto_id) = IPPROTO_UDP" "dpdk_chosen 1 1 t v"
proof -
  let ?step = "dpdk_step example_env counting_buffer 0 map_acceptor 1" and ?a = "(0, \<lambda>_. (0, 0, NULL_value)) :: map_state"
  let ?p = "add_paxos_message example_env pm example_mbuf 12345 COORDINATOR_PORT COORDINATOR_ADDR"
  note p = sent_accept[OF assms(1,3) refl, of example_env example_mbuf 12345 COORDINATOR_PORT COORDINATOR_ADDR,
    unfolded assms(2), folded v_def] client_request[of example_env pm example_mbuf 12345 COORDINATOR_ADDR]
  obtain q c ret where q: "Dpdk_Coordinator.paxos_rx_process example_env counting_buffer 0 ?p (init_coordinator 0) = (q, c, ret)"
    by (meson prod_cases3)
  note n = numbered_request[OF p(1,3) q]
  let ?s = "example_deployment\<lparr>dcoord := c, dnet := {(Coord, q)}\<rparr>"
  have 1: "?step example_deployment ?s"
    using dpdk_step.request[OF p(1) _ p(2,3), of example_deployment counting_buffer 0 q c ret] q assms(3)
    by (simp add: example_deployment_def init_coordinator_def v_def)
  obtain a r ret' where r: "Dpdk_Acceptor.paxos_rx_process example_env map_acceptor q ?a = (r, a, ret')"
    by (meson prod_cases3)
  have "\<exists>b out. paxos_dispatch map_acceptor (buf q) ?a = (b, 1, Some out) \<and> mtype out = of_nat (msg_code PAXOS_ACCEPTED)
      \<and> aid (body out) = 0"
    using n(1) by (simp add: paxos_dispatch_def says_def map_acceptor_def)
  then obtain b out where out: "paxos_dispatch map_acceptor (buf q) ?a = (b, 1, Some out)"
    "mtype out = of_nat (msg_code PAXOS_ACCEPTED)" "aid (body out) = 0" by blast
  note v = answer_accepted[OF n(3) out(1,2) n(1) r]
  have "sent_to_learners r" using rx_process_reply[OF n(3) out(1)] r by (metis fst_conv)
  moreover have "buf r (IPH + ip_next_proto_id) = IPPROTO_UDP"
    using rx_process_proto[of example_env map_acceptor q ?a] r n(3) by (simp add: for_acceptor_def)
  moreover let ?t = "?s\<lparr>daccs := (daccs ?s)(0 := a), dnet := insert (Acc 0, r) (dnet ?s)\<rparr>"
  from dpdk_step.handle[of 0 1 Coord q ?s q example_env map_acceptor r a ret'] r v(2)
  have "?step ?s ?t" by (simp add: example_deployment_def received_def)
  then have "?step\<^sup>*\<^sup>* example_deployment ?t" using 1 by (meson converse_rtranclp_into_rtranclp r_into_rtranclp)
  moreover have says: "says PAXOS_ACCEPTED 1 1 v r" using v(3) by (simp add: init_coordinator_def)
  moreover have "dpdk_chosen 1 1 ?t v"
    unfolding dpdk_chosen_def majority_def dpdk_voted_def
    by (rule exI[of _ 1], rule exI[of _ "{0}"]) (use says in auto)
  ultimately show thesis using that[of ?t r] v(4) out(3) by simp
qed

theorem dpdk_agreement_witness:
  "\<exists>t. (dpdk_step example_env counting_buffer 0 map_acceptor 1)\<^sup>*\<^sup>* example_deployment t
     \<and> {v. dpdk_chosen 1 1 t v} = {[1, 2, 3]}"
proof -
  have v: "value_bytes (body_value (body example_message)) = [1, 2, 3]"
    by (simp add: example_message_def value_bytes_def bytes_at_def upt_rec)
  obtain t where t: "(dpdk_step example_env counting_buffer 0 map_acceptor 1)\<^sup>*\<^sup>* example_deployment t"
    "dpdk_chosen 1 1 t [1, 2, 3]"
    by (rule one_vote_run[of example_message, unfolded v]) (simp_all add: example_message_def)
  from dpdk_agreement[OF map_acceptor_ok example_deployment_start t(1) rtranclp.rtrancl_refl t(2)] t
  show ?thesis by blast
qed

end
