(* ===== verification/Learner_Args.thy ===== *)
theory Learner_Args
  imports Dpdk_Host
begin

text \<open>
  \<^verbatim>\<open>args.c\<close> of the learner, of which the backup has an identical copy: the command line of the two
  programs.
\<close>

record learner_config =
  cfg_learner_id :: int
  cfg_nb_learners :: int
  cfg_nb_acceptors :: int
  cfg_level_db :: int

fun parse_opts :: "getopt \<Rightarrow> learner_config \<Rightarrow> learner_config parsed" where
  "parse_opts [] cfg = Inr cfg"
| "parse_opts ((opt, optarg) # opts) cfg =
    (if opt = CHR ''i'' then parse_opts opts (cfg\<lparr>cfg_learner_id := atoi optarg\<rparr>)
     else if opt = CHR ''a'' then parse_opts opts (cfg\<lparr>cfg_nb_acceptors := atoi optarg\<rparr>)
     else if opt = CHR ''n'' then parse_opts opts (cfg\<lparr>cfg_nb_learners := atoi optarg\<rparr>)
     else if opt = CHR ''l'' then parse_opts opts (cfg\<lparr>cfg_level_db := 1\<rparr>)
     else Inl ''Invalid option specified'')"

definition parse_args :: "getopt \<Rightarrow> learner_config parsed" where
  "parse_args opts =
    (case parse_opts opts \<lparr>cfg_learner_id = 0, cfg_nb_learners = 1, cfg_nb_acceptors = 1, cfg_level_db = 0\<rparr> of
       Inl e \<Rightarrow> Inl e
     | Inr cfg \<Rightarrow> if cfg_learner_id cfg \<ge> cfg_nb_learners cfg then Inl ''Learner ID is invalid'' else Inr cfg)"

text \<open>A learner that starts has an id below the number of learners.\<close>

lemma parse_args_learner_id: "parse_args opts = Inr cfg \<Longrightarrow> cfg_learner_id cfg < cfg_nb_learners cfg"
  unfolding parse_args_def by (cases "parse_opts opts \<lparr>cfg_learner_id = 0, cfg_nb_learners = 1, cfg_nb_acceptors = 1, cfg_level_db = 0\<rparr>")
    (simp_all split: if_split_asm)

end
