(* ===== verification/Client_Message.thy ===== *)
theory Client_Message
  imports Dpdk_Base
begin

text \<open>
  \<^verbatim>\<open>message.h\<close> and \<^verbatim>\<open>message.c\<close> (the learner and the learner's packet generator have the same copy):
  the request a client sends, a command behind a length and the client's address.
\<close>

section \<open>Layout\<close>

text \<open>\<^verbatim>\<open>struct client_request\<close>, packed: length (2), \<^verbatim>\<open>sockaddr_in\<close> (16), content (1).\<close>

definition sizeof_client_request :: nat where "sizeof_client_request = 19"

abbreviation (input) req_length :: nat where "req_length \<equiv> 0"
abbreviation (input) req_sin_port :: nat where "req_sin_port \<equiv> 4"
abbreviation (input) req_sin_addr :: nat where "req_sin_addr \<equiv> 6"
abbreviation (input) req_content :: nat where "req_content \<equiv> 18"

text \<open>\<^verbatim>\<open>struct command\<close>: a \<^verbatim>\<open>timespec\<close> (16), the id (2, padded to 4), the operation (4), content (32).\<close>

definition sizeof_command :: nat where "sizeof_command = 56"

abbreviation (input) cmd_tv_sec :: nat where "cmd_tv_sec \<equiv> 0"
abbreviation (input) cmd_tv_nsec :: nat where "cmd_tv_nsec \<equiv> 8"
abbreviation (input) cmd_command_id :: nat where "cmd_command_id \<equiv> 16"
abbreviation (input) cmd_op :: nat where "cmd_op \<equiv> 20"
abbreviation (input) cmd_content :: nat where "cmd_content \<equiv> 24"

datatype Operation = GET | SET

fun op_code :: "Operation \<Rightarrow> u32" where
  "op_code GET = 0"
| "op_code SET = 1"

text \<open>The address of a client: port and IPv4 address as the socket structure holds them.\<close>

record sockaddr_in =
  sin_port :: u16
  s_addr :: u32

section \<open>Operations\<close>

text \<open>The result is a \<^verbatim>\<open>uint16_t\<close>: the subtraction wraps.\<close>

definition content_length :: "mem \<Rightarrow> u16" where
  "content_length request = ld16 req_length request - of_nat (sizeof_client_request - 1)"

definition message_length :: "mem \<Rightarrow> u16" where
  "message_length request = ld16 req_length request"

text \<open>\<open>fresh\<close> is the memory \<^verbatim>\<open>malloc\<close> returned.\<close>

definition create_client_request :: "mem \<Rightarrow> mem \<Rightarrow> u16 \<Rightarrow> mem" where
  "create_client_request fresh data data_size =
    (let message_size = of_nat sizeof_client_request + data_size - 1;
         request = st16 req_length message_size fresh
     in memcpy req_content data 0 (unat data_size) request)"

definition req_cliaddr :: "mem \<Rightarrow> sockaddr_in" where
  "req_cliaddr req = \<lparr>sin_port = ld16 req_sin_port req, s_addr = ld32 req_sin_addr req\<rparr>"

definition set_cliaddr :: "sockaddr_in \<Rightarrow> mem \<Rightarrow> mem" where
  "set_cliaddr a req = st16 2 2 (st16 req_sin_port (sin_port a) (st32 req_sin_addr (s_addr a) req))"

section \<open>Properties\<close>

text \<open>A created request holds the data it was given, of the length it was given, and its total
  length is 18 bytes more as long as that fits the 16-bit field.\<close>

theorem create_client_request_content:
  "content_length (create_client_request fresh data n) = n
   \<and> bytes_at req_content (unat n) (create_client_request fresh data n) = bytes_at 0 (unat n) data
   \<and> (unat n + 18 < 2 ^ 16 \<longrightarrow> unat (message_length (create_client_request fresh data n)) = unat n + 18)"
proof -
  have len: "ld16 0 (create_client_request fresh data n) = n + 18"
    by (simp add: create_client_request_def Let_def sizeof_client_request_def mem_simps)
  have "unat (n + 18) = unat n + 18" if "unat n + 18 < 2 ^ 16"
    using that by (simp add: unat_word_ariths(1))
  then show ?thesis
    using len by (simp add: content_length_def message_length_def sizeof_client_request_def)
      (simp add: create_client_request_def Let_def mem_simps)
qed

theorem create_client_request_content_witness:
  "unat (message_length (create_client_request (\<lambda>_. 0) (\<lambda>i. of_nat i) 56)) = 74"
  using create_client_request_content[of "\<lambda>_. 0" "\<lambda>i. of_nat i" 56] by simp

end
