(* ===== verification/Client_Reply.thy ===== *)
theory Client_Reply
  imports Rte_Paxos Client_Message
begin

text \<open>
  The UDP reply to a client, which \<^verbatim>\<open>dp_learner_send\<close> of the learner and of the backup build the same
  way, with different tables of MAC addresses.
\<close>

definition FAKE_ADDR :: u32 where "FAKE_ADDR = IPv4 192 168 4 198"

text \<open>The table: the address of the host, as the socket structure has it, to its MAC address.\<close>

type_synonym mac_table = "u32 \<Rightarrow> u8 list option"

definition addr_bytes :: "u8 list \<Rightarrow> mem" where
  "addr_bytes bs = (\<lambda>i. if i < length bs then bs ! i else 0)"

text \<open>\<open>data\<close> is the memory from the data pointer on; a host not in the table leaves the destination MAC
  address of the buffer as it was.\<close>

definition client_reply ::
  "rte_env \<Rightarrow> mac_table \<Rightarrow> mem \<Rightarrow> u64 \<Rightarrow> sockaddr_in \<Rightarrow> mbuf \<Rightarrow> mbuf" where
  "client_reply E macs data len dest pkt =
    (let m = buf pkt;
         m = memcpy PXH data 0 (unat len) m;
         m = st16 eth_ether_type (bswap16 ETHER_TYPE_IPv4) m;
         m = memcpy eth_s_addr (macaddr E 0) 0 6 m;
         m = (case macs (s_addr dest) of Some mac \<Rightarrow> memcpy eth_d_addr (addr_bytes mac) 0 6 m | None \<Rightarrow> m);
         m = st16 (IPH + ip_total_length) (bswap16 (ucast (of_nat (sizeof_ipv4_hdr + sizeof_udp_hdr) + len))) m;
         m = st8 (IPH + ip_version_ihl) 0x45 m;
         m = st8 (IPH + ip_time_to_live) 64 m;
         m = st16 (IPH + ip_packet_id) (bswap16 (ucast (rdtsc E))) m;
         m = st16 (IPH + ip_fragment_offset) (bswap16 IPV4_HDR_DF_FLAG) m;
         m = st8 (IPH + ip_next_proto_id) IPPROTO_UDP m;
         m = st16 (IPH + ip_hdr_checksum) 0 m;
         m = st32 (IPH + ip_src_addr) (bswap32 FAKE_ADDR) m;
         m = st32 (IPH + ip_dst_addr) (s_addr dest) m;
         m = st16 (UDPH + udp_dst_port) (sin_port dest) m;
         m = st16 (UDPH + udp_src_port) (bswap16 LEARNER_PORT) m;
         m = st16 (UDPH + udp_dgram_len) (bswap16 (ucast (of_nat sizeof_udp_hdr + len))) m;
         flags = tx_offload E;
         m = st16 (UDPH + udp_dgram_cksum) (get_psd_sum E (from_offset IPH m) ETHER_TYPE_IPv4 flags) m
     in pkt\<lparr>buf := m, l2_len := of_nat sizeof_ether_hdr, l3_len := of_nat sizeof_ipv4_hdr,
            l4_len := ucast (of_nat sizeof_udp_hdr + len),
            data_len := ucast (of_nat (sizeof_ether_hdr + sizeof_ipv4_hdr + sizeof_udp_hdr) + len),
            pkt_len := ucast (of_nat (sizeof_ether_hdr + sizeof_ipv4_hdr + sizeof_udp_hdr) + len),
            ol_flags := flags\<rparr>)"

lemma client_reply_fields [simplified]:
  "buf (client_reply E macs data len dest pkt) (IPH + ip_next_proto_id) = IPPROTO_UDP"
  "ld32 (IPH + ip_dst_addr) (buf (client_reply E macs data len dest pkt)) = s_addr dest"
  "ld16 (UDPH + udp_dst_port) (buf (client_reply E macs data len dest pkt)) = sin_port dest"
  "bytes_at PXH (unat len) (buf (client_reply E macs data len dest pkt)) = bytes_at 0 (unat len) data"
  by (simp_all add: client_reply_def Let_def mem_simps split: option.split)

lemma client_reply_payload: "i < unat len \<Longrightarrow> buf (client_reply E macs data len dest pkt) (PXH + i) = data i"
  by (simp add: client_reply_def Let_def frame_simps split: option.split) (simp add: memcpy_def)

lemma client_reply_mac:
  "macs (s_addr dest) = Some mac \<Longrightarrow> length mac = 6 \<Longrightarrow> bytes_at eth_d_addr 6 (buf (client_reply E macs data len dest pkt)) = mac"
  by (simp add: client_reply_def Let_def mem_simps) (auto simp: bytes_at_def addr_bytes_def intro: nth_equalityI)

lemma client_reply_lengths:
  assumes "unat len + 42 < 2 ^ 16"
  shows "unat (pkt_len (client_reply E macs data len dest pkt)) = unat len + 42"
    "unat (data_len (client_reply E macs data len dest pkt)) = unat len + 42"
    "unat (bswap16 (ld16 (IPH + ip_total_length) (buf (client_reply E macs data len dest pkt)))) = unat len + 28"
    "unat (bswap16 (ld16 (UDPH + udp_dgram_len) (buf (client_reply E macs data len dest pkt)))) = unat len + 8"
proof -
  have "len = of_nat (unat len)" by simp
  then have "(42 :: u64) + len = of_nat (unat len + 42)" "(28 :: u64) + len = of_nat (unat len + 28)"
    "(8 :: u64) + len = of_nat (unat len + 8)"
    by (metis of_nat_add of_nat_numeral add.commute)+
  then show "unat (pkt_len (client_reply E macs data len dest pkt)) = unat len + 42"
    "unat (data_len (client_reply E macs data len dest pkt)) = unat len + 42"
    "unat (bswap16 (ld16 (IPH + ip_total_length) (buf (client_reply E macs data len dest pkt)))) = unat len + 28"
    "unat (bswap16 (ld16 (UDPH + udp_dgram_len) (buf (client_reply E macs data len dest pkt)))) = unat len + 8"
    using assms by (simp_all add: client_reply_def Let_def mem_simps unat_ucast_of_nat del: of_nat_add of_nat_unat)
qed

lemma client_reply_frame: "PXH + unat len \<le> i \<Longrightarrow> buf (client_reply E macs data len dest pkt) i = buf pkt i"
  by (simp add: client_reply_def Let_def frame_simps split: option.split)

end
