(* ===== verification/Leveldb_Context.thy ===== *)
theory Leveldb_Context
  imports Prelude
begin

text \<open>
  \<^verbatim>\<open>dpdk/learner/leveldb_context.c\<close>: the learner's wrapper around LevelDB.  LevelDB itself is a
  library outside the repository: its operations on a database \<open>'b\<close> are arguments, each with the
  error it reports, if any.
\<close>

record 'b leveldb_api =
  leveldb_open :: "string \<Rightarrow> 'b \<times> string option"
  leveldb_destroy_db :: "string \<Rightarrow> string option"
  leveldb_put :: "'b \<Rightarrow> bool \<Rightarrow> u8 list \<Rightarrow> u8 list \<Rightarrow> 'b \<times> string option"
  leveldb_get :: "'b \<Rightarrow> u8 list \<Rightarrow> u8 list option \<times> string option"
  leveldb_delete :: "'b \<Rightarrow> bool \<Rightarrow> u8 list \<Rightarrow> 'b \<times> string option"

text \<open>The context: the open database and the sync flag of its write options.\<close>

record 'b leveldb_ctx =
  db :: 'b
  woptions_sync :: bool

definition TEST_DB :: string where "TEST_DB = ''/tmp/libpaxos''"

text \<open>A failed open or destroy exits the program: \<open>None\<close>.\<close>

definition open_db :: "'b leveldb_api \<Rightarrow> string \<Rightarrow> 'b option" where
  "open_db A db_name = (case leveldb_open A db_name of (d, err) \<Rightarrow> if err \<noteq> None then None else Some d)"

definition new_leveldb_context :: "'b leveldb_api \<Rightarrow> 'b leveldb_ctx option" where
  "new_leveldb_context A = (case open_db A TEST_DB of None \<Rightarrow> None | Some d \<Rightarrow> Some \<lparr>db = d, woptions_sync = False\<rparr>)"

definition destroy_db :: "'b leveldb_api \<Rightarrow> string \<Rightarrow> unit option" where
  "destroy_db A db_name = (if leveldb_destroy_db A db_name \<noteq> None then None else Some ())"

definition add_entry ::
  "'b leveldb_api \<Rightarrow> 'b leveldb_ctx \<Rightarrow> int \<Rightarrow> u8 list \<Rightarrow> u8 list \<Rightarrow> 'b leveldb_ctx \<times> int" where
  "add_entry A ctx sync key val =
    (let ctx = ctx\<lparr>woptions_sync := (sync \<noteq> 0)\<rparr> in
     case leveldb_put A (db ctx) (woptions_sync ctx) key val of (d, err) \<Rightarrow>
       (ctx\<lparr>db := d\<rparr>, if err \<noteq> None then 1 else 0))"

definition get_value :: "'b leveldb_api \<Rightarrow> 'b leveldb_ctx \<Rightarrow> u8 list \<Rightarrow> u8 list option \<times> int" where
  "get_value A ctx key = (case leveldb_get A (db ctx) key of (val, err) \<Rightarrow> (val, if err \<noteq> None then 1 else 0))"

definition delete_entry :: "'b leveldb_api \<Rightarrow> 'b leveldb_ctx \<Rightarrow> u8 list \<Rightarrow> 'b leveldb_ctx \<times> int" where
  "delete_entry A ctx key = (case leveldb_delete A (db ctx) (woptions_sync ctx) key of (d, err) \<Rightarrow>
     (ctx\<lparr>db := d\<rparr>, if err \<noteq> None then 1 else 0))"

section \<open>The store behind the wrapper\<close>

text \<open>
  What LevelDB documents: a database is a map from keys to values, and an operation that reports
  no error reads, writes or deletes one entry of it; one that reports an error changes nothing.
\<close>

definition leveldb_ok :: "('b \<Rightarrow> u8 list \<Rightarrow> u8 list option) \<Rightarrow> 'b leveldb_api \<Rightarrow> bool" where
  "leveldb_ok store A \<longleftrightarrow>
     (\<forall>d sync k v. case leveldb_put A d sync k v of (d', err) \<Rightarrow>
        store d' = (if err = None then (store d)(k := Some v) else store d))
     \<and> (\<forall>d k. case leveldb_get A d k of (v, err) \<Rightarrow> err = None \<longrightarrow> v = store d k)
     \<and> (\<forall>d sync k. case leveldb_delete A d sync k of (d', err) \<Rightarrow>
        store d' = (if err = None then (store d)(k := None) else store d))"

lemma leveldb_putD: "leveldb_ok store A \<Longrightarrow> leveldb_put A d sync k v = (d', None) \<Longrightarrow> store d' = (store d)(k := Some v)"
  unfolding leveldb_ok_def by (metis (mono_tags, lifting) case_prod_conv)

lemma leveldb_getD: "leveldb_ok store A \<Longrightarrow> leveldb_get A d k = (v, None) \<Longrightarrow> v = store d k"
  unfolding leveldb_ok_def by (metis (mono_tags, lifting) case_prod_conv)

lemma leveldb_deleteD: "leveldb_ok store A \<Longrightarrow> leveldb_delete A d sync k = (d', None) \<Longrightarrow> store d' = (store d)(k := None)"
  unfolding leveldb_ok_def by (metis (mono_tags, lifting) case_prod_conv)

text \<open>Through the wrapper the database is a map: a value written without error is the value read
  back, other keys keep theirs, and a deleted key has none.\<close>

lemma leveldb_context_is_map:
  assumes "leveldb_ok store A" "add_entry A ctx sync k v = (ctx', 0)"
    and "get_value A ctx' k' = (r, 0)" "delete_entry A ctx' k = (ctx'', 0)" "get_value A ctx'' k = (r', 0)"
  shows "r = (if k' = k then Some v else store (db ctx) k') \<and> r' = None \<and> woptions_sync ctx' = (sync \<noteq> 0)"
proof -
  have "store (db ctx') = (store (db ctx))(k := Some v)"
    using assms(2) leveldb_putD[OF assms(1)] by (auto simp: add_entry_def Let_def split: prod.splits if_splits)
  moreover have "store (db ctx'') = (store (db ctx'))(k := None)"
    using assms(4) leveldb_deleteD[OF assms(1)] by (auto simp: delete_entry_def split: prod.splits if_splits)
  moreover have "r = store (db ctx') k'" "r' = store (db ctx'') k"
    using assms(3,5) leveldb_getD[OF assms(1)] by (auto simp: get_value_def split: prod.splits if_splits)
  moreover have "woptions_sync ctx' = (sync \<noteq> 0)"
    using assms(2) by (auto simp: add_entry_def Let_def split: prod.splits)
  ultimately show ?thesis by simp
qed

definition map_db :: "(u8 list \<Rightarrow> u8 list option) leveldb_api" where
  "map_db = \<lparr>leveldb_open = (\<lambda>_. (\<lambda>_. None, None)), leveldb_destroy_db = (\<lambda>_. None),
     leveldb_put = (\<lambda>d _ k v. (d(k := Some v), None)), leveldb_get = (\<lambda>d k. (d k, None)),
     leveldb_delete = (\<lambda>d _ k. (d(k := None), None))\<rparr>"

lemma map_db_ok: "leveldb_ok (\<lambda>d. d) map_db"
  by (simp add: leveldb_ok_def map_db_def)

end
