(* ===== verification/Dpdk_Learner.thy ===== *)
theory Dpdk_Learner
  imports Learner_Args Client_Reply Leveldb_Context
begin

text \<open>
  \<^verbatim>\<open>dpdk/learner\<close>: the learner process.  It hands accepted messages to libpaxos's learner, executes
  the commands libpaxos delivers on LevelDB and answers the clients.
\<close>

section \<open>State and environment\<close>

text \<open>libpaxos's learner, an argument as the acceptor is.\<close>

record 'l learner_api =
  learner_receive_accepted :: "'l \<Rightarrow> paxos_accepted \<Rightarrow> 'l \<times> int"
  learner_deliver_next :: "'l \<Rightarrow> 'l \<times> int \<times> paxos_accepted"
  learner_receive_promise :: "'l \<Rightarrow> paxos_promise \<Rightarrow> 'l \<times> int \<times> paxos_accept"
  learner_has_holes :: "'l \<Rightarrow> int \<times> u32 \<times> u32"
  learner_prepare :: "'l \<Rightarrow> u32 \<Rightarrow> 'l \<times> paxos_prepare"

text \<open>
  Everything outside the program: DPDK, libpaxos, LevelDB, the packets \<^verbatim>\<open>rte_pktmbuf_alloc_bulk\<close>
  gives (\<open>None\<close> when the pool has too few), and the contents of the one field the program reads
  without having written it (the type of the accept message in the promise case).
\<close>

record ('l, 'd, 'b) learner_env =
  rte :: rte_env
  lib :: "'l learner_api"
  tx :: "'d tx_api"
  ldb :: "'b leveldb_api"
  alloc_bulk :: "nat \<Rightarrow> mbuf list option"
  uninit_type :: u32

text \<open>
  \<^verbatim>\<open>struct dp_learner\<close> and the global counters, with the packets handed to the transmit buffer.
  \<^verbatim>\<open>nb_pkt_buf\<close>, an \<^verbatim>\<open>int\<close> in the source, only counts up from 0 and is reset to it.  The first filling of \<^verbatim>\<open>tx_mbufs\<close>, in front of
  the loop of \<^verbatim>\<open>lcore_main\<close>, is part of the state a run starts in.
\<close>

record ('l, 'd, 'b) dp_learner =
  num_acceptors :: int
  nb_learners :: int
  learner_id :: int
  nb_pkt_buf :: nat
  enable_leveldb :: int
  leveldb :: "'b leveldb_ctx"
  paxos_learner :: 'l
  dev :: 'd
  tx_mbufs :: "mbuf list"
  queued :: "mbuf list"
  tx_counter :: u32
  rx_counter :: u32
  consensus_counter :: u32
  tot_cycles :: u64
  at_second :: u32
  dropped :: u32

definition macs :: mac_table where
  "macs a = (if a = 0x5f04a8c0 then Some [0x0c, 0xc4, 0x7a, 0xba, 0xc6, 0xc6]
     else if a = 0x6004a8c0 then Some [0x0c, 0xc4, 0x7a, 0xba, 0xc2, 0x40]
     else if a = 0x6104a8c0 then Some [0x0c, 0xc4, 0x7a, 0xba, 0xc6, 0xad]
     else if a = 0x6204a8c0 then Some [0x0c, 0xc4, 0x7a, 0xba, 0xc0, 0x08]
     else None)"

section \<open>Answering a client\<close>

text \<open>
  \<^verbatim>\<open>tx_mbufs\<close> is an array of \<^verbatim>\<open>BURST_SIZE\<close> buffers; \<open>None\<close> stands for an access outside it.
  A failed allocation leaves the array as it was: its return code is not looked at.
\<close>

definition reset_tx_mbufs ::
  "('l, 'd, 'b) learner_env \<Rightarrow> nat \<Rightarrow> ('l, 'd, 'b) dp_learner \<Rightarrow> ('l, 'd, 'b) dp_learner option" where
  "reset_tx_mbufs S nb_tx dl =
    (let dl = dl\<lparr>tx_counter := tx_counter dl + of_nat nb_tx\<rparr> in
     case alloc_bulk S nb_tx of
       None \<Rightarrow> Some (dl\<lparr>nb_pkt_buf := 0\<rparr>)
     | Some bs \<Rightarrow> if nb_tx \<le> length (tx_mbufs dl)
         then Some (dl\<lparr>tx_mbufs := bs @ drop nb_tx (tx_mbufs dl), nb_pkt_buf := 0\<rparr>) else None)"

definition dp_learner_send ::
  "('l, 'd, 'b) learner_env \<Rightarrow> mem \<Rightarrow> u64 \<Rightarrow> sockaddr_in \<Rightarrow> ('l, 'd, 'b) dp_learner
    \<Rightarrow> (int \<times> ('l, 'd, 'b) dp_learner) option" where
  "dp_learner_send S data len dest dl =
    (if length (tx_mbufs dl) \<le> nb_pkt_buf dl then None
     else
       (let pkt = client_reply (rte S) macs data len dest (tx_mbufs dl ! nb_pkt_buf dl);
            dl = dl\<lparr>nb_pkt_buf := nb_pkt_buf dl + 1\<rparr>
        in case tx_buffer (tx S) (dev dl) pkt of (d, nb_tx) \<Rightarrow>
          (let dl = dl\<lparr>dev := d, queued := queued dl @ [pkt]\<rparr> in
           if nb_tx \<noteq> 0
           then map_option (\<lambda>dl. (0, dl\<lparr>tx_counter := tx_counter dl + ucast nb_tx\<rparr>)) (reset_tx_mbufs S (unat nb_tx) dl)
           else Some (0, dl))))"

text \<open>
  The command in a delivered value, executed on LevelDB: a SET is stored, with errors only logged;
  what a GET reads is only logged too, so it leaves no trace.  \<open>val\<close> is the memory the value
  pointer points to.
\<close>

definition execute :: "'b leveldb_api \<Rightarrow> mem \<Rightarrow> 'b leveldb_ctx \<Rightarrow> 'b leveldb_ctx" where
  "execute A cmd ctx =
    (let key = bytes_at cmd_content 16 cmd in
     if ld32 cmd_op cmd = op_code SET
     then fst (add_entry A ctx 0 key (bytes_at (cmd_content + 16) 16 cmd))
     else ctx)"

definition deliver ::
  "('l, 'd, 'b) learner_env \<Rightarrow> u32 \<Rightarrow> mem \<Rightarrow> u32 \<Rightarrow> ('l, 'd, 'b) dp_learner \<Rightarrow> (int \<times> ('l, 'd, 'b) dp_learner) option" where
  "deliver S inst val vsize dl =
    (let retval = from_offset req_content val;
         cmd = from_offset (sizeof_client_request - 1) val;
         dl = (if enable_leveldb dl \<noteq> 0 then dl\<lparr>leveldb := execute (ldb S) cmd (leveldb dl)\<rparr> else dl)
     in if learner_id dl = 0
        then dp_learner_send S retval (ucast (content_length val)) (req_cliaddr val) dl
        else Some (-1, dl))"

section \<open>The packet handler\<close>

definition paxos_rx_process ::
  "('l, 'd, 'b) learner_env \<Rightarrow> mbuf \<Rightarrow> ('l, 'd, 'b) dp_learner \<Rightarrow> (mbuf \<times> int \<times> ('l, 'd, 'b) dp_learner) option" where
  "paxos_rx_process S pkt dl =
    (let m = buf pkt; msgtype = unat (hdr_msgtype PXH m) in
     if m (IPH + ip_next_proto_id) \<noteq> IPPROTO_UDP then Some (pkt, -1, dl)
     else if ld16 (UDPH + udp_dst_port) m \<noteq> bswap16 LEARNER_PORT
       \<and> packet_type pkt AND PTYPE_TUNNEL_MASK (rte S) = 0 then Some (pkt, -1, dl)
     else if msgtype = msg_code PAXOS_PROMISE then
       (case learner_receive_promise (lib S) (paxos_learner dl) (hdr_body PXH m (hdr_value PXH m)) of (l, ret, acc) \<Rightarrow>
         (let pkt = (if ret \<noteq> 0
               then add_paxos_message (rte S) \<lparr>mtype = uninit_type S, body = acc\<rparr> pkt LEARNER_PORT ACCEPTOR_PORT ACCEPTOR_ADDR
               else pkt)
          in Some (pkt, ret, dl\<lparr>paxos_learner := l\<rparr>)))
     else if msgtype = msg_code PAXOS_ACCEPTED then
       (case learner_receive_accepted (lib S) (paxos_learner dl) (hdr_body PXH m (hdr_value PXH m)) of (l, _) \<Rightarrow>
         (case learner_deliver_next (lib S) l of (l, consensus, out) \<Rightarrow>
           (let dl = dl\<lparr>paxos_learner := l\<rparr> in
            if consensus \<noteq> 0
            then map_option (\<lambda>(ret, dl). (pkt, ret, dl))
              (deliver S (iid out) (paxos_value_val (body_value out)) (paxos_value_len (body_value out))
                (dl\<lparr>consensus_counter := consensus_counter dl + 1\<rparr>))
            else Some (pkt, -1, dl))))
     else Some (pkt, -1, dl))"

text \<open>The receive callback; the caller of \<^verbatim>\<open>rte_eth_rx_burst\<close> gets the packets back.\<close>

fun add_timestamps ::
  "('l, 'd, 'b) learner_env \<Rightarrow> u64 \<Rightarrow> mbuf list \<Rightarrow> ('l, 'd, 'b) dp_learner \<Rightarrow> (mbuf list \<times> ('l, 'd, 'b) dp_learner) option" where
  "add_timestamps S now [] dl = Some ([], dl)"
| "add_timestamps S now (pkt # pkts) dl =
    (case paxos_rx_process S pkt dl of
       None \<Rightarrow> None
     | Some (pkt, _, dl) \<Rightarrow>
         map_option (\<lambda>(pkts, dl). (pkt\<lparr>udata64 := now\<rparr> # pkts, dl)) (add_timestamps S now pkts dl))"

text \<open>The transmit callback.\<close>

definition calc_cycles :: "u64 \<Rightarrow> mbuf list \<Rightarrow> u16 \<Rightarrow> ('l, 'd, 'b) dp_learner \<Rightarrow> ('l, 'd, 'b) dp_learner \<times> u16" where
  "calc_cycles now pkts nb_pkts dl =
    (dl\<lparr>tot_cycles := tot_cycles dl + sum_latency now (take (unat nb_pkts) pkts)\<rparr>, nb_pkts)"

definition drain_tsc :: "u64 \<Rightarrow> u64" where
  "drain_tsc hz = (hz + 1000000 - 1) div 1000000 * 100"

text \<open>
  The loop, after \<^verbatim>\<open>tx_mbufs\<close> has been filled: a round is the reading of the cycle counter, the
  callback's, and the burst.  The packets of the burst are freed.
\<close>

fun lcore_main ::
  "('l, 'd, 'b) learner_env \<Rightarrow> u64 \<Rightarrow> u64 \<Rightarrow> (u64 \<times> u64 \<times> mbuf list) list \<Rightarrow> ('l, 'd, 'b) dp_learner
    \<Rightarrow> ('l, 'd, 'b) dp_learner option" where
  "lcore_main S drain prev_tsc [] dl = Some dl"
| "lcore_main S drain prev_tsc ((cur_tsc, now, burst) # rounds) dl =
    (case (if drain < cur_tsc - prev_tsc
           then (case tx_buffer_flush (tx S) (dev dl) of (d, nb_tx) \<Rightarrow>
             if nb_tx \<noteq> 0 then reset_tx_mbufs S (unat nb_tx) (dl\<lparr>dev := d\<rparr>) else Some (dl\<lparr>dev := d\<rparr>))
           else Some dl) of
       None \<Rightarrow> None
     | Some dl \<Rightarrow>
         (case add_timestamps S now burst dl of
            None \<Rightarrow> None
          | Some (_, dl) \<Rightarrow>
              lcore_main S drain cur_tsc rounds
                (if burst = [] then dl else dl\<lparr>rx_counter := rx_counter dl + of_nat (length burst)\<rparr>)))"

section \<open>Timers\<close>

definition check_deliver :: "'l learner_api \<Rightarrow> 'l \<times> u32 \<Rightarrow> 'l \<times> u32" where
  "check_deliver L = (\<lambda>(l, consensus_counter).
    case learner_deliver_next L l of (l, consensus, _) \<Rightarrow>
      (l, if consensus \<noteq> 0 then consensus_counter + 1 else consensus_counter))"

text \<open>\<^verbatim>\<open>report_stat\<close>: what it prints (\<open>None\<close> for a division by zero) and the reset.\<close>

definition report_stat ::
  "('l, 'd, 'b) dp_learner \<Rightarrow> (u32 \<times> u32 \<times> u64 option) \<times> ('l, 'd, 'b) dp_learner" where
  "report_stat dl =
    (let nb_consensus = consensus_counter dl;
         avg_cycles = (if 0 < tot_cycles dl
           then if nb_consensus = 0 then None else Some (tot_cycles dl div scast nb_consensus)
           else Some 0)
     in ((at_second dl, nb_consensus, avg_cycles),
         dl\<lparr>at_second := at_second dl + 1, consensus_counter := 0, tx_counter := 0, rx_counter := 0,
            tot_cycles := 0, dropped := 0\<rparr>))"

text \<open>\<^verbatim>\<open>check_holes\<close>: a prepare message for each missing instance, all written to the one new packet.\<close>

fun prepare_holes :: "rte_env \<Rightarrow> 'l learner_api \<Rightarrow> u32 list \<Rightarrow> 'l \<times> mbuf \<Rightarrow> 'l \<times> mbuf" where
  "prepare_holes E L [] (l, created_pkt) = (l, created_pkt)"
| "prepare_holes E L (i # iids) (l, created_pkt) =
    (case learner_prepare L l i of (l, prep) \<Rightarrow>
      prepare_holes E L iids (l, add_paxos_message E \<lparr>mtype = of_nat (msg_code PAXOS_PREPARE), body = prep\<rparr>
        created_pkt LEARNER_PORT ACCEPTOR_PORT ACCEPTOR_ADDR))"

definition check_holes :: "rte_env \<Rightarrow> 'l learner_api \<Rightarrow> 'l \<times> mbuf \<Rightarrow> 'l \<times> mbuf" where
  "check_holes E L = (\<lambda>(l, created_pkt).
    case learner_has_holes L l of (holes, from_inst, to_inst) \<Rightarrow>
      if holes \<noteq> 0 then prepare_holes E L (map of_nat [unat from_inst..<unat to_inst]) (l, created_pkt)
      else (l, created_pkt))"


section \<open>Bounds of the buffer array\<close>

text \<open>
  A device that takes every burst: the buffer sends its packets when the 32nd arrives or when it is
  flushed, all of them.  \<open>waiting\<close> is the number of packets in the buffer.
\<close>

definition takes_bursts :: "('d \<Rightarrow> nat) \<Rightarrow> 'd tx_api \<Rightarrow> bool" where
  "takes_bursts waiting T \<longleftrightarrow>
     (\<forall>d p. waiting d < BURST_SIZE \<longrightarrow> (let (d', n) = tx_buffer T d p in
        if waiting d + 1 < BURST_SIZE then waiting d' = waiting d + 1 \<and> n = 0
        else waiting d' = 0 \<and> unat n = BURST_SIZE))
     \<and> (\<forall>d. waiting d < BURST_SIZE \<longrightarrow> (let (d', n) = tx_buffer_flush T d in
        waiting d' = 0 \<and> unat n = waiting d))"

definition alloc_ok :: "('l, 'd, 'b) learner_env \<Rightarrow> bool" where
  "alloc_ok S \<longleftrightarrow> (\<forall>n bs. alloc_bulk S n = Some bs \<longrightarrow> length bs = n)"

text \<open>The array is full-sized, and as many of its buffers are used as wait in the transmit buffer.\<close>

definition bufs_ok :: "('d \<Rightarrow> nat) \<Rightarrow> ('l, 'd, 'b) dp_learner \<Rightarrow> bool" where
  "bufs_ok waiting dl \<longleftrightarrow> length (tx_mbufs dl) = BURST_SIZE \<and> nb_pkt_buf dl = waiting (dev dl)
     \<and> waiting (dev dl) < BURST_SIZE"

lemma reset_tx_mbufs_ok:
  assumes "alloc_ok S" "length (tx_mbufs dl) = BURST_SIZE" "n \<le> BURST_SIZE"
  obtains dl' where "reset_tx_mbufs S n dl = Some dl'" "length (tx_mbufs dl') = BURST_SIZE"
    "nb_pkt_buf dl' = 0" "dev dl' = dev dl" "queued dl' = queued dl"
    "tx_counter dl' = tx_counter dl + of_nat n"
  using assms by (cases "alloc_bulk S n") (auto simp: reset_tx_mbufs_def alloc_ok_def Let_def intro!: that)

lemma send_bufs_ok:
  assumes "takes_bursts waiting (tx S)" "alloc_ok S" "bufs_ok waiting dl"
  shows "\<exists>dl'. dp_learner_send S data len dest dl = Some (0, dl') \<and> bufs_ok waiting dl'
    \<and> queued dl' = queued dl @ [client_reply (rte S) macs data len dest (tx_mbufs dl ! nb_pkt_buf dl)]"
proof -
  let ?p = "client_reply (rte S) macs data len dest (tx_mbufs dl ! nb_pkt_buf dl)"
  let ?dl = "dl\<lparr>nb_pkt_buf := nb_pkt_buf dl + 1\<rparr>"
  obtain d n where d: "tx_buffer (tx S) (dev dl) ?p = (d, n)" by fastforce
  have inv: "length (tx_mbufs dl) = BURST_SIZE" "nb_pkt_buf dl = waiting (dev dl)" "waiting (dev dl) < BURST_SIZE"
    using assms(3) by (auto simp: bufs_ok_def)
  have dev: "if waiting (dev dl) + 1 < BURST_SIZE then waiting d = waiting (dev dl) + 1 \<and> n = 0
      else waiting d = 0 \<and> unat n = BURST_SIZE"
    using assms(1) inv(3) d unfolding takes_bursts_def by (metis (mono_tags, lifting) case_prod_conv)
  show ?thesis
  proof (cases "waiting (dev dl) + 1 < BURST_SIZE")
    case True
    then show ?thesis using dev inv d by (simp add: dp_learner_send_def bufs_ok_def Let_def)
  next
    case False
    then have n: "unat n = BURST_SIZE" "n \<noteq> 0" "waiting d = 0"
      using dev by (auto simp: BURST_SIZE_def)
    obtain dl' where "reset_tx_mbufs S BURST_SIZE (?dl\<lparr>dev := d, queued := queued dl @ [?p]\<rparr>) = Some dl'"
      "length (tx_mbufs dl') = BURST_SIZE" "nb_pkt_buf dl' = 0" "dev dl' = d" "queued dl' = queued dl @ [?p]"
      using reset_tx_mbufs_ok[OF assms(2), of "?dl\<lparr>dev := d, queued := queued dl @ [?p]\<rparr>" BURST_SIZE] inv(1)
      by auto
    then show ?thesis using n inv d by (simp add: dp_learner_send_def bufs_ok_def Let_def BURST_SIZE_def)
  qed
qed

lemma deliver_bufs_ok:
  assumes "takes_bursts waiting (tx S)" "alloc_ok S" "bufs_ok waiting dl"
  shows "\<exists>r dl'. deliver S inst val vsize dl = Some (r, dl') \<and> bufs_ok waiting dl'"
proof -
  let ?dl = "if enable_leveldb dl \<noteq> 0
    then dl\<lparr>leveldb := execute (ldb S) (from_offset (sizeof_client_request - 1) val) (leveldb dl)\<rparr> else dl"
  have "bufs_ok waiting ?dl" using assms(3) by (simp add: bufs_ok_def)
  with send_bufs_ok[OF assms(1,2), of ?dl] show ?thesis
    unfolding deliver_def Let_def by metis
qed

lemma rx_process_bufs_ok:
  assumes "takes_bursts waiting (tx S)" "alloc_ok S" "bufs_ok waiting dl"
  shows "\<exists>p r dl'. paxos_rx_process S pkt dl = Some (p, r, dl') \<and> bufs_ok waiting dl'"
proof -
  have upd: "bufs_ok waiting (dl\<lparr>paxos_learner := l\<rparr>)"
    "bufs_ok waiting (dl\<lparr>paxos_learner := l, consensus_counter := k\<rparr>)" for l k
    using assms(3) by (simp_all add: bufs_ok_def)
  show ?thesis
    using deliver_bufs_ok[OF assms(1,2) upd(2)] assms(3) upd(1)
    by (simp add: paxos_rx_process_def Let_def split: prod.split)
qed

lemma add_timestamps_bufs_ok:
  assumes "takes_bursts waiting (tx S)" "alloc_ok S" "bufs_ok waiting dl"
  shows "\<exists>ps dl'. add_timestamps S now pkts dl = Some (ps, dl') \<and> bufs_ok waiting dl'"
  using assms(3)
proof (induction pkts arbitrary: dl)
  case (Cons pkt pkts)
  obtain p r dl1 where 1: "paxos_rx_process S pkt dl = Some (p, r, dl1)" "bufs_ok waiting dl1"
    using rx_process_bufs_ok[OF assms(1,2) Cons.prems] by blast
  obtain ps dl2 where 2: "add_timestamps S now pkts dl1 = Some (ps, dl2)" "bufs_ok waiting dl2"
    using Cons.IH[OF 1(2)] by blast
  show ?case using 1 2 by simp
qed simp

lemma flush_bufs_ok:
  assumes "takes_bursts waiting (tx S)" "alloc_ok S" "bufs_ok waiting dl"
    and "tx_buffer_flush (tx S) (dev dl) = (d, n)"
  shows "\<exists>dl'. (if n \<noteq> 0 then reset_tx_mbufs S (unat n) (dl\<lparr>dev := d\<rparr>) else Some (dl\<lparr>dev := d\<rparr>)) = Some dl'
    \<and> bufs_ok waiting dl'"
proof -
  have d: "waiting d = 0" "unat n = waiting (dev dl)"
    using assms(1,3,4) unfolding takes_bursts_def bufs_ok_def by (metis (mono_tags, lifting) case_prod_conv)+
  show ?thesis
  proof (cases "n = 0")
    case True
    then show ?thesis using d assms(3) by (simp add: bufs_ok_def)
  next
    case False
    obtain dl' where "reset_tx_mbufs S (unat n) (dl\<lparr>dev := d\<rparr>) = Some dl'"
      "length (tx_mbufs dl') = BURST_SIZE" "nb_pkt_buf dl' = 0" "dev dl' = d"
      using reset_tx_mbufs_ok[OF assms(2), of "dl\<lparr>dev := d\<rparr>" "unat n"] assms(3) d
      by (auto simp: bufs_ok_def)
    then show ?thesis using False d assms(3) by (simp add: bufs_ok_def)
  qed
qed

text \<open>C11: On a device that takes every burst the learner never uses a buffer outside its array, whatever
  packets arrive and however its rounds are timed: the loop always gets to its end, with as many
  buffers used as wait in the transmit buffer.\<close>

theorem learner_buffers_in_bounds:
  assumes "takes_bursts waiting (tx S)" "alloc_ok S" "bufs_ok waiting dl"
  shows "\<exists>dl'. lcore_main S drain prev rounds dl = Some dl' \<and> bufs_ok waiting dl'"
  using assms(3)
proof (induction rounds arbitrary: prev dl)
  case (Cons r rounds)
  obtain cur now burst where r: "r = (cur, now, burst)" by (metis prod_cases3)
  obtain d n where d: "tx_buffer_flush (tx S) (dev dl) = (d, n)" by fastforce
  obtain dl1 where dl1: "(if drain < cur - prev then
      (if n \<noteq> 0 then reset_tx_mbufs S (unat n) (dl\<lparr>dev := d\<rparr>) else Some (dl\<lparr>dev := d\<rparr>)) else Some dl) = Some dl1"
    "bufs_ok waiting dl1"
    using flush_bufs_ok[OF assms(1,2) Cons.prems d] Cons.prems by metis
  obtain ps dl2 where dl2: "add_timestamps S now burst dl1 = Some (ps, dl2)" "bufs_ok waiting dl2"
    using add_timestamps_bufs_ok[OF assms(1,2) dl1(2)] by blast
  have "bufs_ok waiting (if burst = [] then dl2 else dl2\<lparr>rx_counter := rx_counter dl2 + of_nat (length burst)\<rparr>)"
    using dl2(2) by (simp add: bufs_ok_def)
  moreover have "lcore_main S drain prev (r # rounds) dl = lcore_main S drain cur rounds
      (if burst = [] then dl2 else dl2\<lparr>rx_counter := rx_counter dl2 + of_nat (length burst)\<rparr>)"
    by (simp only: r lcore_main.simps d prod.case dl1(1) option.case dl2(1))
  ultimately show ?case using Cons.IH by metis
qed simp


text \<open>A concrete environment: libpaxos delivers every accepted message at once, the pool never runs dry.\<close>

definition echo_learner :: "paxos_accepted option learner_api" where
  "echo_learner = \<lparr>
     learner_receive_accepted = (\<lambda>l ack. (Some ack, 1)),
     learner_deliver_next = (\<lambda>l. case l of None \<Rightarrow> (None, 0, \<lparr>iid = 0, ballot = 0, value_ballot = 0, aid = 0, body_value = NULL_value\<rparr>)
        | Some ack \<Rightarrow> (None, 1, ack)),
     learner_receive_promise = (\<lambda>l p. (l, 1, p)),
     learner_has_holes = (\<lambda>l. (1, 3, 6)),
     learner_prepare = (\<lambda>l i. (l, \<lparr>iid = i, ballot = 1, value_ballot = 0, aid = 0, body_value = NULL_value\<rparr>))\<rparr>"

definition burst_buffer :: "nat tx_api" where
  "burst_buffer = \<lparr>tx_buffer = (\<lambda>d pkt. if d < 31 then (d + 1, 0) else (0, 32)),
     tx_buffer_flush = (\<lambda>d. (0, of_nat d))\<rparr>"

lemma burst_buffer_ok: "takes_bursts (\<lambda>d. d) burst_buffer"
  by (auto simp: takes_bursts_def burst_buffer_def BURST_SIZE_def unat_of_nat)

definition example_learner_env :: "(paxos_accepted option, nat, u8 list \<Rightarrow> u8 list option) learner_env" where
  "example_learner_env = \<lparr>rte = example_env, lib = echo_learner, tx = burst_buffer, ldb = map_db,
     alloc_bulk = (\<lambda>n. Some (replicate n example_mbuf)), uninit_type = 77\<rparr>"

definition example_learner :: "(paxos_accepted option, nat, u8 list \<Rightarrow> u8 list option) dp_learner" where
  "example_learner = \<lparr>num_acceptors = 1, nb_learners = 1, learner_id = 0, nb_pkt_buf = 0, enable_leveldb = 1,
     leveldb = \<lparr>db = (\<lambda>_. None), woptions_sync = False\<rparr>, paxos_learner = None, dev = 0,
     tx_mbufs = replicate 32 example_mbuf, queued = [], tx_counter = 0, rx_counter = 0, consensus_counter = 0,
     tot_cycles = 0, at_second = 0, dropped = 0\<rparr>"

lemma example_learner_ok:
  "takes_bursts (\<lambda>d. d) (tx example_learner_env)" "alloc_ok example_learner_env" "bufs_ok (\<lambda>d. d) example_learner"
  by (simp_all add: example_learner_env_def burst_buffer_ok alloc_ok_def bufs_ok_def example_learner_def BURST_SIZE_def)

theorem learner_buffers_in_bounds_witness:
  "\<exists>dl'. lcore_main example_learner_env 100 0 [(500, 501, [example_sent]), (900, 901, [])] example_learner = Some dl'
     \<and> nb_pkt_buf dl' < 32"
  using learner_buffers_in_bounds[OF example_learner_ok, of 100 0 "[(500, 501, [example_sent]), (900, 901, [])]"]
  by (auto simp: bufs_ok_def BURST_SIZE_def)

lemma deliver_full: "length (tx_mbufs dl) \<le> nb_pkt_buf dl \<Longrightarrow> learner_id dl = 0 \<Longrightarrow> deliver S i val n dl = None"
  by (simp add: deliver_def dp_learner_send_def Let_def)

text \<open>C29: When the device takes no packet of a burst, the learner's index is not reset: with the last buffer of the
  array in use, the answer after that is written through a buffer pointer outside the array.\<close>

theorem learner_overruns_buffers:
  assumes "\<And>d p. snd (tx_buffer (tx S) d p) = 0" "learner_id dl = 0"
    and "length (tx_mbufs dl) = BURST_SIZE" "nb_pkt_buf dl + 1 = BURST_SIZE"
  shows "\<exists>dl'. deliver S i val n dl = Some (0, dl') \<and> deliver S i' val' n' dl' = None"
proof -
  obtain d where d: "tx_buffer (tx S) (dev dl) (client_reply (rte S) macs (from_offset req_content val)
      (ucast (content_length val)) (req_cliaddr val) (tx_mbufs dl ! nb_pkt_buf dl)) = (d, 0)"
    using assms(1) by (metis prod.collapse)
  have "\<exists>dl'. deliver S i val n dl = Some (0, dl') \<and> length (tx_mbufs dl') \<le> nb_pkt_buf dl' \<and> learner_id dl' = 0"
    using assms(2-4) d by (simp add: deliver_def dp_learner_send_def Let_def)
  then show ?thesis using deliver_full by blast
qed

theorem learner_overruns_buffers_witness:
  "\<exists>dl'. deliver (example_learner_env\<lparr>tx := \<lparr>tx_buffer = (\<lambda>d p. (d, 0)), tx_buffer_flush = (\<lambda>d. (d, 0))\<rparr>\<rparr>) 1 (\<lambda>_. 0) 74
      (example_learner\<lparr>nb_pkt_buf := 31\<rparr>) = Some (0, dl')
    \<and> deliver (example_learner_env\<lparr>tx := \<lparr>tx_buffer = (\<lambda>d p. (d, 0)), tx_buffer_flush = (\<lambda>d. (d, 0))\<rparr>\<rparr>) 2 (\<lambda>_. 0) 74 dl' = None"
  by (rule learner_overruns_buffers) (simp_all add: example_learner_def BURST_SIZE_def)

section \<open>Answers\<close>

text \<open>A packet the handler takes for an accepted message.\<close>

definition is_accepted :: "rte_env \<Rightarrow> mbuf \<Rightarrow> bool" where
  "is_accepted E pkt \<longleftrightarrow> buf pkt (IPH + ip_next_proto_id) = IPPROTO_UDP
     \<and> (ld16 (UDPH + udp_dst_port) (buf pkt) = bswap16 LEARNER_PORT \<or> packet_type pkt AND PTYPE_TUNNEL_MASK E \<noteq> 0)
     \<and> unat (hdr_msgtype PXH (buf pkt)) = msg_code PAXOS_ACCEPTED"

lemma rx_process_accepted:
  assumes "is_accepted (rte S) pkt"
    and "learner_receive_accepted (lib S) (paxos_learner dl) (hdr_body PXH (buf pkt) (hdr_value PXH (buf pkt))) = (l, r)"
    and "learner_deliver_next (lib S) l = (l', c, out)" "c \<noteq> 0"
  shows "paxos_rx_process S pkt dl = map_option (\<lambda>(ret, dl). (pkt, ret, dl))
    (deliver S (iid out) (paxos_value_val (body_value out)) (paxos_value_len (body_value out))
      (dl\<lparr>paxos_learner := l', consensus_counter := consensus_counter dl + 1\<rparr>))"
  using assms by (auto simp: paxos_rx_process_def is_accepted_def Let_def)

lemma delivered_reply:
  assumes "takes_bursts waiting (tx S)" "alloc_ok S" "bufs_ok waiting dl" "learner_id dl = 0"
    and "is_accepted (rte S) pkt"
    and "learner_receive_accepted (lib S) (paxos_learner dl) (hdr_body PXH (buf pkt) (hdr_value PXH (buf pkt))) = (l, r)"
    and "learner_deliver_next (lib S) l = (l', c, out)" "c \<noteq> 0"
    and val: "val = paxos_value_val (body_value out)"
  shows "\<exists>dl'. paxos_rx_process S pkt dl = Some (pkt, 0, dl') \<and> queued dl' = queued dl @
    [client_reply (rte S) macs (from_offset req_content val) (ucast (content_length val)) (req_cliaddr val)
      (tx_mbufs dl ! nb_pkt_buf dl)]"
proof -
  let ?dl = "dl\<lparr>paxos_learner := l', consensus_counter := consensus_counter dl + 1\<rparr>"
  let ?dl1 = "if enable_leveldb dl \<noteq> 0
    then ?dl\<lparr>leveldb := execute (ldb S) (from_offset (sizeof_client_request - 1) val) (leveldb dl)\<rparr> else ?dl"
  let ?p = "client_reply (rte S) macs (from_offset req_content val) (ucast (content_length val)) (req_cliaddr val)
    (tx_mbufs dl ! nb_pkt_buf dl)"
  have "bufs_ok waiting ?dl1" using assms(3) by (simp add: bufs_ok_def)
  from send_bufs_ok[OF assms(1,2) this, of "from_offset req_content val" "ucast (content_length val)" "req_cliaddr val"]
  obtain dl' where dl': "dp_learner_send S (from_offset req_content val) (ucast (content_length val)) (req_cliaddr val) ?dl1
      = Some (0, dl')" "queued dl' = queued dl @ [?p]"
    by (auto split: if_splits)
  have "deliver S (iid out) val (paxos_value_len (body_value out)) ?dl = Some (0, dl')"
    using dl'(1) assms(4) by (simp add: deliver_def Let_def split: if_splits)
  then have "paxos_rx_process S pkt dl = Some (pkt, 0, dl')"
    using rx_process_accepted[OF assms(5-8)] val by simp
  then show ?thesis using dl'(2) by simp
qed

text \<open>C21: When libpaxos delivers a value at an accepted message, the first learner answers the client named in the
  value, whose length field says how long the command is, provided that it fits the data room of a packet
  buffer: one packet, with the lengths of the command and nothing written past the data room, in which the client, who gets as
  many bytes as the packet length says, finds its own address and port and the command unchanged.\<close>

theorem delivered_value_answered:
  assumes "takes_bursts waiting (tx S)" "alloc_ok S" "bufs_ok waiting dl" "learner_id dl = 0"
    and "is_accepted (rte S) pkt"
    and "learner_receive_accepted (lib S) (paxos_learner dl) (hdr_body PXH (buf pkt) (hdr_value PXH (buf pkt))) = (l, r)"
    and "learner_deliver_next (lib S) l = (l', c, out)" "c \<noteq> 0"
    and val: "val = paxos_value_val (body_value out)" "n = unat (content_length val)"
    and fits: "n + 42 \<le> RTE_MBUF_DEFAULT_DATAROOM"
  shows "\<exists>dl' p. paxos_rx_process S pkt dl = Some (pkt, 0, dl') \<and> queued dl' = queued dl @ [p]
    \<and> (\<forall>i \<ge> RTE_MBUF_DEFAULT_DATAROOM. buf p i = buf (tx_mbufs dl ! nb_pkt_buf dl) i)
    \<and> unat (pkt_len p) = n + 42 \<and> unat (data_len p) = n + 42
    \<and> (\<forall>q. received p q \<longrightarrow>
        unat (bswap16 (ld16 (IPH + ip_total_length) (buf q))) = n + 28
        \<and> unat (bswap16 (ld16 (UDPH + udp_dgram_len) (buf q))) = n + 8
        \<and> ld32 (IPH + ip_dst_addr) (buf q) = s_addr (req_cliaddr val)
        \<and> ld16 (UDPH + udp_dst_port) (buf q) = sin_port (req_cliaddr val)
        \<and> bytes_at PXH n (buf q) = bytes_at req_content n val)"
proof -
  let ?len = "ucast (content_length val) :: u64"
  define p where "p = client_reply (rte S) macs (from_offset req_content val) ?len (req_cliaddr val) (tx_mbufs dl ! nb_pkt_buf dl)"
  obtain dl' where dl': "paxos_rx_process S pkt dl = Some (pkt, 0, dl')" "queued dl' = queued dl @ [p]"
    using delivered_reply[OF assms(1-9)] unfolding p_def by blast
  have n: "unat ?len = n" "unat ?len + 42 < 2 ^ 16" using val(2) fits by (simp_all add: RTE_MBUF_DEFAULT_DATAROOM_def)
  note len = client_reply_lengths[OF n(2), where E = "rte S" and macs = macs and data = "from_offset req_content val"
      and dest = "req_cliaddr val" and pkt = "tx_mbufs dl ! nb_pkt_buf dl", folded p_def, unfolded n(1)]
  have room: "\<forall>i \<ge> RTE_MBUF_DEFAULT_DATAROOM. buf p i = buf (tx_mbufs dl ! nb_pkt_buf dl) i"
    using fits n(1) unfolding p_def by (simp add: client_reply_frame)
  have fields: "ld32 (IPH + ip_dst_addr) (buf p) = s_addr (req_cliaddr val)"
    "ld16 (UDPH + udp_dst_port) (buf p) = sin_port (req_cliaddr val)"
    "bytes_at PXH n (buf p) = bytes_at req_content n val"
    using client_reply_fields(4)[of ?len] n(1) unfolding p_def by (simp_all add: client_reply_fields bytes_at_def from_offset_def)
  have "unat (bswap16 (ld16 (IPH + ip_total_length) (buf q))) = n + 28
        \<and> unat (bswap16 (ld16 (UDPH + udp_dgram_len) (buf q))) = n + 8
        \<and> ld32 (IPH + ip_dst_addr) (buf q) = s_addr (req_cliaddr val)
        \<and> ld16 (UDPH + udp_dst_port) (buf q) = sin_port (req_cliaddr val)
        \<and> bytes_at PXH n (buf q) = bytes_at req_content n val" if "received p q" for q
  proof -
    have same: "buf q i = buf p i" if "i < n + 42" for i using \<open>received p q\<close> len(1) that by (simp add: received_def)
    have "ld16 (IPH + ip_total_length) (buf q) = ld16 (IPH + ip_total_length) (buf p)"
      "ld16 (UDPH + udp_dgram_len) (buf q) = ld16 (UDPH + udp_dgram_len) (buf p)"
      "ld32 (IPH + ip_dst_addr) (buf q) = ld32 (IPH + ip_dst_addr) (buf p)"
      "ld16 (UDPH + udp_dst_port) (buf q) = ld16 (UDPH + udp_dst_port) (buf p)"
      "bytes_at PXH n (buf q) = bytes_at PXH n (buf p)"
      using same by (simp_all add: ld16_def ld32_def bytes_at_def)
    then show ?thesis using len(3,4) fields by metis
  qed
  then show ?thesis using dl' room len(1,2) by blast
qed

text \<open>C37: The length field of a delivered value is not compared with the room in the packet buffer: of a command that is longer, or one
  whose length field is below that of an empty request and wraps around, the bytes that do not fit are written into the memory behind the buffer of the answer.\<close>

theorem long_answer_overflows:
  assumes "takes_bursts waiting (tx S)" "alloc_ok S" "bufs_ok waiting dl" "learner_id dl = 0"
    and "is_accepted (rte S) pkt"
    and "learner_receive_accepted (lib S) (paxos_learner dl) (hdr_body PXH (buf pkt) (hdr_value PXH (buf pkt))) = (l, r)"
    and "learner_deliver_next (lib S) l = (l', c, out)" "c \<noteq> 0"
    and val: "val = paxos_value_val (body_value out)"
  shows "\<exists>dl' p. paxos_rx_process S pkt dl = Some (pkt, 0, dl') \<and> queued dl' = queued dl @ [p]
    \<and> (\<forall>i. RTE_MBUF_DEFAULT_DATAROOM \<le> i \<and> i < PXH + unat (content_length val) \<longrightarrow> buf p i = val (req_content + (i - PXH)))"
proof -
  let ?len = "ucast (content_length val) :: u64"
  define p where "p = client_reply (rte S) macs (from_offset req_content val) ?len (req_cliaddr val) (tx_mbufs dl ! nb_pkt_buf dl)"
  have "buf p i = val (req_content + (i - PXH))" if "RTE_MBUF_DEFAULT_DATAROOM \<le> i" "i < PXH + unat (content_length val)" for i
    using client_reply_payload[of "i - PXH" ?len] that
    by (simp add: p_def RTE_MBUF_DEFAULT_DATAROOM_def from_offset_def)
  then show ?thesis using delivered_reply[OF assms] unfolding p_def by blast
qed

text \<open>A delivered request: a command of 56 bytes of a client at port 3490 of 192.168.4.97, as an accepted message.\<close>

definition example_command :: mem where
  "example_command = st32 cmd_op (op_code SET) (\<lambda>i. of_nat i)"

definition example_value :: mem where
  "example_value = set_cliaddr \<lparr>sin_port = 3490, s_addr = 0x6104a8c0\<rparr> (create_client_request (\<lambda>_. 0) example_command 56)"

definition example_accepted :: mbuf where
  "example_accepted = add_paxos_message example_env \<lparr>mtype = 3, body = \<lparr>iid = 1, ballot = 1, value_ballot = 1, aid = 0,
     body_value = \<lparr>paxos_value_len = 74, paxos_value_val = example_value\<rparr>\<rparr>\<rparr> example_mbuf ACCEPTOR_PORT LEARNER_PORT LEARNER_ADDR"

lemma example_accepted: "is_accepted example_env example_accepted"
  by (simp add: is_accepted_def example_accepted_def add_paxos_message_def craft_new_packet_def Let_def hdr_defs mem_simps)

lemma example_value_fields:
  "content_length (from_offset 58 (buf example_accepted)) = 56"
  "s_addr (req_cliaddr (from_offset 58 (buf example_accepted))) = 0x6104a8c0"
proof -
  have "from_offset 58 (buf example_accepted) i = example_value i" if "i < 74" for i
    using that by (simp add: from_offset_def example_accepted_def sent_value[simplified])
  then have "ld16 0 (from_offset 58 (buf example_accepted)) = ld16 0 example_value"
    "ld32 6 (from_offset 58 (buf example_accepted)) = ld32 6 example_value"
    by (simp_all add: ld16_def ld32_def)
  then show "content_length (from_offset 58 (buf example_accepted)) = 56"
    "s_addr (req_cliaddr (from_offset 58 (buf example_accepted))) = 0x6104a8c0"
    by (simp_all add: content_length_def req_cliaddr_def example_value_def set_cliaddr_def create_client_request_def
        Let_def sizeof_client_request_def mem_simps)
qed

lemma example_delivery:
  "is_accepted (rte example_learner_env) example_accepted" "learner_id example_learner = 0"
  "learner_receive_accepted (lib example_learner_env) (paxos_learner example_learner)
     (hdr_body PXH (buf example_accepted) (hdr_value PXH (buf example_accepted)))
   = (Some (hdr_body PXH (buf example_accepted) (hdr_value PXH (buf example_accepted))), 1)"
  "learner_deliver_next (lib example_learner_env) (Some b) = (None, 1, b)"
  by (simp_all add: example_accepted example_learner_env_def echo_learner_def example_learner_def)

theorem delivered_value_answered_witness:
  "\<exists>dl' p. paxos_rx_process example_learner_env example_accepted example_learner = Some (example_accepted, 0, dl')
    \<and> queued dl' = [p] \<and> unat (pkt_len p) = 98 \<and> ld32 (IPH + ip_dst_addr) (buf p) = 0x6104a8c0"
proof -
  have "received p p" for p by (simp add: received_def)
  with delivered_value_answered[OF example_learner_ok example_delivery(2,1,3,4) _ refl refl]
  show ?thesis
    by (simp add: hdr_body_def hdr_value_def example_value_fields RTE_MBUF_DEFAULT_DATAROOM_def) (simp add: example_learner_def, blast)
qed

text \<open>A value of a client that says its command has 3000 bytes.\<close>

definition long_accepted :: mbuf where
  "long_accepted = add_paxos_message example_env \<lparr>mtype = 3, body = \<lparr>iid = 1, ballot = 1, value_ballot = 1, aid = 0,
     body_value = \<lparr>paxos_value_len = 74, paxos_value_val = st16 0 3018 (\<lambda>_. 7)\<rparr>\<rparr>\<rparr>
     (example_mbuf\<lparr>buf := (\<lambda>_. 7)\<rparr>) ACCEPTOR_PORT LEARNER_PORT LEARNER_ADDR"

lemma long_accepted: "is_accepted (rte example_learner_env) long_accepted"
  by (simp add: is_accepted_def long_accepted_def example_learner_env_def add_paxos_message_def craft_new_packet_def Let_def
      hdr_defs mem_simps)

lemma long_value:
  "content_length (from_offset 58 (buf long_accepted)) = 3000" "132 \<le> i \<Longrightarrow> buf long_accepted i = 7"
proof -
  have "from_offset 58 (buf long_accepted) i = st16 0 3018 (\<lambda>_. 7) i" if "i < 74" for i
    using that by (simp add: from_offset_def long_accepted_def sent_value[simplified])
  then have "ld16 0 (from_offset 58 (buf long_accepted)) = ld16 0 (st16 0 3018 (\<lambda>_. 7))" by (simp add: ld16_def)
  then show "content_length (from_offset 58 (buf long_accepted)) = 3000" by (simp add: content_length_def sizeof_client_request_def mem_simps)
  show "buf long_accepted i = 7" if "132 \<le> i"
    unfolding long_accepted_def by (subst add_paxos_message_frame[OF refl refl]) (use that in simp_all)
qed

theorem long_answer_overflows_witness:
  "\<exists>dl' p. paxos_rx_process example_learner_env long_accepted example_learner = Some (long_accepted, 0, dl')
    \<and> queued dl' = [p] \<and> buf p 2500 = 7"
proof -
  let ?ack = "hdr_body PXH (buf long_accepted) (hdr_value PXH (buf long_accepted))"
  have r: "learner_receive_accepted (lib example_learner_env) (paxos_learner example_learner) ?ack = (Some ?ack, 1)"
    by (simp add: example_learner_env_def echo_learner_def)
  have q: "queued example_learner = []" by (simp add: example_learner_def)
  from long_answer_overflows[OF example_learner_ok example_delivery(2) long_accepted r example_delivery(4) _ refl]
  obtain dl' p where p: "paxos_rx_process example_learner_env long_accepted example_learner = Some (long_accepted, 0, dl')"
    "queued dl' = [p]" "\<forall>i. 2048 \<le> i \<and> i < 3042 \<longrightarrow> buf p i = from_offset 58 (buf long_accepted) (18 + (i - 42))"
    by (auto simp: hdr_body_def hdr_value_def long_value q RTE_MBUF_DEFAULT_DATAROOM_def)
  have "buf p 2500 = 7" using p(3) by (simp add: from_offset_def long_value(2))
  then show ?thesis using p(1,2) by blast
qed

section \<open>Commands\<close>

text \<open>A delivered SET is in the database afterwards, its 16-byte key bound to its 16-byte value and every other
  key as before, when LevelDB reports no error; a GET changes nothing.\<close>

theorem execute_command:
  assumes "leveldb_ok store A" "snd (leveldb_put A (db ctx) False key value) = None"
    and "key = bytes_at cmd_content 16 cmd" "value = bytes_at (cmd_content + 16) 16 cmd"
  shows "store (db (execute A cmd ctx)) =
    (if ld32 cmd_op cmd = op_code SET then (store (db ctx))(key := Some value) else store (db ctx))"
  using assms leveldb_putD[OF assms(1)]
  by (auto simp: execute_def add_entry_def Let_def split: prod.splits)

theorem execute_command_witness:
  "db (execute map_db example_command \<lparr>db = (\<lambda>_. None), woptions_sync = False\<rparr>)
     (bytes_at cmd_content 16 example_command) = Some (bytes_at (cmd_content + 16) 16 example_command)"
  using execute_command[OF map_db_ok _ refl refl, of "\<lparr>db = (\<lambda>_. None), woptions_sync = False\<rparr>" example_command]
  by (simp add: map_db_def) (simp add: example_command_def mem_simps)

section \<open>Statistics\<close>

text \<open>A burst the device takes while a client is answered is counted twice: once when the buffers are
  replaced and once more after it.\<close>

theorem burst_counted_twice:
  assumes "takes_bursts waiting (tx S)" "alloc_ok S" "bufs_ok waiting dl" "waiting (dev dl) + 1 = BURST_SIZE"
    and "dp_learner_send S data len dest dl = Some (r, dl')"
  shows "tx_counter dl' = tx_counter dl + 2 * of_nat BURST_SIZE"
proof -
  let ?p = "client_reply (rte S) macs data len dest (tx_mbufs dl ! nb_pkt_buf dl)"
  obtain d n where d: "tx_buffer (tx S) (dev dl) ?p = (d, n)" by fastforce
  have n: "unat n = BURST_SIZE"
    using assms(1,4) d unfolding takes_bursts_def by (metis (mono_tags, lifting) case_prod_conv less_add_one nat_neq_iff)
  then have n': "n = 32" by (simp add: BURST_SIZE_def word_unat_eq_iff)
  let ?dl = "dl\<lparr>nb_pkt_buf := nb_pkt_buf dl + 1, dev := d, queued := queued dl @ [?p]\<rparr>"
  obtain dl1 where "reset_tx_mbufs S BURST_SIZE ?dl = Some dl1" "tx_counter dl1 = tx_counter dl + of_nat BURST_SIZE"
    using reset_tx_mbufs_ok[OF assms(2), of ?dl BURST_SIZE] assms(3) by (auto simp: bufs_ok_def)
  then show ?thesis
    using assms(3,4,5) d by (auto simp: dp_learner_send_def bufs_ok_def Let_def n' BURST_SIZE_def)
qed

theorem burst_counted_twice_witness:
  "\<exists>dl'. dp_learner_send example_learner_env (\<lambda>_. 0) 56 \<lparr>sin_port = 1, s_addr = 2\<rparr> (example_learner\<lparr>nb_pkt_buf := 31, dev := 31\<rparr>)
      = Some (0, dl') \<and> tx_counter dl' = 64"
proof -
  let ?dl = "example_learner\<lparr>nb_pkt_buf := 31, dev := 31\<rparr>"
  have ok: "bufs_ok (\<lambda>d. d) ?dl" by (simp add: bufs_ok_def example_learner_def BURST_SIZE_def)
  from send_bufs_ok[OF example_learner_ok(1,2) ok, of "\<lambda>_. 0" 56 "\<lparr>sin_port = 1, s_addr = 2\<rparr>"]
  obtain dl' where dl': "dp_learner_send example_learner_env (\<lambda>_. 0) 56 \<lparr>sin_port = 1, s_addr = 2\<rparr> ?dl = Some (0, dl')" by blast
  from burst_counted_twice[OF example_learner_ok(1,2) ok _ dl'] show ?thesis
    using dl' by (simp add: BURST_SIZE_def example_learner_def)
qed

text \<open>The learner's report divides by the number of values delivered since the last report, which may be none
  when the answers to earlier ones are sent: a packet that leaves between two reports, with no value delivered between
  them, makes the second one divide by zero.\<close>

theorem report_stat_divides_by_zero:
  assumes "now \<noteq> udata64 pkt"
  shows "snd (snd (fst (report_stat (fst (calc_cycles now [pkt] 1 (snd (report_stat dl))))))) = None"
  using assms by (simp add: report_stat_def calc_cycles_def sum_latency_def word_gt_0 Let_def)

theorem report_stat_divides_by_zero_witness:
  "snd (snd (fst (report_stat (fst (calc_cycles 5 [example_mbuf] 1 (snd (report_stat example_learner))))))) = None"
  by (rule report_stat_divides_by_zero) (simp add: example_mbuf_def)

section \<open>Holes\<close>

lemma prepare_holes_last:
  assumes "\<And>l i. body_value (snd (learner_prepare L l i)) = NULL_value \<and> iid (snd (learner_prepare L l i)) = i"
  shows "iids \<noteq> [] \<Longrightarrow> iid (hdr_body PXH (buf (snd (prepare_holes E L iids (l, pkt)))) v) = last iids"
proof (induction iids arbitrary: l pkt)
  case (Cons i iids)
  obtain l' p where p: "learner_prepare L l i = (l', p)" by fastforce
  then have "iid p = i" "body_value p = NULL_value" using assms[of l i] by auto
  then have "iid (hdr_body PXH (buf (add_paxos_message E \<lparr>mtype = 0, body = p\<rparr> pkt LEARNER_PORT ACCEPTOR_PORT ACCEPTOR_ADDR)) v) = i"
    by (subst sent_hdr) (simp_all add: NULL_value_def)
  then show ?case using Cons.IH by (cases iids) (auto simp: p)
qed simp


text \<open>
  \<^verbatim>\<open>check_holes\<close> writes the prepare messages of all the missing instances to one packet, where only
  the last of them stays.
\<close>

lemma check_holes_last:
  assumes "\<And>l i. body_value (snd (learner_prepare L l i)) = NULL_value \<and> iid (snd (learner_prepare L l i)) = i"
    and "learner_has_holes L l = (1, from_inst, to_inst)" "from_inst < to_inst"
  shows "iid (hdr_body PXH (buf (snd (check_holes E L (l, pkt)))) v) = to_inst - 1"
proof -
  have less: "unat from_inst < unat to_inst" using assms(3) by (simp add: word_less_nat_alt)
  then have "last (map of_nat [unat from_inst..<unat to_inst]) = (of_nat (unat to_inst - 1) :: u32)"
    by (simp add: last_map last_upt)
  moreover have "(of_nat (unat to_inst - 1) :: u32) = to_inst - 1"
    using less by (simp add: of_nat_diff)
  ultimately show ?thesis
    using prepare_holes_last[OF assms(1)] less by (simp add: check_holes_def assms(2))
qed

section \<open>Start-up\<close>

definition port_init :: "api \<Rightarrow> u8 \<Rightarrow> int host" where
  "port_init api port = do {
     calls [dev_info_get port];
     n \<leftarrow> ask api dev_count;
     if uint port \<ge> n then State_Monad.return (-1)
     else do {
       retval \<leftarrow> ask api (dev_configure port 1 1);
       if retval \<noteq> 0 then State_Monad.return retval
       else do {
         retval \<leftarrow> ask api (rx_queue_setup port 0);
         if retval < 0 then State_Monad.return retval
         else do {
           retval \<leftarrow> ask api (tx_queue_setup port 0);
           if retval < 0 then State_Monad.return retval
           else do {
             retval \<leftarrow> ask api (dev_start port);
             if retval < 0 then State_Monad.return retval
             else do {
               calls [promiscuous_enable port];
               calls [add_rx_callback port ''add_timestamps'', add_tx_callback port ''calc_cycles''];
               State_Monad.return 0
             }
           }
         }
       }
     }
   }"

definition callbacks :: "u8 \<Rightarrow> call list" where
  "callbacks port = [add_rx_callback port ''add_timestamps'', add_tx_callback port ''calc_cycles'']"

text \<open>\<^verbatim>\<open>main\<close>, as it is compiled without \<^verbatim>\<open>ORDER_DELIVERY\<close>; the loop first allocates its buffers.\<close>

definition main :: "getopt \<Rightarrow> api \<Rightarrow> outcome host" where
  "main opts api = do {
     calls [signal 15, signal 2];
     ret \<leftarrow> ask api eal_init;
     if ret < 0 then State_Monad.return (Exit_failure ''Error with EAL initialization'')
     else case parse_args opts of Inl e \<Rightarrow> State_Monad.return (Exit_failure e) | Inr cfg \<Rightarrow> do {
       mbuf_pool \<leftarrow> ask api (pool_create ''MBUF_POOL'');
       if mbuf_pool = 0 then State_Monad.return (Exit_failure ''Cannot create MBUF_POOL'')
       else do {
         mbuf_tx \<leftarrow> ask api (pool_create ''MBUF_TX'');
         if mbuf_tx = 0 then State_Monad.return (Exit_failure ''Cannot create MBUF_TX'')
         else do {
           calls [paxos_new ''learner'', timer_hz];
           calls (if cfg_level_db cfg \<noteq> 0 then [leveldb_new] else []);
           tx_buffer \<leftarrow> ask api zmalloc_tx_buffer;
           if tx_buffer = 0 then State_Monad.return (Exit_failure ''Cannot allocate buffer for tx'')
           else do {
             calls [tx_buffer_init BURST_SIZE];
             ret \<leftarrow> ask api set_err_callback;
             if ret < 0 then State_Monad.return (Exit_failure ''Cannot set error callback'')
             else do {
               calls [next_lcore, timer_reset ''timer'' ''report_stat'',
                      remote_launch ''check_timer_expiration'', timer_subsystem_init];
               r \<leftarrow> port_init api 0;
               if r \<noteq> 0 then State_Monad.return (Exit_failure ''Cannot init port'')
               else do {
                 calls [alloc_mbufs BURST_SIZE, lcore_loop 0];
                 calls (if cfg_level_db cfg \<noteq> 0 then [leveldb_free] else []);
                 calls [paxos_free ''learner''];
                 State_Monad.return (Returned 0)
               }
             }
           }
         }
       }
     }
   }"

interpretation learner_port: port_initialiser port_init callbacks
proof
  show "\<exists>pre mid. log' = log @ pre @ [dev_start p] @ mid @ callbacks p
      \<and> (\<forall>c \<in> set (pre @ mid). \<not> is_callback c \<and> \<not> is_loop c)"
    if "run_state (port_init api p) log = (0, log')" for api p log log'
    using that
    by (intro exI[of _ "[dev_info_get p, dev_count, dev_configure p 1 1, rx_queue_setup p 0, tx_queue_setup p 0]"]
        exI[of _ "[promiscuous_enable p]"])
      (auto simp: port_init_def callbacks_def trace_simps Let_def split: if_splits)
  show "\<exists>suf. log' = log @ suf \<and> (\<forall>c \<in> set suf. \<not> is_callback c \<and> \<not> is_loop c)"
    if "run_state (port_init api p) log = (r, log')" "r \<noteq> 0" for api p log r log'
    using that by (auto simp: port_init_def trace_simps Let_def split: if_splits)
qed

abbreviation (input) startup :: "bool \<Rightarrow> call list" where
  "startup use_db \<equiv> [signal 15, signal 2, eal_init, pool_create ''MBUF_POOL'', pool_create ''MBUF_TX'', paxos_new ''learner'',
     timer_hz] @ (if use_db then [leveldb_new] else []) @ [zmalloc_tx_buffer, tx_buffer_init BURST_SIZE, set_err_callback,
     next_lcore, timer_reset ''timer'' ''report_stat'', remote_launch ''check_timer_expiration'', timer_subsystem_init]"

lemma learner_main_run:
  assumes "run_state (main opts api) [] = (Returned v, log)"
  shows "\<exists>b l1. run_state (port_init api 0) (startup b) = (0, l1)
    \<and> log = l1 @ [alloc_mbufs BURST_SIZE] @ [lcore_loop 0] @ (if b then [leveldb_free] else []) @ [paxos_free ''learner'']"
proof (cases "parse_args opts")
  case (Inr cfg)
  show ?thesis
    by (rule exI[of _ "cfg_level_db cfg \<noteq> 0"], cases "cfg_level_db cfg = 0")
      (use assms Inr in \<open>simp_all add: main_def guard_returned split: prod.splits\<close>)
qed (use assms in \<open>simp add: main_def guard_returned\<close>)

interpretation learner_main: dpdk_program port_init callbacks "main opts" for opts
proof
  show "\<exists>l0 l1 mid post. run_state (port_init api 0) l0 = (0, l1) \<and> log = l1 @ mid @ [lcore_loop 0] @ post
      \<and> (\<forall>c \<in> set (l0 @ mid @ post). \<not> is_callback c \<and> \<not> is_loop c)"
    if run: "run_state (main opts api) [] = (Returned v, log)" for api v log
  proof -
    obtain b l1 where "run_state (port_init api 0) (startup b) = (0, l1)"
      "log = l1 @ [alloc_mbufs BURST_SIZE] @ [lcore_loop 0] @ (if b then [leveldb_free] else []) @ [paxos_free ''learner'']"
      using learner_main_run[OF run] by (elim exE conjE) (rule that)
    moreover have "\<forall>c \<in> set (startup b @ [alloc_mbufs BURST_SIZE] @ (if b then [leveldb_free] else [])
        @ [paxos_free ''learner'']). \<not> is_callback c \<and> \<not> is_loop c"
      by (cases b) (simp_all add: trace_simps)
    ultimately show ?thesis by metis
  qed
  show "\<forall>c \<in> set log. \<not> is_loop c" if run: "run_state (main opts api) [] = (Exit_failure msg, log)" for api msg log
  proof -
    have "exits_early (main opts api) []"
      by (simp add: main_def is_loop_def learner_port.exits_early_init exits_early_if quiet_if
        split: sum.split split del: if_split)
    then show ?thesis using run by (simp add: exits_early_def quiet_def)
  qed
qed

end
