(* ===== verification/Dpdk_Replication.thy ===== *)
theory Dpdk_Replication
  imports Dpdk_System Dpdk_Learner "HOL-Library.Sublist"
begin

text \<open>
  Learners on a deployment of \<open>Dpdk_System\<close>: each runs the packet handler of \<open>Dpdk_Learner\<close> on whatever
  arrives of the packets in the network, in any order and any number of times.  With the learner of
  libpaxos under its contract, the learners deliver the same values in the same order, and so keep
  the same database.
\<close>

section \<open>The contract of libpaxos's learner\<close>

text \<open>What a learner remembers: the votes it was told of (acceptor, instance, ballot, value), and the next instance.\<close>

record 'l learner_memory =
  heard :: "'l \<Rightarrow> (u16 \<times> u32 \<times> u16 \<times> u8 list) set"
  next_inst :: "'l \<Rightarrow> u32"

definition decided :: "nat \<Rightarrow> (u16 \<times> u32 \<times> u16 \<times> u8 list) set \<Rightarrow> u32 \<Rightarrow> u8 list \<Rightarrow> bool" where
  "decided n H i v \<longleftrightarrow> (\<exists>b A. n < 2 * card A \<and> (\<forall>a\<in>A. (a, i, b, v) \<in> H))"

text \<open>It delivers the instances in order, each once a majority has voted for its value in one ballot; it forgets at will.\<close>

definition learner_ok :: "nat \<Rightarrow> 'l learner_api \<Rightarrow> 'l learner_memory \<Rightarrow> bool" where
  "learner_ok n L K \<longleftrightarrow>
     (\<forall>l m l' r. learner_receive_accepted L l m = (l', r) \<longrightarrow> next_inst K l' = next_inst K l
        \<and> heard K l' \<subseteq> insert (aid m, iid m, ballot m, value_bytes (body_value m)) (heard K l)) \<and>
     (\<forall>l l' k out. learner_deliver_next L l = (l', k, out) \<longrightarrow> heard K l' \<subseteq> heard K l
        \<and> (if k \<noteq> 0 then iid out = next_inst K l \<and> next_inst K l' = next_inst K l + 1
             \<and> decided n (heard K l) (iid out) (value_bytes (body_value out))
           else next_inst K l' = next_inst K l)) \<and>
     (\<forall>l m l' r acc. learner_receive_promise L l m = (l', r, acc) \<longrightarrow> next_inst K l' = next_inst K l \<and> heard K l' \<subseteq> heard K l)"

section \<open>What a learner delivers\<close>

text \<open>The message libpaxos delivers while the handler works on a packet, if any.\<close>

definition delivered :: "('l, 'd, 'b) learner_env \<Rightarrow> mbuf \<Rightarrow> ('l, 'd, 'b) dp_learner \<Rightarrow> paxos_accepted list" where
  "delivered S pkt dl =
    (if is_accepted (learner_env.rte S) pkt
     then case learner_receive_accepted (lib S) (paxos_learner dl) (hdr_body PXH (buf pkt) (hdr_value PXH (buf pkt))) of (l, _) \<Rightarrow>
       (case learner_deliver_next (lib S) l of (_, consensus, out) \<Rightarrow> if consensus \<noteq> 0 then [out] else [])
     else [])"

text \<open>The deliveries of a run of the handler, up to an access outside the buffer array if there is one.\<close>

fun deliveries :: "('l, 'd, 'b) learner_env \<Rightarrow> mbuf list \<Rightarrow> ('l, 'd, 'b) dp_learner \<Rightarrow> paxos_accepted list" where
  "deliveries S [] dl = []"
| "deliveries S (pkt # pkts) dl = (case Dpdk_Learner.paxos_rx_process S pkt dl of
     None \<Rightarrow> [] | Some (_, _, dl') \<Rightarrow> delivered S pkt dl @ deliveries S pkts dl')"

definition delivery_log :: "('l, 'd, 'b) learner_env \<Rightarrow> mbuf list \<Rightarrow> ('l, 'd, 'b) dp_learner \<Rightarrow> (u32 \<times> u8 list) list" where
  "delivery_log S pkts dl = map (\<lambda>m. (iid m, value_bytes (body_value m))) (deliveries S pkts dl)"

lemma reset_tx_mbufs_keeps:
  "reset_tx_mbufs S k dl = Some dl' \<Longrightarrow> paxos_learner dl' = paxos_learner dl \<and> leveldb dl' = leveldb dl \<and> enable_leveldb dl' = enable_leveldb dl"
  by (auto simp: reset_tx_mbufs_def Let_def split: option.splits if_splits)

lemma send_keeps:
  assumes "dp_learner_send S d k a dl = Some (r, dl')"
  shows "paxos_learner dl' = paxos_learner dl \<and> leveldb dl' = leveldb dl \<and> enable_leveldb dl' = enable_leveldb dl"
  using assms by (auto simp: dp_learner_send_def Let_def split: if_splits prod.splits dest!: reset_tx_mbufs_keeps)

lemma deliver_keeps:
  assumes "deliver S i val k dl = Some (r, dl')"
  shows "paxos_learner dl' = paxos_learner dl \<and> enable_leveldb dl' = enable_leveldb dl
    \<and> leveldb dl' = (if enable_leveldb dl \<noteq> 0 then execute (ldb S) (from_offset (sizeof_client_request - 1) val) (leveldb dl)
       else leveldb dl)"
  using assms by (auto simp: deliver_def Let_def split: if_splits dest!: send_keeps)

text \<open>What a delivered message does to the database.\<close>

definition apply_value :: "'b leveldb_api \<Rightarrow> paxos_accepted \<Rightarrow> 'b leveldb_ctx \<Rightarrow> 'b leveldb_ctx" where
  "apply_value A m = execute A (from_offset (sizeof_client_request - 1) (paxos_value_val (body_value m)))"

lemma rx_process_leveldb:
  assumes "Dpdk_Learner.paxos_rx_process S pkt dl = Some (p, r, dl')"
  shows "enable_leveldb dl' = enable_leveldb dl"
    "enable_leveldb dl \<noteq> 0 \<Longrightarrow> leveldb dl' = fold (apply_value (ldb S)) (delivered S pkt dl) (leveldb dl)"
  using assms
  by (auto simp: Dpdk_Learner.paxos_rx_process_def delivered_def is_accepted_def apply_value_def Let_def
      split: if_splits prod.splits dest!: deliver_keeps)

text \<open>The state of libpaxos's learner after a packet.\<close>

lemma rx_process_learner:
  assumes "Dpdk_Learner.paxos_rx_process S pkt dl = Some (p, r, dl')"
  obtains (accepted) l ret k out where "is_accepted (learner_env.rte S) pkt"
      "learner_receive_accepted (lib S) (paxos_learner dl) (hdr_body PXH (buf pkt) (hdr_value PXH (buf pkt))) = (l, ret)"
      "learner_deliver_next (lib S) l = (paxos_learner dl', k, out)" "delivered S pkt dl = (if k \<noteq> 0 then [out] else [])"
  | (promise) m ret acc where "learner_receive_promise (lib S) (paxos_learner dl) m = (paxos_learner dl', ret, acc)"
      "delivered S pkt dl = []"
  | (other) "paxos_learner dl' = paxos_learner dl" "delivered S pkt dl = []"
  using assms
  by (auto simp: Dpdk_Learner.paxos_rx_process_def delivered_def is_accepted_def Let_def
      split: if_splits prod.splits dest!: deliver_keeps)

section \<open>Votes on the wire\<close>

text \<open>The votes a learner can be told of: those of the accepted messages in the network.\<close>

definition wire_votes :: "nat \<Rightarrow> ('a, 'd) deployment \<Rightarrow> (u16 \<times> u32 \<times> u16 \<times> u8 list) set" where
  "wire_votes n s = {(k, i, b, v). \<exists>a<n. k = of_nat a \<and> dpdk_voted i s a b v}"

lemma heard_on_wire:
  assumes inv: "dpdk_inv n L M s" and q: "(x, q) \<in> dnet s" "received q p" and acc: "is_accepted E p"
  defines "m \<equiv> hdr_body PXH (buf p) (hdr_value PXH (buf p))"
  shows "(aid m, iid m, ballot m, value_bytes (body_value m)) \<in> wire_votes n s"
proof -
  have ok: "packet_ok n x q" using inv q(1) by (simp add: dpdk_inv_def)
  note hdr = received_hdr[OF q(2)]
  have type: "unat (hdr_msgtype PXH (buf q)) = msg_code PAXOS_ACCEPTED"
    using acc hdr(1) ok by (simp add: is_accepted_def packet_ok_def Let_def)
  then obtain a where a: "whole q" "a < n" "x = Acc a" "names_acceptor q = of_nat a" using ok by (auto simp: packet_ok_def Let_def)
  have "says PAXOS_ACCEPTED (iid m) (ballot m) (value_bytes (body_value m)) p"
    using acc by (simp add: says_def is_accepted_def m_def hdr_body_def)
  then have "dpdk_voted (iid m) s a (ballot m) (value_bytes (body_value m))"
    using received_says[OF q(2) a(1)] q(1) a(3) by (auto simp: dpdk_voted_def)
  moreover have "aid m = of_nat a"
    using a(4) hdr(2)[OF whole_headed[OF a(1)], of NULL_value] by (simp add: m_def names_acceptor_def hdr_body_def)
  ultimately show ?thesis using a(2) by (auto simp: wire_votes_def)
qed

lemma decided_chosen:
  assumes "decided n (wire_votes n s) i v" "n \<le> 2 ^ 16"
  shows "dpdk_chosen n i s v"
proof -
  obtain b A where A: "n < 2 * card A" "\<forall>k\<in>A. (k, i, b, v) \<in> wire_votes n s"
    using assms(1) unfolding decided_def by blast
  define Q where "Q = {a. a < n \<and> (of_nat a :: u16) \<in> A}"
  have "majority n Q" unfolding Q_def by (rule majority_of_ids[OF A(1)]) (use A(2) in \<open>auto simp: wire_votes_def\<close>)
  moreover have "dpdk_voted i s a b v" if a: "a \<in> Q" for a
  proof -
    obtain c where c: "c < n" "(of_nat a :: u16) = of_nat c" "dpdk_voted i s c b v"
      using A(2) a by (auto simp: Q_def wire_votes_def)
    have "a = c" by (rule of_nat_id[OF _ c(1) assms(2) c(2)]) (use a in \<open>simp add: Q_def\<close>)
    then show ?thesis using c(3) by simp
  qed
  ultimately show ?thesis unfolding dpdk_chosen_def by blast
qed

lemma decided_mono: "decided n H i v \<Longrightarrow> H \<subseteq> H' \<Longrightarrow> decided n H' i v"
  unfolding decided_def by (meson subsetD)

section \<open>Replication\<close>

lemma learner_okD:
  assumes "learner_ok n L K"
  shows "learner_receive_accepted L l m = (l', r) \<Longrightarrow> next_inst K l' = next_inst K l
      \<and> heard K l' \<subseteq> insert (aid m, iid m, ballot m, value_bytes (body_value m)) (heard K l)"
    "learner_deliver_next L l = (l', k, out) \<Longrightarrow> heard K l' \<subseteq> heard K l"
    "learner_deliver_next L l = (l', k, out) \<Longrightarrow> k \<noteq> 0 \<Longrightarrow> iid out = next_inst K l \<and> next_inst K l' = next_inst K l + 1
      \<and> decided n (heard K l) (iid out) (value_bytes (body_value out))"
    "learner_deliver_next L l = (l', k, out) \<Longrightarrow> k = 0 \<Longrightarrow> next_inst K l' = next_inst K l"
    "learner_receive_promise L l m = (l', r', acc) \<Longrightarrow> next_inst K l' = next_inst K l \<and> heard K l' \<subseteq> heard K l"
  using assms unfolding learner_ok_def by (metis | blast)+

text \<open>One packet: what was heard stays on the wire, and what is delivered is the next instance with a chosen value.\<close>

lemma learner_packet:
  assumes inv: "dpdk_inv n L M s" and n: "n \<le> 2 ^ 16" and lib: "learner_ok n (lib S) K"
    and q: "(x, q) \<in> dnet s" "received q pkt" and old: "heard K (paxos_learner dl) \<subseteq> wire_votes n s"
    and run: "Dpdk_Learner.paxos_rx_process S pkt dl = Some (p, r, dl')"
  shows "heard K (paxos_learner dl') \<subseteq> wire_votes n s"
    "next_inst K (paxos_learner dl') = next_inst K (paxos_learner dl) + of_nat (length (delivered S pkt dl))"
    "m \<in> set (delivered S pkt dl) \<Longrightarrow> iid m = next_inst K (paxos_learner dl) \<and> dpdk_chosen n (next_inst K (paxos_learner dl)) s (value_bytes (body_value m))"
proof -
  have "heard K (paxos_learner dl') \<subseteq> wire_votes n s \<and>
    next_inst K (paxos_learner dl') = next_inst K (paxos_learner dl) + of_nat (length (delivered S pkt dl)) \<and>
    (\<forall>m \<in> set (delivered S pkt dl). iid m = next_inst K (paxos_learner dl) \<and> dpdk_chosen n (next_inst K (paxos_learner dl)) s (value_bytes (body_value m)))"
    using run
  proof (cases rule: rx_process_learner)
    case (accepted l ret k out)
    note rec = learner_okD(1)[OF lib accepted(2)] and del = learner_okD(2-4)[OF lib accepted(3)]
    have l: "heard K l \<subseteq> wire_votes n s" using rec heard_on_wire[OF inv q accepted(1)] old by blast
    have "dpdk_chosen n (iid out) s (value_bytes (body_value out))" if "k \<noteq> 0"
      by (rule decided_chosen[OF decided_mono[OF _ l] n]) (use del(2)[OF that] in blast)
    then show ?thesis using accepted(4) rec del l by auto
  next
    case (promise m ret acc)
    then show ?thesis using learner_okD(5)[OF lib promise(1)] old by auto
  next
    case other
    then show ?thesis using old by simp
  qed
  then show "heard K (paxos_learner dl') \<subseteq> wire_votes n s"
    "next_inst K (paxos_learner dl') = next_inst K (paxos_learner dl) + of_nat (length (delivered S pkt dl))"
    "m \<in> set (delivered S pkt dl) \<Longrightarrow> iid m = next_inst K (paxos_learner dl) \<and> dpdk_chosen n (next_inst K (paxos_learner dl)) s (value_bytes (body_value m))"
    by blast+
qed

text \<open>A packet that reached a learner from the network.\<close>

definition arrived :: "('a, 'd) deployment \<Rightarrow> mbuf \<Rightarrow> bool" where
  "arrived s p \<longleftrightarrow> (\<exists>x q. (x, q) \<in> dnet s \<and> received q p)"

lemma delivered_length: "length (delivered S pkt dl) \<le> 1"
  by (simp add: delivered_def split: prod.split)

lemma deliveries_chosen:
  assumes inv: "dpdk_inv n L M s" and n: "n \<le> 2 ^ 16" and lib: "learner_ok n (lib S) K"
    and "heard K (paxos_learner dl) \<subseteq> wire_votes n s" "\<forall>p \<in> set pkts. arrived s p" "k < length (deliveries S pkts dl)"
  shows "iid (deliveries S pkts dl ! k) = next_inst K (paxos_learner dl) + of_nat k \<and>
    dpdk_chosen n (next_inst K (paxos_learner dl) + of_nat k) s (value_bytes (body_value (deliveries S pkts dl ! k)))"
  using assms(4-6)
proof (induction pkts arbitrary: dl k)
  case (Cons pkt pkts)
  obtain p r dl' where run: "Dpdk_Learner.paxos_rx_process S pkt dl = Some (p, r, dl')"
    using Cons.prems(3) by (auto split: option.splits)
  obtain x q where q: "(x, q) \<in> dnet s" "received q pkt" using Cons.prems(2) by (auto simp: arrived_def)
  note step = learner_packet[OF inv n lib q Cons.prems(1) run]
  consider "delivered S pkt dl = []" | m where "delivered S pkt dl = [m]"
    using delivered_length[of S pkt dl] by (cases "delivered S pkt dl") auto
  then show ?case
  proof cases
    case 1
    then show ?thesis using Cons.IH[OF step(1), of k] Cons.prems(2,3) step(2) run by simp
  next
    case 2
    then show ?thesis
      using Cons.IH[OF step(1), of "k - 1"] Cons.prems(2,3) step(2) step(3)[of m] run by (cases k) (simp_all add: add.assoc)
  qed
qed simp

text \<open>A learner that starts without any votes and is handed packets of the network.\<close>

definition replica ::
  "nat \<Rightarrow> ('a, 'e) deployment \<Rightarrow> ('l, 'd, 'b) learner_env \<Rightarrow> 'l learner_memory \<Rightarrow> mbuf list \<Rightarrow> ('l, 'd, 'b) dp_learner \<Rightarrow> bool" where
  "replica n s S K pkts dl \<longleftrightarrow> learner_ok n (lib S) K \<and> heard K (paxos_learner dl) = {} \<and> (\<forall>p \<in> set pkts. arrived s p)"

lemma prefix_comparable:
  assumes "\<And>k. k < length xs \<Longrightarrow> k < length ys \<Longrightarrow> xs ! k = ys ! k"
  shows "prefix xs ys \<or> prefix ys xs"
proof (cases "length xs \<le> length ys")
  case True
  then have "take (length xs) ys = xs" using assms by (auto intro: nth_equalityI)
  then show ?thesis using take_is_prefix by metis
next
  case False
  then have "take (length ys) xs = ys" using assms by (auto intro: nth_equalityI)
  then show ?thesis using take_is_prefix by metis
qed

lemma logs_agree:
  assumes "acceptor_ok L M" "dpdk_start M s" "(dpdk_step E T port L n)\<^sup>*\<^sup>* s t" and n: "n \<le> 2 ^ 16"
    and "replica n t S K pkts dl" "replica n t S' K' pkts' dl'"
    and "next_inst K (paxos_learner dl) = next_inst K' (paxos_learner dl')"
    and "k < length (delivery_log S pkts dl)" "k < length (delivery_log S' pkts' dl')"
  shows "delivery_log S pkts dl ! k = delivery_log S' pkts' dl' ! k"
proof -
  have s: "acceptor_ok L M \<and> dpdk_start M s" using assms(1,2) ..
  have inv: "dpdk_inv n L M t" by (rule dpdk.run_inv[OF assms(3) dpdk.init_inv[OF s]])
  let ?x = "deliveries S pkts dl ! k" and ?y = "deliveries S' pkts' dl' ! k"
  have x: "iid ?x = next_inst K (paxos_learner dl) + of_nat k \<and>
      dpdk_chosen n (next_inst K (paxos_learner dl) + of_nat k) t (value_bytes (body_value ?x))"
    using assms(5,8) by (intro deliveries_chosen[OF inv n]) (auto simp: replica_def delivery_log_def)
  have y: "iid ?y = next_inst K' (paxos_learner dl') + of_nat k \<and>
      dpdk_chosen n (next_inst K' (paxos_learner dl') + of_nat k) t (value_bytes (body_value ?y))"
    using assms(6,9) by (intro deliveries_chosen[OF inv n]) (auto simp: replica_def delivery_log_def)
  have "value_bytes (body_value ?x) = value_bytes (body_value ?y)"
    using dpdk.agreement[OF s assms(3), of "iid ?x"] x y assms(7) unfolding dpdk_chosen_view[where M = M] by simp
  then show ?thesis using x y assms(7-9) by (simp add: delivery_log_def)
qed

text \<open>C5: Total order: two learners of a deployment deliver the same values for the same instances in the same order,
  whatever arrives at each of them and when; one of them may only be behind.\<close>

theorem learners_agree:
  assumes "acceptor_ok L M" "dpdk_start M s" "(dpdk_step E T port L n)\<^sup>*\<^sup>* s t" "n \<le> 2 ^ 16"
    and "replica n t S K pkts dl" "replica n t S' K' pkts' dl'"
    and "next_inst K (paxos_learner dl) = next_inst K' (paxos_learner dl')"
  shows "prefix (delivery_log S pkts dl) (delivery_log S' pkts' dl') \<or> prefix (delivery_log S' pkts' dl') (delivery_log S pkts dl)"
  by (rule prefix_comparable, rule logs_agree[OF assms])

section \<open>The databases\<close>

text \<open>A command is read from the first 74 bytes of a value.\<close>

lemma apply_value_cong:
  assumes "value_bytes (body_value m) = value_bytes (body_value m')" "74 \<le> length (value_bytes (body_value m))"
  shows "apply_value A m = apply_value A m'"
proof -
  have "paxos_value_val (body_value m) k = paxos_value_val (body_value m') k" if "k < 74" for k
    using arg_cong[OF assms(1), of "\<lambda>xs. xs ! k"] arg_cong[OF assms(1), of length] that assms(2)
    by (simp add: value_bytes_def bytes_at_def)
  then have "ld32 cmd_op (from_offset 18 (paxos_value_val (body_value m))) = ld32 cmd_op (from_offset 18 (paxos_value_val (body_value m')))"
    "bytes_at 42 16 (paxos_value_val (body_value m)) = bytes_at 42 16 (paxos_value_val (body_value m'))"
    "bytes_at 58 16 (paxos_value_val (body_value m)) = bytes_at 58 16 (paxos_value_val (body_value m'))"
    by (simp_all add: ld32_def ld16_def from_offset_def bytes_at_def)
  then show ?thesis
    unfolding apply_value_def execute_def by (simp add: sizeof_client_request_def Let_def fun_eq_iff)
qed

lemma callback_leveldb:
  assumes "Dpdk_Learner.add_timestamps S now pkts dl = Some (ps, dl')"
  shows "enable_leveldb dl \<noteq> 0 \<Longrightarrow> leveldb dl' = fold (apply_value (ldb S)) (deliveries S pkts dl) (leveldb dl)"
  using assms
proof (induction pkts arbitrary: dl ps)
  case (Cons pkt pkts)
  obtain p r dl1 where 1: "Dpdk_Learner.paxos_rx_process S pkt dl = Some (p, r, dl1)"
    using Cons.prems(2) by (auto split: option.splits)
  obtain ps' where 2: "Dpdk_Learner.add_timestamps S now pkts dl1 = Some (ps', dl')"
    using Cons.prems(2) 1 by (auto split: option.splits)
  note db = rx_process_leveldb[OF 1]
  show ?case using Cons.IH[OF _ 2] Cons.prems(1) db 1 by simp
qed simp

text \<open>C6: Replication: two learners that have delivered the same number of commands have the same database, if they
  started from the same one: the commands are executed in the same order on both, whatever bursts
  they arrived in.\<close>

theorem replicas_agree:
  assumes "acceptor_ok L M" "dpdk_start M s" "(dpdk_step E T port L n)\<^sup>*\<^sup>* s t" "n \<le> 2 ^ 16"
    and "replica n t S K pkts dl" "replica n t S' K' pkts' dl'"
    and "next_inst K (paxos_learner dl) = next_inst K' (paxos_learner dl')"
    and "Dpdk_Learner.add_timestamps S now pkts dl = Some (ps, e)" "Dpdk_Learner.add_timestamps S' now' pkts' dl' = Some (ps', e')"
    and "length (delivery_log S pkts dl) = length (delivery_log S' pkts' dl')"
    and "\<forall>(i, v) \<in> set (delivery_log S pkts dl). 74 \<le> length v"
    and "ldb S = ldb S'" "leveldb dl = leveldb dl'" "enable_leveldb dl \<noteq> 0" "enable_leveldb dl' \<noteq> 0"
  shows "leveldb e = leveldb e'"
proof -
  let ?x = "deliveries S pkts dl" and ?y = "deliveries S' pkts' dl'"
  have "map (apply_value (ldb S)) ?x = map (apply_value (ldb S)) ?y"
  proof (rule nth_equalityI)
    fix k
    assume "k < length (map (apply_value (ldb S)) ?x)"
    then have k: "k < length (delivery_log S pkts dl)" "k < length (delivery_log S' pkts' dl')"
      using assms(10) by (simp_all add: delivery_log_def)
    have "value_bytes (body_value (?x ! k)) = value_bytes (body_value (?y ! k))"
      using logs_agree[OF assms(1-7) k] k by (simp add: delivery_log_def)
    moreover have "74 \<le> length (value_bytes (body_value (?x ! k)))"
      using assms(11) k(1) by (auto simp: delivery_log_def)
    ultimately show "map (apply_value (ldb S)) ?x ! k = map (apply_value (ldb S)) ?y ! k"
      using k apply_value_cong by (simp add: delivery_log_def)
  qed (use assms(10) in \<open>simp add: delivery_log_def\<close>)
  then show ?thesis
    using callback_leveldb[OF assms(8,14)] callback_leveldb[OF assms(9,15)] assms(12,13)
    by (simp add: fold_map[where f = "apply_value (ldb S')" and g = id, simplified, symmetric])
qed

subsection \<open>A run\<close>

text \<open>A learner for one acceptor, two processes that use it, and a vote that arrives once at one and twice at the other.\<close>

definition single_learner :: "(u32 \<times> paxos_accepted option) learner_api" where
  "single_learner = \<lparr>
     learner_receive_accepted = (\<lambda>(i, q) m. if iid m = i then ((i, Some m), 1) else ((i, q), 0)),
     learner_deliver_next = (\<lambda>(i, q). case q of
        None \<Rightarrow> ((i, None), 0, \<lparr>iid = 0, ballot = 0, value_ballot = 0, aid = 0, body_value = NULL_value\<rparr>)
      | Some m \<Rightarrow> if iid m = i then ((i + 1, None), 1, m) else ((i, None), 0, m)),
     learner_receive_promise = (\<lambda>l m. (l, 0, m)),
     learner_has_holes = (\<lambda>l. (0, 0, 0)),
     learner_prepare = (\<lambda>l i. (l, \<lparr>iid = i, ballot = 1, value_ballot = 0, aid = 0, body_value = NULL_value\<rparr>))\<rparr>"

definition single_memory :: "(u32 \<times> paxos_accepted option) learner_memory" where
  "single_memory = \<lparr>heard = (\<lambda>(i, q). case q of None \<Rightarrow> {} | Some m \<Rightarrow> {(aid m, iid m, ballot m, value_bytes (body_value m))}),
     next_inst = fst\<rparr>"

lemma single_learner_ok: "learner_ok 1 single_learner single_memory"
proof -
  have "decided 1 {(a, i, b, v)} i v" for a i b v
    unfolding decided_def by (rule exI[of _ b], rule exI[of _ "{a}"]) simp
  then show ?thesis
    by (auto simp: learner_ok_def single_learner_def single_memory_def split: option.splits if_splits)
qed

definition single_env :: "(u32 \<times> paxos_accepted option, nat, u8 list \<Rightarrow> u8 list option) learner_env" where
  "single_env = \<lparr>rte = example_env, lib = single_learner, tx = burst_buffer, ldb = map_db,
     alloc_bulk = (\<lambda>n. Some (replicate n example_mbuf)), uninit_type = 77\<rparr>"

definition single_replica :: "int \<Rightarrow> (u32 \<times> paxos_accepted option, nat, u8 list \<Rightarrow> u8 list option) dp_learner" where
  "single_replica k = \<lparr>num_acceptors = 1, nb_learners = 3, learner_id = k, nb_pkt_buf = 0, enable_leveldb = 1,
     leveldb = \<lparr>db = (\<lambda>_. None), woptions_sync = False\<rparr>, paxos_learner = (1, None), dev = 0,
     tx_mbufs = replicate 32 example_mbuf, queued = [], tx_counter = 0, rx_counter = 0, consensus_counter = 0,
     tot_cycles = 0, at_second = 0, dropped = 0\<rparr>"

lemma single_replica_fields:
  "paxos_learner (single_replica k) = (1, None)" "enable_leveldb (single_replica k) = 1" "learner_id (single_replica k) = k"
  "leveldb (single_replica k) = \<lparr>db = (\<lambda>_. None), woptions_sync = False\<rparr>"
  "lib single_env = single_learner" "learner_env.rte single_env = example_env" "ldb single_env = map_db"
  by (simp_all add: single_replica_def single_env_def)

lemma single_run:
  assumes "says PAXOS_ACCEPTED 1 b v r" "is_accepted example_env r" "k \<noteq> 0"
  shows "delivery_log single_env [r] (single_replica k) = [(1, v)]" "delivery_log single_env [r, r] (single_replica k) = [(1, v)]"
    "Dpdk_Learner.add_timestamps single_env now [r] (single_replica k) \<noteq> None"
    "Dpdk_Learner.add_timestamps single_env now [r, r] (single_replica k) \<noteq> None"
  using assms
  by (simp_all add: delivery_log_def delivered_def Dpdk_Learner.paxos_rx_process_def is_accepted_def single_replica_fields
      single_learner_def deliver_def says_def hdr_body_def Let_def)

lemma single_replica_ok:
  assumes "(Acc 0, r) \<in> dnet t" "set pkts \<subseteq> {r}"
  shows "replica 1 t single_env single_memory pkts (single_replica k)"
proof -
  have "heard single_memory (1, None) = {}" by (simp add: single_memory_def)
  moreover have "arrived t r" using assms(1) by (auto simp: arrived_def received_def)
  ultimately show ?thesis
    using assms(2) single_learner_ok unfolding replica_def single_replica_fields by blast
qed

lemma sent_is_accepted:
  "says PAXOS_ACCEPTED i b v r \<Longrightarrow> sent_to_learners r \<Longrightarrow> buf r (IPH + ip_next_proto_id) = IPPROTO_UDP \<Longrightarrow> is_accepted E r"
  by (simp add: is_accepted_def says_def sent_to_learners_def)

theorem learners_agree_witness:
  "\<exists>t r. (dpdk_step example_env counting_buffer 0 map_acceptor 1)\<^sup>*\<^sup>* example_deployment t \<and> arrived t r
    \<and> delivery_log single_env [r] (single_replica 1) = [(1, [1, 2, 3])]
    \<and> (prefix (delivery_log single_env [r] (single_replica 1)) (delivery_log single_env [r, r] (single_replica 2))
      \<or> prefix (delivery_log single_env [r, r] (single_replica 2)) (delivery_log single_env [r] (single_replica 1)))"
proof -
  have v: "value_bytes (body_value (body example_message)) = [1, 2, 3]"
    by (simp add: example_message_def value_bytes_def bytes_at_def upt_rec)
  obtain t r where t: "(dpdk_step example_env counting_buffer 0 map_acceptor 1)\<^sup>*\<^sup>* example_deployment t"
    and r: "(Acc 0, r) \<in> dnet t" "says PAXOS_ACCEPTED 1 1 [1, 2, 3] r" "sent_to_learners r" "buf r (IPH + ip_next_proto_id) = IPPROTO_UDP"
    by (rule one_vote_run[of example_message, unfolded v]) (simp_all add: example_message_def)
  have "prefix (delivery_log single_env [r] (single_replica 1)) (delivery_log single_env [r, r] (single_replica 2))
      \<or> prefix (delivery_log single_env [r, r] (single_replica 2)) (delivery_log single_env [r] (single_replica 1))"
    by (rule learners_agree[OF map_acceptor_ok example_deployment_start t _ single_replica_ok[OF r(1)] single_replica_ok[OF r(1)]])
      (simp_all add: single_replica_fields)
  moreover have "arrived t r" using r(1) by (auto simp: arrived_def received_def)
  moreover have "delivery_log single_env [r] (single_replica 1) = [(1, [1, 2, 3])]"
    by (rule single_run(1)[OF r(2) sent_is_accepted[OF r(2-4)]]) simp
  ultimately show ?thesis using t by blast
qed

theorem replicas_agree_witness:
  "\<exists>t r ps e ps' e'. (dpdk_step example_env counting_buffer 0 map_acceptor 1)\<^sup>*\<^sup>* example_deployment t \<and> arrived t r
    \<and> Dpdk_Learner.add_timestamps single_env 7 [r] (single_replica 1) = Some (ps, e)
    \<and> Dpdk_Learner.add_timestamps single_env 9 [r, r] (single_replica 2) = Some (ps', e') \<and> leveldb e = leveldb e'"
proof -
  let ?v = "\<lparr>paxos_value_len = 74, paxos_value_val = example_value\<rparr>"
  let ?pm = "\<lparr>mtype = 2, body = \<lparr>iid = 0, ballot = 1, value_ballot = 1, aid = 0, body_value = ?v\<rparr>\<rparr>"
  have len: "length (value_bytes ?v) = 74" by (simp add: length_value_bytes)
  obtain t r where t: "(dpdk_step example_env counting_buffer 0 map_acceptor 1)\<^sup>*\<^sup>* example_deployment t"
    and r: "(Acc 0, r) \<in> dnet t" "says PAXOS_ACCEPTED 1 1 (value_bytes ?v) r" "sent_to_learners r"
      "buf r (IPH + ip_next_proto_id) = IPPROTO_UDP"
    by (rule one_vote_run[of ?pm]) (simp_all add: len)
  note run = single_run[OF r(2) sent_is_accepted[OF r(2-4)]]
  obtain ps e ps' e' where e: "Dpdk_Learner.add_timestamps single_env 7 [r] (single_replica 1) = Some (ps, e)"
    "Dpdk_Learner.add_timestamps single_env 9 [r, r] (single_replica 2) = Some (ps', e')"
    using run(3)[of 1 7] run(4)[of 2 9] by auto
  have "leveldb e = leveldb e'"
    by (rule replicas_agree[OF map_acceptor_ok example_deployment_start t _ single_replica_ok[OF r(1)] single_replica_ok[OF r(1)] _ e])
      (simp_all add: single_replica_fields run len)
  moreover have "arrived t r" using r(1) by (auto simp: arrived_def received_def)
  ultimately show ?thesis using t e by blast
qed

end
