(* ===== verification/Dpdk_Progress.thy ===== *)
theory Dpdk_Progress
  imports Dpdk_Replication
begin

text \<open>
  Progress of a deployment of the DPDK programs: a client's request that reaches the coordinator, whose accept
  message reaches a majority of the acceptors, whose accepted messages reach a learner, is delivered
  there, in whatever order and however often these packets arrive.  It takes from libpaxos that its
  acceptor answers for the instance and that its learner counts the votes it is handed.
\<close>

section \<open>What progress takes from libpaxos\<close>

text \<open>An acceptor that answers the accept messages of an instance, as long as it has not trimmed it.\<close>

definition accepting :: "'a acceptor_api \<Rightarrow> 'a \<Rightarrow> u32 \<Rightarrow> bool" where
  "accepting L a i \<longleftrightarrow> (\<forall>m. iid m = i \<longrightarrow> fst (snd (acceptor_receive_accept L a m)) = 1)"

text \<open>
  A learner that keeps each vote for its next instance, until that is decided, of an acceptor it has no other
  vote of; and that delivers the next instance when it is decided, and otherwise forgets nothing.
\<close>

definition learner_live :: "nat \<Rightarrow> 'l learner_api \<Rightarrow> 'l learner_memory \<Rightarrow> bool" where
  "learner_live n L K \<longleftrightarrow>
     (\<forall>l m l' r. learner_receive_accepted L l m = (l', r) \<longrightarrow> iid m = next_inst K l \<longrightarrow>
        (\<forall>w. \<not> decided n (heard K l) (next_inst K l) w) \<longrightarrow>
        (\<forall>b w. (aid m, iid m, b, w) \<in> heard K l \<longrightarrow> b = ballot m \<and> w = value_bytes (body_value m)) \<longrightarrow>
        heard K l' = insert (aid m, iid m, ballot m, value_bytes (body_value m)) (heard K l)) \<and>
     (\<forall>l l' k out. learner_deliver_next L l = (l', k, out) \<longrightarrow>
        (if k = 0 then heard K l' = heard K l \<and> (\<forall>w. \<not> decided n (heard K l) (next_inst K l) w) else True))"

lemma learner_liveD:
  assumes "learner_live n L K"
  shows "learner_receive_accepted L l m = (l', r) \<Longrightarrow> iid m = next_inst K l \<Longrightarrow>
      (\<forall>w. \<not> decided n (heard K l) (next_inst K l) w) \<Longrightarrow>
      (\<forall>b w. (aid m, iid m, b, w) \<in> heard K l \<longrightarrow> b = ballot m \<and> w = value_bytes (body_value m)) \<Longrightarrow>
      heard K l' = insert (aid m, iid m, ballot m, value_bytes (body_value m)) (heard K l)"
    "learner_deliver_next L l = (l', k, out) \<Longrightarrow> k = 0 \<Longrightarrow> heard K l' = heard K l"
    "learner_deliver_next L l = (l', k, out) \<Longrightarrow> decided n (heard K l) (next_inst K l) w \<Longrightarrow> k \<noteq> 0"
  using assms unfolding learner_live_def by (blast | metis)+

section \<open>The acceptors vote\<close>

text \<open>An accepted message, addressed to the learners.\<close>

definition vote_packet :: "u32 \<Rightarrow> u16 \<Rightarrow> u8 list \<Rightarrow> u16 \<Rightarrow> mbuf \<Rightarrow> bool" where
  "vote_packet i b v k r \<longleftrightarrow> says PAXOS_ACCEPTED i b v r \<and> names_acceptor r = k \<and> sent_to_learners r
     \<and> buf r (IPH + ip_next_proto_id) = IPPROTO_UDP"

lemma dpdk_vote_step:
  assumes ok: "acceptor_ok L M" and a: "a < n" and p: "(x, p) \<in> dnet s" "for_acceptor E p" "says PAXOS_ACCEPT i b v p"
    and free: "mem_promise M (daccs s a) i \<le> b" "accepting L (daccs s a) i"
  obtains t r where "dpdk_step E T port L n s t" "dnet t = insert (Acc a, r) (dnet s)"
    "vote_packet i b v (mem_id M (daccs s a)) r" "\<forall>c. c \<noteq> a \<longrightarrow> daccs t c = daccs s c"
proof -
  let ?m = "hdr_body PXH (buf p) (hdr_value PXH (buf p))"
  obtain a' ret out where rec: "acceptor_receive_accept L (daccs s a) ?m = (a', ret, out)" by (meson prod_cases3)
  have m: "iid ?m = i" "ballot ?m = b" "unat (hdr_msgtype PXH (buf p)) = msg_code PAXOS_ACCEPT"
    using p(3) by (simp_all add: says_def hdr_body_def)
  then have ret: "ret = 1" using free(2) rec unfolding accepting_def by (metis fst_conv snd_conv)
  have dis: "paxos_dispatch L (buf p) (daccs s a) = (a', 1, Some out)"
    using rec ret m(3) by (simp add: paxos_dispatch_def)
  have out: "mtype out = of_nat (msg_code PAXOS_ACCEPTED)" "aid (body out) = mem_id M (daccs s a)"
    using acceptor_okD(3)[OF ok rec ret] free(1) m by (simp_all add: accept_ok_def)
  obtain r where r: "Dpdk_Acceptor.paxos_rx_process E L p (daccs s a) = (r, a', 0)" "sent_to_learners r"
    by (rule rx_process_reply[OF p(2) dis])
  note v = answer_accepted[OF p(2) dis out(1) p(3) r(1)]
  have udp: "buf r (IPH + ip_next_proto_id) = IPPROTO_UDP"
    using rx_process_proto[of E L p "daccs s a"] r(1) p(2) by (simp add: for_acceptor_def)
  have "dpdk_step E T port L n s (s\<lparr>daccs := (daccs s)(a := a'), dnet := insert (Acc a, r) (dnet s)\<rparr>)"
    using dpdk_step.handle[OF a p(1) _ r(1)] by (simp add: received_def)
  then show thesis by (rule that) (use v(3,4) out(2) r(2) udp in \<open>simp_all add: vote_packet_def\<close>)
qed

text \<open>One after the other, the acceptors of a set vote.\<close>

lemma dpdk_vote_steps:
  assumes ok: "acceptor_ok L M" and "finite A" "A \<subseteq> {..<n}" "(x, p) \<in> dnet s" "for_acceptor E p" "says PAXOS_ACCEPT i b v p"
    and "\<forall>a\<in>A. mem_promise M (daccs s a) i \<le> b \<and> accepting L (daccs s a) i"
  shows "\<exists>t. (dpdk_step E T port L n)\<^sup>*\<^sup>* s t \<and> dnet s \<subseteq> dnet t
    \<and> (\<forall>a\<in>A. \<exists>r. (Acc a, r) \<in> dnet t \<and> vote_packet i b v (mem_id M (daccs s a)) r) \<and> (\<forall>c. c \<notin> A \<longrightarrow> daccs t c = daccs s c)"
  using assms(2-)
proof (induction A rule: finite_induct)
  case (insert a A)
  then obtain t where t: "(dpdk_step E T port L n)\<^sup>*\<^sup>* s t" "dnet s \<subseteq> dnet t"
    "\<forall>a\<in>A. \<exists>r. (Acc a, r) \<in> dnet t \<and> vote_packet i b v (mem_id M (daccs s a)) r" "\<forall>c. c \<notin> A \<longrightarrow> daccs t c = daccs s c" by auto
  have a: "a < n" "(x, p) \<in> dnet t" "daccs t a = daccs s a" using insert.prems insert.hyps t by auto
  obtain u r where u: "dpdk_step E T port L n t u" "dnet u = insert (Acc a, r) (dnet t)"
    "vote_packet i b v (mem_id M (daccs s a)) r" "\<forall>c. c \<noteq> a \<longrightarrow> daccs u c = daccs t c"
    by (rule dpdk_vote_step[OF ok a(1,2) insert.prems(3,4), where T = T and port = port]) (use insert.prems(5) a(3) in auto)
  have "(dpdk_step E T port L n)\<^sup>*\<^sup>* s u" using t(1) u(1) by simp
  moreover have "\<forall>c\<in>insert a A. \<exists>r. (Acc c, r) \<in> dnet u \<and> vote_packet i b v (mem_id M (daccs s c)) r"
    using t(3) u(2,3) by auto
  ultimately show ?case using t(2,4) u(2,4) by (intro exI[of _ u]) auto
qed auto

section \<open>A learner counts the votes\<close>

text \<open>The votes for an instance in which all have one ballot and one value.\<close>

lemma decided_alike:
  assumes "{x \<in> X. fst (snd x) = i} = (\<lambda>k. (k, i, b, v)) ` H"
  shows "decided n X i w \<longleftrightarrow> w = v \<and> n < 2 * card H"
proof
  assume "decided n X i w"
  then obtain c A where A: "n < 2 * card A" "\<forall>k\<in>A. (k, i, c, w) \<in> X" unfolding decided_def by blast
  have in_H: "k \<in> H \<and> w = v" if "k \<in> A" for k using A(2) that assms by force
  have "card A \<le> card H" by (rule card_mono) (use in_H in auto)
  moreover have "A \<noteq> {}" using A(1) by auto
  ultimately show "w = v \<and> n < 2 * card H" using A(1) in_H by auto
next
  assume "w = v \<and> n < 2 * card H"
  moreover have "\<forall>k\<in>H. (k, i, b, v) \<in> X" using assms by auto
  ultimately show "decided n X i w" unfolding decided_def by blast
qed

lemma decided_heard: "decided n X i w \<Longrightarrow> \<exists>x\<in>X. fst (snd x) = i"
  unfolding decided_def by (metis card.empty ex_in_conv fst_conv mult_0_right not_less_zero snd_conv)

lemma vote_packet_accepted: "vote_packet i b v k r \<Longrightarrow> is_accepted E r"
  by (auto simp: vote_packet_def intro: sent_is_accepted)

lemma vote_packet_body:
  "vote_packet i b v k r \<Longrightarrow> m = hdr_body PXH (buf r) (hdr_value PXH (buf r)) \<Longrightarrow>
    (aid m, iid m, ballot m, value_bytes (body_value m)) = (k, i, b, v)"
  by (simp add: vote_packet_def says_def names_acceptor_def hdr_body_def)

text \<open>What the handler does with such a packet.\<close>

lemma vote_handled:
  assumes "vote_packet i b v k r" "takes_bursts waiting (tx S)" "alloc_ok S" "bufs_ok waiting dl"
  obtains p ret dl' l ret' c out m where "Dpdk_Learner.paxos_rx_process S r dl = Some (p, ret, dl')" "bufs_ok waiting dl'"
    "learner_receive_accepted (lib S) (paxos_learner dl) m = (l, ret')" "aid m = k" "iid m = i" "ballot m = b"
    "value_bytes (body_value m) = v"
    "learner_deliver_next (lib S) l = (paxos_learner dl', c, out)" "delivered S r dl = (if c \<noteq> 0 then [out] else [])"
proof -
  let ?m = "hdr_body PXH (buf r) (hdr_value PXH (buf r))"
  obtain p ret dl' where run: "Dpdk_Learner.paxos_rx_process S r dl = Some (p, ret, dl')" "bufs_ok waiting dl'"
    using rx_process_bufs_ok[OF assms(2-4)] by blast
  obtain l ret' where rec: "learner_receive_accepted (lib S) (paxos_learner dl) ?m = (l, ret')" by fastforce
  obtain l' c out where del: "learner_deliver_next (lib S) l = (l', c, out)" by (meson prod_cases3)
  note acc = vote_packet_accepted[OF assms(1), of "learner_env.rte S"]
  have "paxos_learner dl' = l'"
    using run(1) acc rec del
    by (auto simp: Dpdk_Learner.paxos_rx_process_def is_accepted_def Let_def split: if_splits dest!: deliver_keeps)
  moreover have "delivered S r dl = (if c \<noteq> 0 then [out] else [])" using acc rec del by (simp add: delivered_def)
  ultimately show thesis using that[OF run rec] vote_packet_body[OF assms(1) refl] del by simp
qed

text \<open>After the instance has been delivered, its votes deliver nothing.\<close>

lemma late_votes:
  assumes "learner_ok n (lib S) K" "takes_bursts waiting (tx S)" "alloc_ok S" "bufs_ok waiting dl"
    and "\<forall>r\<in>set pkts. \<exists>k. vote_packet i b v k r"
    and "next_inst K (paxos_learner dl) = i'" "i' \<noteq> i" "\<forall>x\<in>heard K (paxos_learner dl). fst (snd x) \<noteq> i'"
  shows "deliveries S pkts dl = []"
  using assms(4,5,6,8)
proof (induction pkts arbitrary: dl)
  case (Cons r pkts)
  obtain k where k: "vote_packet i b v k r" using Cons.prems(2) by auto
  obtain p ret dl' l ret' c out m where run: "Dpdk_Learner.paxos_rx_process S r dl = Some (p, ret, dl')" "bufs_ok waiting dl'"
    and rec: "learner_receive_accepted (lib S) (paxos_learner dl) m = (l, ret')" "iid m = i"
    and del: "learner_deliver_next (lib S) l = (paxos_learner dl', c, out)" "delivered S r dl = (if c \<noteq> 0 then [out] else [])"
    by (rule vote_handled[OF k assms(2,3) Cons.prems(1)])
  note ok = learner_okD(1)[OF assms(1) rec(1)] learner_okD(2-4)[OF assms(1) del(1)]
  have l: "next_inst K l = i'" "\<forall>x\<in>heard K l. fst (snd x) \<noteq> i'"
    using ok(1) rec(2) assms(7) Cons.prems(3,4) by auto
  have "\<not> decided n (heard K l) i' w" for w using decided_heard l(2) by blast
  then have "c = 0" using ok(3) l(1) by metis
  moreover have "deliveries S pkts dl' = []"
    by (rule Cons.IH[OF run(2)]) (use Cons.prems(2) ok(2,4) l \<open>c = 0\<close> in auto)
  ultimately show ?case using run(1) del(2) by simp
qed simp

text \<open>
  The votes of a majority deliver the instance, once: \<open>H\<close> are the acceptors whose votes the learner has
  counted already.
\<close>

lemma votes_delivered:
  assumes "learner_ok n (lib S) K" "learner_live n (lib S) K" "takes_bursts waiting (tx S)" "alloc_ok S" "bufs_ok waiting dl"
    and "\<forall>r\<in>set pkts. \<exists>k\<in>A. vote_packet i b v k r" "\<forall>k\<in>A. k \<in> H \<or> (\<exists>r\<in>set pkts. vote_packet i b v k r)"
    and "next_inst K (paxos_learner dl) = i" "{x \<in> heard K (paxos_learner dl). fst (snd x) = i} = (\<lambda>k. (k, i, b, v)) ` H"
    and "\<forall>x\<in>heard K (paxos_learner dl). fst (snd x) \<noteq> i + 1" "\<not> n < 2 * card H" "n < 2 * card A"
  shows "delivery_log S pkts dl = [(i, v)]"
  using assms(5-11)
proof (induction pkts arbitrary: dl H)
  case Nil
  then have "card A \<le> card H" by (intro card_mono) auto
  then show ?case using Nil.prems(7) assms(12) by simp
next
  case (Cons r pkts)
  obtain k where k: "vote_packet i b v k r" using Cons.prems(2) by auto
  obtain p ret dl' l ret' c out m where run: "Dpdk_Learner.paxos_rx_process S r dl = Some (p, ret, dl')" "bufs_ok waiting dl'"
    and rec: "learner_receive_accepted (lib S) (paxos_learner dl) m = (l, ret')" "aid m = k" "iid m = i" "ballot m = b"
      "value_bytes (body_value m) = v"
    and del: "learner_deliver_next (lib S) l = (paxos_learner dl', c, out)" "delivered S r dl = (if c \<noteq> 0 then [out] else [])"
    by (rule vote_handled[OF k assms(3,4) Cons.prems(1)])
  note ok = learner_okD(1)[OF assms(1) rec(1)] learner_okD(2-4)[OF assms(1) del(1)]
  have l: "next_inst K l = i" using ok(1) Cons.prems(4) by simp
  have alike: "(k, i, c', w) \<in> heard K (paxos_learner dl) \<Longrightarrow> c' = b \<and> w = v" for c' w
    using Cons.prems(5) by force
  have grown: "heard K l = insert (k, i, b, v) (heard K (paxos_learner dl))"
    using learner_liveD(1)[OF assms(2) rec(1)] rec(2-5) Cons.prems(4,7) decided_alike[OF Cons.prems(5)] alike by simp
  have same: "{x \<in> heard K l. fst (snd x) = i} = (\<lambda>k. (k, i, b, v)) ` insert k H"
    using Cons.prems(5) by (auto simp: grown)
  have none: "\<forall>x\<in>heard K l. fst (snd x) \<noteq> i + 1" using Cons.prems(6) by (auto simp: grown)
  note count = decided_alike[OF same, of n]
  show ?case
  proof (cases "n < 2 * card (insert k H)")
    case True
    then have c: "c \<noteq> 0" using learner_liveD(3)[OF assms(2) del(1)] l count by blast
    note out = ok(3)[OF c]
    have "iid out = i" using out l by simp
    moreover from this have "value_bytes (body_value out) = v" using out count by metis
    moreover have late: "\<forall>r\<in>set pkts. \<exists>k. vote_packet i b v k r" using Cons.prems(2) by auto
    moreover have "deliveries S pkts dl' = []"
      by (rule late_votes[OF assms(1,3,4) run(2), where i' = "i + 1" and i = i and b = b and v = v])
        (use late out none ok(2) in \<open>auto simp: l\<close>)
    ultimately show ?thesis using run(1) del(2) c by (simp add: delivery_log_def)
  next
    case False
    have c: "c = 0" using ok(3) False l count by metis
    have l': "heard K (paxos_learner dl') = heard K l" "next_inst K (paxos_learner dl') = i"
      using learner_liveD(2)[OF assms(2) del(1) c] ok(4)[OF c] l by auto
    have names: "vote_packet i b v k' r \<Longrightarrow> k' = k" for k' using k by (simp add: vote_packet_def)
    have rest: "\<forall>r\<in>set pkts. \<exists>k\<in>A. vote_packet i b v k r"
      "\<forall>k'\<in>A. k' \<in> insert k H \<or> (\<exists>r\<in>set pkts. vote_packet i b v k' r)"
      using Cons.prems(2,3) names by auto
    have "delivery_log S pkts dl' = [(i, v)]"
      by (rule Cons.IH[OF run(2) rest l'(2), unfolded l'(1), OF same none False])
    then show ?thesis using run(1) del(2) c by (simp add: delivery_log_def)
  qed
qed

section \<open>Progress\<close>

text \<open>What arrives of an accepted message is one.\<close>

lemma received_vote:
  assumes "vote_packet i b v k r" "whole r" "received r p"
  shows "vote_packet i b v k p"
proof -
  note hdr = received_hdr(2)[OF assms(3) whole_headed[OF assms(2)], of NULL_value]
  have "\<forall>j < PXH. buf p j = buf r j" using assms(2,3) by (simp add: whole_def received_def)
  then show ?thesis
    using assms(1) hdr received_says[OF assms(3,2)]
    by (simp add: vote_packet_def names_acceptor_def sent_to_learners_def ld16_def ld32_def bytes_at_def)
qed

text \<open>A burst that brings the votes \<open>rs\<close> of the acceptors in \<open>Q\<close>, each at least once and nothing else.\<close>

definition handed :: "nat set \<Rightarrow> (nat \<Rightarrow> mbuf) \<Rightarrow> mbuf list \<Rightarrow> bool" where
  "handed Q rs pkts \<longleftrightarrow> (\<forall>p\<in>set pkts. \<exists>a\<in>Q. received (rs a) p) \<and> (\<forall>a\<in>Q. \<exists>p\<in>set pkts. received (rs a) p)"

text \<open>A learner that waits for an instance, has none of its votes yet, and can send what it has to.\<close>

definition waits_for :: "nat \<Rightarrow> ('l, 'd, 'b) learner_env \<Rightarrow> 'l learner_memory \<Rightarrow> ('d \<Rightarrow> nat) \<Rightarrow> u32 \<Rightarrow> ('l, 'd, 'b) dp_learner \<Rightarrow> bool" where
  "waits_for n S K waiting i dl \<longleftrightarrow> learner_ok n (lib S) K \<and> learner_live n (lib S) K
     \<and> takes_bursts waiting (tx S) \<and> alloc_ok S \<and> bufs_ok waiting dl
     \<and> next_inst K (paxos_learner dl) = i \<and> (\<forall>x\<in>heard K (paxos_learner dl). fst (snd x) \<notin> {i, i + 1})"

lemma handed_delivers:
  assumes wait: "waits_for n S K waiting i dl" and Q: "majority n Q" "n \<le> 2 ^ 16"
    and rs: "\<forall>a\<in>Q. vote_packet i b v (of_nat a) (rs a) \<and> whole (rs a)" and pkts: "handed Q rs pkts"
  shows "delivery_log S pkts dl = [(i, v)]"
proof -
  let ?A = "(of_nat :: nat \<Rightarrow> u16) ` Q"
  have "Q \<subseteq> {..<n}" using Q(1) by (simp add: majority_def)
  then have "inj_on (of_nat :: nat \<Rightarrow> u16) Q" by (intro inj_onI) (auto intro: of_nat_id[OF _ _ Q(2)])
  then have card: "n < 2 * card ?A" "\<not> n < 2 * card ({} :: u16 set)" using Q(1) by (simp_all add: majority_def card_image)
  have "\<forall>p\<in>set pkts. \<exists>k\<in>?A. vote_packet i b v k p" "\<forall>k\<in>?A. k \<in> {} \<or> (\<exists>p\<in>set pkts. vote_packet i b v k p)"
    using rs pkts received_vote unfolding handed_def by (metis imageI, metis imageE)
  moreover have "{x \<in> heard K (paxos_learner dl). fst (snd x) = i} = (\<lambda>k. (k, i, b, v)) ` {}"
    "\<forall>x\<in>heard K (paxos_learner dl). fst (snd x) \<noteq> i + 1"
    using wait by (auto simp: waits_for_def)
  ultimately show ?thesis
    using wait card unfolding waits_for_def by (intro votes_delivered[where H = "{}" and A = ?A and b = b]) blast+
qed

text \<open>C7: Progress, from the client to the learner: whenever a client's request reaches the coordinator, some steps of the
  deployment, of the coordinator and of a majority of acceptors that have not promised a higher ballot,
  lead to a state in which its value is chosen for the coordinator's next instance; and a learner that
  waits for this instance delivers exactly this value as soon as the votes reach it, in whatever order
  and however often they arrive.\<close>

theorem request_delivered:
  assumes "acceptor_ok L M" "dpdk_start M s" "(dpdk_step E T port L n)\<^sup>*\<^sup>* s t" "n \<le> 2 ^ 16"
    and "says PAXOS_ACCEPT j 1 v p" "length v < 2 ^ 31" "whole p" "is_request E p" "cur_inst (dcoord t) = i" "i \<noteq> - 1"
    and "majority n Q" "\<forall>a\<in>Q. mem_promise M (daccs t a) i \<le> 1 \<and> accepting L (daccs t a) i"
    and "waits_for n S K waiting i dl"
  shows "\<exists>u rs. (dpdk_step E T port L n)\<^sup>*\<^sup>* t u \<and> dpdk_chosen n i u v \<and> (\<forall>a\<in>Q. (Acc a, rs a) \<in> dnet u)
    \<and> (\<forall>pkts. handed Q rs pkts \<longrightarrow> delivery_log S pkts dl = [(i, v)])"
proof -
  let ?step = "dpdk_step E T port L n"
  obtain q c ret where q: "Dpdk_Coordinator.paxos_rx_process E T port p (dcoord t) = (q, c, ret)" by (meson prod_cases3)
  let ?t = "t\<lparr>dcoord := c, dnet := insert (Coord, q) (dnet t)\<rparr>"
  have 1: "?step t ?t" by (rule dpdk_step.request[OF assms(5-8) _ q]) (use assms(9,10) in simp)
  note n = numbered_request[OF assms(5,8) q, unfolded assms(9)]
  have Q: "finite Q" "Q \<subseteq> {..<n}" using assms(11) finite_subset by (auto simp: majority_def)
  obtain u where u: "?step\<^sup>*\<^sup>* ?t u" "\<forall>a\<in>Q. \<exists>r. (Acc a, r) \<in> dnet u \<and> vote_packet i 1 v (mem_id M (daccs t a)) r"
    using dpdk_vote_steps[OF assms(1) Q, of Coord q ?t E i 1 v T port] n(1,3) assms(12) by auto
  have tu: "?step\<^sup>*\<^sup>* t u" using 1 u(1) by (rule converse_rtranclp_into_rtranclp)
  have start: "dpdk_inv n L M s" by (rule dpdk.init_inv) (use assms(1,2) in simp)
  note inv = dpdk.run_inv[OF assms(3) start] and inv' = dpdk.run_inv[OF rtranclp_trans[OF assms(3) tu] start]
  have "mem_id M (daccs t a) = of_nat a" for a using inv by (simp add: dpdk_inv_def)
  then obtain rs where rs: "\<forall>a\<in>Q. (Acc a, rs a) \<in> dnet u \<and> vote_packet i 1 v (of_nat a) (rs a)"
    using u(2) by metis
  have "whole (rs a)" if "a \<in> Q" for a
    using inv' rs that unfolding dpdk_inv_def packet_ok_def vote_packet_def says_def Let_def by blast
  then have "delivery_log S pkts dl = [(i, v)]" if "handed Q rs pkts" for pkts
    using handed_delivers[OF assms(13,11,4) _ that] rs by blast
  moreover have "dpdk_chosen n i u v"
    using assms(11) rs unfolding dpdk_chosen_def dpdk_voted_def vote_packet_def by blast
  ultimately show ?thesis using tu rs by blast
qed

subsection \<open>A run\<close>

text \<open>
  A learner for any number of acceptors that keeps the votes for its next instance, the first of each acceptor,
  in a list.
\<close>

type_synonym quorum_state = "u32 \<times> paxos_accepted list"

definition supporters :: "paxos_accepted list \<Rightarrow> paxos_accepted \<Rightarrow> u16 list" where
  "supporters ms m = remdups (map aid (filter (\<lambda>m'. iid m' = iid m \<and> ballot m' = ballot m
     \<and> value_bytes (body_value m') = value_bytes (body_value m)) ms))"

definition quorum_learner :: "nat \<Rightarrow> quorum_state learner_api" where
  "quorum_learner n = \<lparr>
     learner_receive_accepted = (\<lambda>(i, ms) m. if iid m = i \<and> (\<forall>m'\<in>set ms. iid m' = i \<longrightarrow> aid m' \<noteq> aid m)
       then ((i, m # ms), 1) else ((i, ms), 0)),
     learner_deliver_next = (\<lambda>(i, ms). case find (\<lambda>m. iid m = i \<and> n < 2 * length (supporters ms m)) ms of
        None \<Rightarrow> ((i, ms), 0, \<lparr>iid = 0, ballot = 0, value_ballot = 0, aid = 0, body_value = NULL_value\<rparr>)
      | Some m \<Rightarrow> ((i + 1, []), 1, m)),
     learner_receive_promise = (\<lambda>l m. (l, 0, m)),
     learner_has_holes = (\<lambda>l. (0, 0, 0)),
     learner_prepare = (\<lambda>l i. (l, \<lparr>iid = i, ballot = 1, value_ballot = 0, aid = 0, body_value = NULL_value\<rparr>))\<rparr>"

definition quorum_memory :: "quorum_state learner_memory" where
  "quorum_memory = \<lparr>heard = (\<lambda>(i, ms). (\<lambda>m. (aid m, iid m, ballot m, value_bytes (body_value m))) ` {m \<in> set ms. iid m = i}),
     next_inst = fst\<rparr>"

lemma enough_supporters:
  assumes "iid m = i" "n < 2 * length (supporters ms m)"
  shows "decided n (heard quorum_memory (i, ms)) i (value_bytes (body_value m))"
proof -
  have "card (set (supporters ms m)) = length (supporters ms m)" by (rule distinct_card) (simp add: supporters_def)
  moreover have "\<forall>a\<in>set (supporters ms m). (a, i, ballot m, value_bytes (body_value m)) \<in> heard quorum_memory (i, ms)"
    using assms(1) by (auto simp: supporters_def quorum_memory_def image_iff)
  ultimately show ?thesis using assms(2) unfolding decided_def by metis
qed

lemma decided_found:
  assumes "decided n (heard quorum_memory (i, ms)) i w"
  shows "find (\<lambda>m. iid m = i \<and> n < 2 * length (supporters ms m)) ms \<noteq> None"
proof -
  obtain b A where A: "n < 2 * card A" "\<forall>a\<in>A. (a, i, b, w) \<in> heard quorum_memory (i, ms)"
    using assms unfolding decided_def by blast
  then obtain a where "a \<in> A" by fastforce
  then obtain m where m: "m \<in> set ms" "iid m = i" "ballot m = b" "value_bytes (body_value m) = w"
    using A(2) by (auto simp: quorum_memory_def)
  have "A \<subseteq> set (supporters ms m)" using A(2) m by (fastforce simp: quorum_memory_def supporters_def)
  then have "card A \<le> length (supporters ms m)" by (meson List.finite_set card_length card_mono order_trans)
  then show ?thesis using m A(1) by (auto simp: find_None_iff)
qed

lemma find_holds: "find P xs = Some x \<Longrightarrow> P x"
  by (auto simp: find_Some_iff)

lemma quorum_learner_ok: "learner_ok n (quorum_learner n) quorum_memory"
  unfolding learner_ok_def
proof (intro conjI allI impI)
  fix l m l' r
  assume "learner_receive_accepted (quorum_learner n) l m = (l', r)"
  then have "l' = l \<or> l' = (fst l, m # snd l)" by (cases l) (simp add: quorum_learner_def split: if_splits)
  then show "next_inst quorum_memory l' = next_inst quorum_memory l"
    "heard quorum_memory l' \<subseteq> insert (aid m, iid m, ballot m, value_bytes (body_value m)) (heard quorum_memory l)"
    by (auto simp: quorum_memory_def split: prod.splits)
next
  fix l l' k out
  assume run: "learner_deliver_next (quorum_learner n) l = (l', k, out)"
  obtain i ms where l: "l = (i, ms)" by (rule prod.exhaust)
  consider "l' = l" "k = 0" | "l' = (i + 1, [])" "iid out = i" "n < 2 * length (supporters ms out)" "k \<noteq> 0"
    using run find_holds by (fastforce simp: l quorum_learner_def split: option.splits)
  then show "heard quorum_memory l' \<subseteq> heard quorum_memory l"
    "if k \<noteq> 0 then iid out = next_inst quorum_memory l \<and> next_inst quorum_memory l' = next_inst quorum_memory l + 1
      \<and> decided n (heard quorum_memory l) (iid out) (value_bytes (body_value out)) else next_inst quorum_memory l' = next_inst quorum_memory l"
    by (atomize(full), cases) (use enough_supporters[of out i n ms] in \<open>simp_all add: l quorum_memory_def\<close>)
next
  fix l m l' r acc
  assume "learner_receive_promise (quorum_learner n) l m = (l', r, acc)"
  then show "next_inst quorum_memory l' = next_inst quorum_memory l" "heard quorum_memory l' \<subseteq> heard quorum_memory l"
    by (auto simp: quorum_learner_def)
qed

lemma quorum_learner_live: "learner_live n (quorum_learner n) quorum_memory"
proof -
  let ?vote = "\<lambda>m. (aid m, iid m, ballot m, value_bytes (body_value m))"
  have new: "heard quorum_memory (iid m, m # ms) = insert (?vote m) (heard quorum_memory (iid m, ms))" for m ms
    by (auto simp: quorum_memory_def)
  have old: "insert (?vote m) (heard quorum_memory (iid m, ms)) = heard quorum_memory (iid m, ms)"
    if m: "m' \<in> set ms" "iid m' = iid m" "aid m' = aid m"
      "\<forall>b w. (aid m, iid m, b, w) \<in> heard quorum_memory (iid m, ms) \<longrightarrow> b = ballot m \<and> w = value_bytes (body_value m)" for m m' ms
  proof -
    have "?vote m' \<in> heard quorum_memory (iid m, ms)" using m(1,2) by (auto simp: quorum_memory_def)
    then show ?thesis using m(2-4) by (metis insert_absorb)
  qed
  have inst: "next_inst quorum_memory l = fst l" for l by (simp add: quorum_memory_def)
  show ?thesis
    unfolding learner_live_def
  proof (intro conjI allI impI)
    fix l m l' r
    assume m: "learner_receive_accepted (quorum_learner n) l m = (l', r)" "iid m = next_inst quorum_memory l"
      "\<forall>b w. (aid m, iid m, b, w) \<in> heard quorum_memory l \<longrightarrow> b = ballot m \<and> w = value_bytes (body_value m)"
    obtain ms where l: "l = (iid m, ms)" using m(2) by (cases l) (simp add: inst)
    show "heard quorum_memory l' = insert (?vote m) (heard quorum_memory l)"
    proof (cases "\<exists>m'\<in>set ms. iid m' = iid m \<and> aid m' = aid m")
      case True
      then have "l' = l" using m(1) by (auto simp: l quorum_learner_def split: if_splits)
      then show ?thesis using True old m(3) unfolding l by metis
    next
      case False
      then have "l' = (iid m, m # ms)" using m(1) by (auto simp: l quorum_learner_def)
      then show ?thesis using new l by simp
    qed
  next
    fix l l' k out
    assume "learner_deliver_next (quorum_learner n) l = (l', k, out)"
    then show "if k = 0 then heard quorum_memory l' = heard quorum_memory l
        \<and> (\<forall>w. \<not> decided n (heard quorum_memory l) (next_inst quorum_memory l) w) else True"
      using decided_found[of n "fst l" "snd l"] by (cases l) (auto simp: quorum_learner_def inst split: option.splits)
  qed
qed

text \<open>
  Three acceptors of which two vote for the first request; the learner gets the vote of the first acceptor twice.
\<close>

definition quorum_env :: "(quorum_state, nat, u8 list \<Rightarrow> u8 list option) learner_env" where
  "quorum_env = \<lparr>rte = example_env, lib = quorum_learner 3, tx = burst_buffer, ldb = map_db,
     alloc_bulk = (\<lambda>n. Some (replicate n example_mbuf)), uninit_type = 77\<rparr>"

definition quorum_replica :: "(quorum_state, nat, u8 list \<Rightarrow> u8 list option) dp_learner" where
  "quorum_replica = \<lparr>num_acceptors = 3, nb_learners = 1, learner_id = 0, nb_pkt_buf = 0, enable_leveldb = 1,
     leveldb = \<lparr>db = (\<lambda>_. None), woptions_sync = False\<rparr>, paxos_learner = (1, []), dev = 0,
     tx_mbufs = replicate 32 example_mbuf, queued = [], tx_counter = 0, rx_counter = 0, consensus_counter = 0,
     tot_cycles = 0, at_second = 0, dropped = 0\<rparr>"

lemma quorum_replica_waits: "waits_for 3 quorum_env quorum_memory (\<lambda>d. d) 1 quorum_replica"
  using quorum_learner_ok[of 3] quorum_learner_live[of 3] burst_buffer_ok
  by (simp add: waits_for_def quorum_env_def quorum_replica_def alloc_ok_def bufs_ok_def BURST_SIZE_def quorum_memory_def)

theorem request_delivered_witness:
  "\<exists>u (rs :: nat \<Rightarrow> mbuf). (dpdk_step example_env counting_buffer 0 map_acceptor 3)\<^sup>*\<^sup>* example_deployment u \<and> dpdk_chosen 3 1 u [1, 2, 3]
    \<and> (Acc 0, rs 0) \<in> dnet u \<and> (Acc 1, rs 1) \<in> dnet u
    \<and> delivery_log quorum_env [rs 0, rs 0, rs 1] quorum_replica = [(1, [1, 2, 3])]"
proof -
  let ?p = "add_paxos_message example_env example_message example_mbuf 12345 COORDINATOR_PORT COORDINATOR_ADDR"
  have v: "value_bytes (body_value (body example_message)) = [1, 2, 3]"
    by (simp add: example_message_def value_bytes_def bytes_at_def upt_rec)
  have b: "ballot (body example_message) = 1" "unat (mtype example_message) = msg_code PAXOS_ACCEPT"
    by (simp_all add: example_message_def)
  have small: "length (value_bytes (body_value (body example_message))) + 54 < 2 ^ 16" by (simp add: v)
  note p = sent_accept[OF b(2) small refl, of example_env example_mbuf 12345 COORDINATOR_PORT COORDINATOR_ADDR, unfolded v b(1)]
  have Q: "majority 3 {0, 1}" by (simp add: majority_def)
  have free: "\<forall>a\<in>{0, 1}. mem_promise map_memory (daccs example_deployment a) 1 \<le> 1 \<and> accepting map_acceptor (daccs example_deployment a) 1"
    by (simp add: example_deployment_def map_memory_def accepting_def map_acceptor_def)
  obtain u rs where u: "(dpdk_step example_env counting_buffer 0 map_acceptor 3)\<^sup>*\<^sup>* example_deployment u" "dpdk_chosen 3 1 u [1, 2, 3]"
    "\<forall>a\<in>{0, 1}. (Acc a, rs a) \<in> dnet u"
    "\<forall>pkts. handed {0, 1} rs pkts \<longrightarrow> delivery_log quorum_env pkts quorum_replica = [(1, [1, 2, 3])]"
    using request_delivered[OF map_acceptor_ok example_deployment_start rtranclp.rtrancl_refl _ p(1) _ p(2) client_request _ _ Q free
      quorum_replica_waits, where T = counting_buffer and port = 0]
    by (auto simp: example_deployment_def init_coordinator_def)
  have "handed {0, 1} rs [rs 0, rs 0, rs 1]" by (auto simp: handed_def received_def)
  then show ?thesis using u by blast
qed

end
