(* ===== verification/Netro_System.thy ===== *)
theory Netro_System
  imports Netro_Paxos Paxos_Spec
begin

text \<open>
  A network of switches running \<^verbatim>\<open>netrodemo/paxos.c\<close>: one coordinator, \<open>n\<close> acceptors, clients
  and recovering proposers.  The network is the set of all packets ever sent; a packet may be
  delivered to any acceptor, any number of times and in any order, or never.  The clients and
  the proposers are not part of the plugin: what the acceptors rely on is written as the guards
  of their steps.  The main result is that the network refines the specification of theory
  \<open>Paxos_Spec\<close>, instance by instance, hence agreement.
\<close>

section \<open>The system\<close>

record netro =
  coord :: plugin_state
  acc :: "nat \<Rightarrow> plugin_state"
  net :: "(sender \<times> paxos_t) set"

definition netro_init :: netro where
  "netro_init = \<lparr>coord = plugin_init, acc = (\<lambda>_. plugin_init), net = {}\<rparr>"

definition prom :: "netro \<Rightarrow> nat \<Rightarrow> u32 \<Rightarrow> u16" where
  "prom s a i = rnds (acc s a) (unat i)"

definition vote_rnd :: "netro \<Rightarrow> nat \<Rightarrow> u32 \<Rightarrow> u16" where
  "vote_rnd s a i = vrnds (acc s a) (unat i)"

definition vote_val :: "netro \<Rightarrow> nat \<Rightarrow> u32 \<Rightarrow> u32 list" where
  "vote_val s a i = stored_value (acc s a) (unat i)"

text \<open>A phase 2A packet for a value is in the network; acceptor \<open>a\<close> answered with a phase 2B.\<close>

definition proposed :: "u32 \<Rightarrow> netro \<Rightarrow> u16 \<Rightarrow> u32 list \<Rightarrow> bool" where
  "proposed i s b v \<longleftrightarrow> (\<exists>x p. (x, p) \<in> net s \<and> msgtype p = phase_code Phase2A \<and>
     inst p = i \<and> rnd p = b \<and> pkt_value p = v)"

definition voted :: "u32 \<Rightarrow> netro \<Rightarrow> nat \<Rightarrow> u16 \<Rightarrow> u32 list \<Rightarrow> bool" where
  "voted i s a b v \<longleftrightarrow> (\<exists>q. (Acc a, q) \<in> net s \<and> msgtype q = phase_code Phase2B \<and>
     inst q = i \<and> rnd q = b \<and> pkt_value q = v)"

text \<open>Acceptor \<open>a\<close> answered a phase 1A of round \<open>b\<close>, reporting round \<open>r\<close> and value \<open>w\<close>.\<close>

definition promised :: "u32 \<Rightarrow> netro \<Rightarrow> nat \<Rightarrow> u16 \<Rightarrow> u16 \<Rightarrow> u32 list \<Rightarrow> bool" where
  "promised i s a b r w \<longleftrightarrow> (\<exists>q. (Acc a, q) \<in> net s \<and> msgtype q = phase_code Phase1B \<and>
     inst q = i \<and> rnd q = b \<and> vrnd q = r \<and> pkt_value q = w)"

text \<open>
  What a recovering proposer owes before it sends a phase 2A for round \<open>b\<close> (the classical rule
  of phase 2): the round is its own, so no other value was proposed in it, and a majority has
  promised the round; if one of the majority reports a vote, the value is the one reported
  with the highest round.
\<close>

definition proposer_rule :: "nat \<Rightarrow> netro \<Rightarrow> u32 \<Rightarrow> u16 \<Rightarrow> u32 list \<Rightarrow> bool" where
  "proposer_rule n s i b v \<longleftrightarrow>
     (\<forall>w. proposed i s b w \<longrightarrow> w = v) \<and>
     (\<exists>Q r w. majority n Q \<and> (\<forall>a\<in>Q. promised i s a b (r a) (w a)) \<and>
        ((\<forall>a\<in>Q. r a = 0) \<or>
         (\<exists>a\<in>Q. r a \<noteq> 0 \<and> w a = v \<and> (\<forall>a'\<in>Q. r a' \<le> r a))))"

text \<open>
  \<open>request\<close> is the coordinator's \<^verbatim>\<open>pif_plugin_seq_func\<close> on a client packet, whose round is 1 as
  \<^verbatim>\<open>generate_packets.py\<close> sends it; its counter has not wrapped around.  Recovering proposers use
  higher rounds.  \<open>handle\<close> is an acceptor processing a packet, with or without an answer: the
  packet goes through the entries of \<^verbatim>\<open>commands.rules\<close> for phase 1A and phase 2A; the control of
  \<^verbatim>\<open>cans.p4\<close> in front of them and the reset entry (message type 255), which erases the registers
  that agreement is about, are not steps of the network.
\<close>

inductive netro_step :: "nat \<Rightarrow> netro \<Rightarrow> netro \<Rightarrow> bool" for n where
  prepare: "msgtype p = phase_code Phase1A \<Longrightarrow>
     netro_step n s (s\<lparr>net := insert (Env, p) (net s)\<rparr>)"
| request: "rnd p = 1 \<Longrightarrow> cur_instance (coord s) \<noteq> - 1 \<Longrightarrow>
     pif_plugin_seq_func (coord s) (Some p) = (c, Some q, RETURN_FORWARD) \<Longrightarrow>
     netro_step n s (s\<lparr>coord := c, net := insert (Coord, q) (net s)\<rparr>)"
| recover: "msgtype p = phase_code Phase2A \<Longrightarrow> 1 < rnd p \<Longrightarrow>
     proposer_rule n s (inst p) (rnd p) (pkt_value p) \<Longrightarrow>
     netro_step n s (s\<lparr>net := insert (Env, p) (net s)\<rparr>)"
| handle_fwd: "a < n \<Longrightarrow> (x, p) \<in> net s \<Longrightarrow>
     msgtype p = phase_code Phase1A \<or> msgtype p = phase_code Phase2A \<Longrightarrow>
     paxos_tbl (acc s a) p = Inr (st, Some q, RETURN_FORWARD) \<Longrightarrow>
     netro_step n s (s\<lparr>acc := (acc s)(a := st), net := insert (Acc a, q) (net s)\<rparr>)"
| handle_drop: "a < n \<Longrightarrow> (x, p) \<in> net s \<Longrightarrow>
     msgtype p = phase_code Phase1A \<or> msgtype p = phase_code Phase2A \<Longrightarrow>
     paxos_tbl (acc s a) p = Inr (st, h, RETURN_DROP) \<Longrightarrow>
     netro_step n s (s\<lparr>acc := (acc s)(a := st)\<rparr>)"

inductive netro_reach :: "nat \<Rightarrow> netro \<Rightarrow> bool" for n where
  start: "netro_reach n netro_init"
| step: "netro_reach n s \<Longrightarrow> netro_step n s t \<Longrightarrow> netro_reach n t"

inductive_cases netro_stepE: "netro_step n s t"

text \<open>A value is chosen when a majority of the acceptors voted for it in one round.\<close>

definition chosen :: "nat \<Rightarrow> u32 \<Rightarrow> netro \<Rightarrow> u32 list \<Rightarrow> bool" where
  "chosen n i s v \<longleftrightarrow> (\<exists>b Q. majority n Q \<and> (\<forall>a\<in>Q. voted i s a b v))"

section \<open>Refinement of the specification\<close>

text \<open>
  What the registers and the packets mean for one instance, in the terms of theory \<open>Paxos_Spec\<close>; and
  the one invariant the network needs of its own: round 1 belongs to the coordinator, which
  has used it only for instances below its counter.
\<close>

definition netro_view :: "u32 \<Rightarrow> netro \<Rightarrow> (u16, u32 list) spec" where
  "netro_view i s = \<lparr>sprom = (\<lambda>a. prom s a i), svrnd = (\<lambda>a. vote_rnd s a i), svval = (\<lambda>a. vote_val s a i),
     sprops = {(b, v). proposed i s b v}, svotes = {(a, b, v). voted i s a b v},
     sproms = {(a, b, r, w). promised i s a b r w}\<rparr>"

definition netro_inv :: "netro \<Rightarrow> bool" where
  "netro_inv s \<longleftrightarrow> (\<forall>i v. proposed i s 1 v \<longrightarrow> i < cur_instance (coord s))"

lemmas msg_defs = proposed_def voted_def promised_def
lemmas reg_defs = prom_def vote_rnd_def vote_val_def

lemma msg_insert:
  assumes "net t = insert (x, p) (net s)"
  shows "proposed i t b v \<longleftrightarrow> proposed i s b v \<or>
      msgtype p = phase_code Phase2A \<and> inst p = i \<and> rnd p = b \<and> pkt_value p = v"
    and "voted i t a b v \<longleftrightarrow> voted i s a b v \<or>
      x = Acc a \<and> msgtype p = phase_code Phase2B \<and> inst p = i \<and> rnd p = b \<and> pkt_value p = v"
    and "promised i t a b r w \<longleftrightarrow> promised i s a b r w \<or>
      x = Acc a \<and> msgtype p = phase_code Phase1B \<and> inst p = i \<and> rnd p = b \<and> vrnd p = r \<and> pkt_value p = w"
  using assms by (auto simp: msg_defs)

lemma unat_index: "unat (i :: u32) = unat j \<longleftrightarrow> i = j"
  by (simp add: word_unat_eq_iff)

lemma phase2_rule_view:
  "proposer_rule n s i b v \<longleftrightarrow> (\<forall>w. proposed i s b w \<longrightarrow> w = v) \<and> phase2_rule n (netro_view i s) b v"
  by (simp add: proposer_rule_def phase2_rule_def netro_view_def)

text \<open>A packet of the coordinator or of a proposer: a proposal for its own instance, nothing for the others.\<close>

lemma view_propose:
  assumes acc: "acc t = acc s" and net: "net t = insert (x, p) (net s)" and x: "\<forall>a. x \<noteq> Acc a"
    and p: "msgtype p = phase_code Phase2A"
  shows "netro_view i t = (if i = inst p
    then (netro_view i s)\<lparr>sprops := insert (rnd p, pkt_value p) (sprops (netro_view i s))\<rparr> else netro_view i s)"
  using x p acc by (auto simp: netro_view_def msg_insert[OF net] reg_defs)

lemma step_propose:
  assumes "acc t = acc s" "net t = insert (x, p) (net s)" "\<forall>a. x \<noteq> Acc a" "msgtype p = phase_code Phase2A"
    and b: "0 < rnd p" "\<And>w. proposed (inst p) s (rnd p) w \<Longrightarrow> w = pkt_value p"
    and rule: "rnd p = 1 \<or> phase2_rule n (netro_view (inst p) s) (rnd p) (pkt_value p)"
  shows "spec_step n (netro_view i s) (netro_view i t)"
proof (rule spec_propose_if[OF view_propose[OF assms(1-4)] b(1)])
  assume i: "i = inst p"
  show "(\<forall>c. 0 < c \<longrightarrow> rnd p \<le> c) \<or> phase2_rule n (netro_view i s) (rnd p) (pkt_value p)"
    using rule i by (auto simp: word_le_nat_alt word_less_nat_alt)
  show "w = pkt_value p" if "(rnd p, w) \<in> sprops (netro_view i s)" for w
    using b(2) that i by (simp add: netro_view_def)
qed

text \<open>An acceptor that answers: a promise or a vote in the instance of the packet, nothing in the others.\<close>

lemma view_answer:
  assumes a: "a < n" and p: "(x, p) \<in> net s"
    and type: "msgtype p = phase_code Phase1A \<or> msgtype p = phase_code Phase2A"
    and run: "paxos_tbl (acc s a) p = Inr (st, Some q, RETURN_FORWARD)"
  shows "spec_step n (netro_view i s) (netro_view i (s\<lparr>acc := (acc s)(a := st), net := insert (Acc a, q) (net s)\<rparr>))"
    (is "spec_step n _ (netro_view i ?t)")
proof (cases "msgtype p = phase_code Phase1A")
  case True
  then have "pif_plugin_paxos_phase1a (acc s a) (Some p) = Inr (st, Some q, RETURN_FORWARD)"
    using run by (simp add: paxos_tbl_def)
  note f = phase1a_forward[OF this]
  have "netro_view i ?t = (if i = inst p then (netro_view i s)\<lparr>sprom := (sprom (netro_view i s))(a := rnd p),
      sproms := insert (a, rnd p, svrnd (netro_view i s) a, svval (netro_view i s) a) (sproms (netro_view i s))\<rparr>
    else netro_view i s)"
    using f by (auto simp: netro_view_def msg_insert[of ?t "Acc a" q s] reg_defs unat_index fun_eq_iff)
  then show ?thesis by (rule spec_promise_if[OF _ a]) (use f(2) in \<open>simp add: netro_view_def prom_def\<close>)
next
  case False
  then have "pif_plugin_paxos_phase2a (acc s a) (Some p) = Inr (st, Some q, RETURN_FORWARD)"
    using run type by (simp add: paxos_tbl_def)
  note f = phase2a_forward[OF this]
  have "netro_view i ?t = (if i = inst p then (netro_view i s)\<lparr>sprom := (sprom (netro_view i s))(a := rnd p),
      svrnd := (svrnd (netro_view i s))(a := rnd p), svval := (svval (netro_view i s))(a := pkt_value p),
      svotes := insert (a, rnd p, pkt_value p) (svotes (netro_view i s))\<rparr> else netro_view i s)"
    using f by (auto simp: netro_view_def msg_insert[of ?t "Acc a" q s] reg_defs unat_index fun_eq_iff)
  then show ?thesis
    by (rule spec_vote_if[OF _ a]) (use f(2) p False type in \<open>auto simp: netro_view_def prom_def proposed_def\<close>)
qed

lemma request_packet:
  assumes "rnd p = 1" "cur_instance (coord s) \<noteq> - 1"
    and "pif_plugin_seq_func (coord s) (Some p) = (c, Some q, RETURN_FORWARD)"
  shows "rnd q = 1" "inst q = cur_instance (coord s)" "msgtype q = phase_code Phase2A"
    "cur_instance (coord s) < cur_instance c"
  using seq_func_Some[OF assms(3)] assms(1) word_less_Suc[OF assms(2)] by auto

lemma netro_step_view: "netro_step n s t \<Longrightarrow> netro_inv s \<Longrightarrow> spec_step n (netro_view i s) (netro_view i t)"
proof (induction rule: netro_step.induct)
  case (prepare p s)
  then show ?case by (intro spec_stutter_eq) (simp add: netro_view_def msg_insert[of _ Env p s] reg_defs)
next
  case (request p s c q)
  note q = request_packet[OF request.hyps]
  have "\<not> proposed (inst q) s (rnd q) w" for w using request.prems q(1,2) by (auto simp: netro_inv_def)
  then show ?case using q by (intro step_propose[of _ s Coord q]) auto
next
  case (recover p s)
  have "0 < rnd p" using recover.hyps(2) by (simp add: word_less_nat_alt)
  then show ?case
    using recover.hyps by (intro step_propose[of _ s Env p]) (auto simp: phase2_rule_view)
next
  case (handle_fwd a x p s st q)
  show ?case by (rule view_answer[OF handle_fwd.hyps])
next
  case (handle_drop a x p s st h)
  have "pif_plugin_paxos_phase1a (acc s a) (Some p) = Inr (st, h, RETURN_DROP) \<or>
      pif_plugin_paxos_phase2a (acc s a) (Some p) = Inr (st, h, RETURN_DROP)"
    using handle_drop.hyps(3,4) by (auto simp: paxos_tbl_def)
  note f = phase_drop[OF this]
  show ?case by (rule spec_stutter_eq) (auto simp: netro_view_def msg_defs reg_defs f fun_eq_iff)
qed

lemma netro_step_inv: "netro_step n s t \<Longrightarrow> netro_inv s \<Longrightarrow> netro_inv t"
proof (induction rule: netro_step.induct)
  case (prepare p s)
  then show ?case by (simp add: netro_inv_def msg_insert(1)[of _ Env p s])
next
  case (request p s c q)
  note q = request_packet[OF request.hyps]
  show ?case
    using request.prems q order.strict_trans[OF _ q(4)] by (auto simp: netro_inv_def msg_insert(1)[of _ Coord q s])
next
  case (recover p s)
  then show ?case by (auto simp: netro_inv_def msg_insert(1)[of _ Env p s])
next
  case (handle_fwd a x p s st q)
  have "msgtype q \<noteq> phase_code Phase2A"
    using handle_fwd.hyps(3,4) phase1a_forward(6) phase2a_forward(6) by (fastforce simp: paxos_tbl_def split: if_splits)
  then show ?case using handle_fwd.prems by (simp add: netro_inv_def msg_insert(1)[of _ "Acc a" q s])
next
  case (handle_drop a x p s st h)
  then show ?case by (simp add: netro_inv_def proposed_def)
qed

text \<open>The plugin's network implements the specification of Paxos, instance by instance.\<close>

interpretation netro: paxos_implementation n "\<lambda>s. s = netro_init" "netro_step n" netro_inv netro_view for n
proof unfold_locales
  fix s i
  assume s: "s = netro_init"
  then show "netro_inv s" by (simp add: netro_inv_def netro_init_def proposed_def)
  show "\<exists>v. netro_view i s = spec_init v"
    unfolding s by (simp add: netro_view_def spec_init_def msg_defs reg_defs netro_init_def plugin_init_def)
next
  fix s t i
  assume s: "netro_inv s" "netro_step n s t"
  show "netro_inv t" using s(2,1) by (rule netro_step_inv)
  show "spec_step n (netro_view i s) (netro_view i t)" using s(2,1) by (rule netro_step_view)
qed

lemma netro_reach_run: "netro_reach n s \<longleftrightarrow> (netro_step n)\<^sup>*\<^sup>* netro_init s"
proof
  show "netro_reach n s \<Longrightarrow> (netro_step n)\<^sup>*\<^sup>* netro_init s"
    by (induction rule: netro_reach.induct) (auto intro: rtranclp.rtrancl_into_rtrancl)
  show "(netro_step n)\<^sup>*\<^sup>* netro_init s \<Longrightarrow> netro_reach n s"
    by (induction rule: rtranclp_induct) (auto intro: netro_reach.intros)
qed

lemma chosen_view: "chosen n i s v \<longleftrightarrow> spec_chosen n (netro_view i s) v"
  by (simp add: chosen_def spec_chosen_def netro_view_def)

text \<open>C2: Refinement: the network of plugin switches implements the specification of Paxos: what the registers and the
  packets say of an instance is at every moment a state the specification can reach, and every
  step of the network is one step of the specification in that instance or none.\<close>

theorem netro_refines_spec:
  assumes "netro_reach n s" "netro_step n s t"
  shows "spec_reach n (netro_view i s) \<and> spec_step n (netro_view i s) (netro_view i t)"
proof -
  have run: "(netro_step n)\<^sup>*\<^sup>* netro_init s" using assms(1) by (simp add: netro_reach_run)
  show ?thesis
    using netro.run_reach[OF refl run] netro.step_view[OF netro.run_inv[OF run netro.init_inv[OF refl]] assms(2)] by blast
qed

section \<open>Agreement\<close>

text \<open>C1: Agreement: in every reachable state of a network of \<open>n\<close> acceptors and a coordinator
  running the plugin, with packets lost, duplicated and reordered at will, with any number of
  phase 1A packets and with recovering proposers that keep the phase 2 rule, at most one value
  is chosen for an instance.\<close>

theorem netro_agreement:
  assumes "netro_reach n s" and "chosen n i s v" and "chosen n i s w"
  shows "v = w"
  using netro.agreement[OF refl, of n s i v w] assms by (simp add: netro_reach_run chosen_view)

subsection \<open>A run\<close>

text \<open>Three acceptors; a request goes through the coordinator, two acceptors vote for it.\<close>

definition run_2a :: paxos_t where
  "run_2a = example_packet 0 1 3 42"

definition round_state :: "nat set \<Rightarrow> netro" where
  "round_state A = \<lparr>
     coord = plugin_init\<lparr>cur_instance := 1\<rparr>,
     acc = (\<lambda>a. if a \<in> A then plugin_init\<lparr>rnds := (\<lambda>_. 0)(0 := 1), vrnds := (\<lambda>_. 0)(0 := 1),
              value0s := (\<lambda>_. 0)(0 := 42)\<rparr> else plugin_init),
     net = insert (Coord, run_2a) ((\<lambda>a. (Acc a, run_2a\<lparr>acpt := 1, msgtype := 4\<rparr>)) ` A)\<rparr>"

lemma run_request_step: "netro_step 3 netro_init (round_state {})"
proof -
  have "pif_plugin_seq_func (coord netro_init) (Some (example_packet 9 1 0 42)) =
      (plugin_init\<lparr>cur_instance := 1\<rparr>, Some run_2a, RETURN_FORWARD)"
    by (simp add: pif_plugin_seq_func_def netro_init_def plugin_init_def run_2a_def example_packet_def)
  from netro_step.request [OF _ _ this, of 3] show ?thesis
    by (simp add: netro_init_def plugin_init_def example_packet_def round_state_def)
qed

lemma run_request: "netro_reach 3 (round_state {})"
  by (rule netro_reach.step [OF netro_reach.start run_request_step])

theorem netro_refines_spec_witness:
  "spec_step 3 (netro_view 0 netro_init) (netro_view 0 (round_state {}))
    \<and> sprops (netro_view 0 (round_state {})) = {(1, [42, 0, 0, 0, 0, 0, 0, 0])}"
  using netro_refines_spec[OF netro_reach.start run_request_step, of 0]
  by (auto simp: netro_view_def proposed_def round_state_def run_2a_def example_packet_def pkt_value_def)

lemma run_vote:
  assumes "netro_reach 3 (round_state A)" "a < 3" "a \<notin> A"
  shows "netro_reach 3 (round_state (insert a A))"
proof -
  let ?s = "round_state A"
  let ?st = "plugin_init\<lparr>rnds := (\<lambda>_. 0)(0 := 1), vrnds := (\<lambda>_. 0)(0 := 1),
    value0s := (\<lambda>_. 0)(0 := 42)\<rparr>"
  let ?q = "run_2a\<lparr>acpt := 1, msgtype := 4\<rparr>"
  have acc: "acc ?s a = plugin_init" using assms(3) by (simp add: round_state_def)
  have run: "paxos_tbl (acc ?s a) run_2a = Inr (?st, Some ?q, RETURN_FORWARD)"
    unfolding acc
    by (simp add: paxos_tbl_def phase_defs run_2a_def example_packet_def
        plugin_init_def MAX_INST_def SWITCH_ID_def fun_eq_iff)
  have "(Coord, run_2a) \<in> net ?s" and "msgtype run_2a = phase_code Phase2A"
    by (simp_all add: round_state_def run_2a_def example_packet_def)
  with run assms(2)
  have "netro_step 3 ?s (?s\<lparr>acc := (acc ?s)(a := ?st), net := insert (Acc a, ?q) (net ?s)\<rparr>)"
    by (intro netro_step.handle_fwd) auto
  also have "?s\<lparr>acc := (acc ?s)(a := ?st), net := insert (Acc a, ?q) (net ?s)\<rparr> = round_state (insert a A)"
    unfolding round_state_def by (auto simp: fun_eq_iff)
  finally show ?thesis by (rule netro_reach.step [OF assms(1)])
qed

lemma example_reach: "netro_reach 3 (round_state {0, 1})"
  using run_vote [OF run_vote [OF run_request, of 1], of 0] by simp

lemma run_chosen: "A = {0, 1} \<or> A = {0, 1, 2} \<Longrightarrow> chosen 3 0 (round_state A) [42, 0, 0, 0, 0, 0, 0, 0]"
  unfolding chosen_def majority_def voted_def
  by (rule exI [of _ 1], rule exI [of _ "{0, 1}"])
    (auto simp: round_state_def run_2a_def example_packet_def pkt_value_def image_iff)

theorem netro_agreement_witness:
  "netro_reach 3 (round_state {0, 1}) \<and>
   {v. chosen 3 0 (round_state {0, 1}) v} = {[42, 0, 0, 0, 0, 0, 0, 0]}"
proof -
  have c: "chosen 3 0 (round_state {0, 1}) [42, 0, 0, 0, 0, 0, 0, 0]" by (rule run_chosen) simp
  from netro_agreement [OF example_reach c] c example_reach show ?thesis by blast
qed

end
