(* ===== verification/Dpdk_Backup.thy ===== *)
theory Dpdk_Backup
  imports Learner_Args Client_Reply "HOL-Library.Signed_Division"
begin

text \<open>
  \<^verbatim>\<open>dpdk/backup\<close>: a learner that takes over as proposer when the primary coordinator fails.  It
  remembers the client values it sees, prepares the instances after the last accepted one, and
  proposes a remembered value where the acceptors have none.
\<close>

section \<open>State and environment\<close>

definition NB_VALUE_BUFFER :: nat where "NB_VALUE_BUFFER = 1024"

text \<open>The part of libpaxos's learner the backup calls.\<close>

record 'l learner_api =
  learner_receive_accepted :: "'l \<Rightarrow> paxos_accepted \<Rightarrow> 'l \<times> int"
  learner_receive_promise :: "'l \<Rightarrow> paxos_promise \<Rightarrow> 'l \<times> int \<times> paxos_accept"
  learner_prepare :: "'l \<Rightarrow> u32 \<Rightarrow> 'l \<times> paxos_prepare"

text \<open>
  The environment: \<open>clone\<close> is \<^verbatim>\<open>rte_pktmbuf_clone\<close> (\<open>None\<close> when the pool is empty; a clone shares the
  data of the packet), \<open>freed_contents\<close> what is read from a block of memory after it was freed.
\<close>

record ('l, 'd) backup_env =
  rte :: rte_env
  lib :: "'l learner_api"
  tx :: "'d tx_api"
  alloc_bulk :: "nat \<Rightarrow> mbuf list option"
  clone :: "mbuf \<Rightarrow> mbuf option"
  freed_contents :: "mem \<Rightarrow> mem"

text \<open>
  \<^verbatim>\<open>struct dp_learner\<close> of the backup and its globals.  \<open>vals\<close> (\<^verbatim>\<open>values\<close>) holds the \<^verbatim>\<open>vcount\<close> values of the array,
  the last one at the end.
\<close>

record ('l, 'd) dp_learner =
  num_acceptors :: int
  nb_learners :: int
  learner_id :: int
  nb_pkt_buf :: nat
  latest_accepted_iid :: u32
  latest_prepare_iid :: u32
  paxos_learner :: 'l
  dev :: 'd
  tx_mbufs :: "mbuf list"
  vals :: "paxos_value list"
  primary_alive :: bool
  queued :: "mbuf list"
  tx_counter :: u32
  rx_counter :: u32
  at_second :: u32
  dropped :: u32

definition vcount :: "('l, 'd) dp_learner \<Rightarrow> nat" where
  "vcount dl = length (vals dl)"

definition macs :: mac_table where
  "macs a = (if a = 0x5f04a8c0 then Some [0x0c, 0xc4, 0x7a, 0xa3, 0x25, 0xd0]
     else if a = 0x6004a8c0 then Some [0x0c, 0xc4, 0x7a, 0xa3, 0x25, 0xc8]
     else if a = 0x6104a8c0 then Some [0x0c, 0xc4, 0x7a, 0xa3, 0x25, 0x38]
     else if a = 0x6204a8c0 then Some [0x0c, 0xc4, 0x7a, 0xa3, 0x25, 0x35]
     else None)"

section \<open>Sending\<close>

definition reset_tx_mbufs :: "('l, 'd) backup_env \<Rightarrow> nat \<Rightarrow> ('l, 'd) dp_learner \<Rightarrow> ('l, 'd) dp_learner option" where
  "reset_tx_mbufs S nb_tx dl =
    (let dl = dl\<lparr>tx_counter := tx_counter dl + of_nat nb_tx\<rparr> in
     case alloc_bulk S nb_tx of
       None \<Rightarrow> Some (dl\<lparr>nb_pkt_buf := 0\<rparr>)
     | Some bs \<Rightarrow> if nb_tx \<le> length (tx_mbufs dl)
         then Some (dl\<lparr>tx_mbufs := bs @ drop nb_tx (tx_mbufs dl), nb_pkt_buf := 0\<rparr>) else None)"

text \<open>\<^verbatim>\<open>rte_eth_tx_buffer\<close> and the reset that follows a burst, as all the sending code does it.\<close>

definition hand_over :: "('l, 'd) backup_env \<Rightarrow> mbuf \<Rightarrow> ('l, 'd) dp_learner \<Rightarrow> ('l, 'd) dp_learner option" where
  "hand_over S pkt dl = (case tx_buffer (tx S) (dev dl) pkt of (d, nb_tx) \<Rightarrow>
     let dl = dl\<lparr>dev := d, queued := queued dl @ [pkt]\<rparr> in
     if nb_tx \<noteq> 0 then reset_tx_mbufs S (unat nb_tx) dl else Some dl)"

definition prepare_message :: "paxos_prepare \<Rightarrow> paxos_message" where
  "prepare_message p = \<lparr>mtype = of_nat (msg_code PAXOS_PREPARE), body = p\<rparr>"

text \<open>The loop of \<^verbatim>\<open>start_recovery\<close> runs for \<open>i = 1\<close> only; \<open>i\<close> is 2 after it, 1 after the break.\<close>

definition start_recovery :: "('l, 'd) backup_env \<Rightarrow> ('l, 'd) dp_learner \<Rightarrow> ('l, 'd) dp_learner option" where
  "start_recovery S dl =
    (if BURST_SIZE \<le> nb_pkt_buf dl
     then Some (dl\<lparr>latest_prepare_iid := latest_prepare_iid dl + 1\<rparr>)
     else if length (tx_mbufs dl) \<le> nb_pkt_buf dl then None
     else (case learner_prepare (lib S) (paxos_learner dl) (latest_accepted_iid dl + 1) of (l, prep) \<Rightarrow>
       let pkt = add_paxos_message (rte S) (prepare_message prep) (tx_mbufs dl ! nb_pkt_buf dl)
             LEARNER_PORT ACCEPTOR_PORT ACCEPTOR_ADDR;
           dl = dl\<lparr>nb_pkt_buf := nb_pkt_buf dl + 1, paxos_learner := l\<rparr>
       in map_option (\<lambda>dl. dl\<lparr>latest_prepare_iid := latest_prepare_iid dl + 2\<rparr>) (hand_over S pkt dl)))"

definition dp_learner_send ::
  "('l, 'd) backup_env \<Rightarrow> mem \<Rightarrow> u64 \<Rightarrow> sockaddr_in \<Rightarrow> ('l, 'd) dp_learner \<Rightarrow> (int \<times> ('l, 'd) dp_learner) option" where
  "dp_learner_send S data len dest dl =
    (if length (tx_mbufs dl) \<le> nb_pkt_buf dl then None
     else
       (let pkt = client_reply (rte S) macs data len dest (tx_mbufs dl ! nb_pkt_buf dl);
            dl = dl\<lparr>nb_pkt_buf := nb_pkt_buf dl + 1\<rparr>
        in map_option (\<lambda>dl. (0, dl)) (hand_over S pkt dl)))"

text \<open>\<open>None\<close> also stands for the division by zero of a learner configured with no learners.\<close>

definition deliver ::
  "('l, 'd) backup_env \<Rightarrow> u32 \<Rightarrow> mem \<Rightarrow> u32 \<Rightarrow> ('l, 'd) dp_learner \<Rightarrow> (int \<times> ('l, 'd) dp_learner) option" where
  "deliver S inst val vsize dl =
    (let retval = from_offset req_content val;
         cmd = from_offset (sizeof_client_request - 1) val
     in if nb_learners dl = 0 then None
        else if uint (ld16 cmd_command_id cmd) smod nb_learners dl = learner_id dl
        then dp_learner_send S retval (ucast (content_length val)) (req_cliaddr val) dl
        else Some (-1, dl))"

section \<open>The packet handler\<close>

text \<open>
  The promise case: an accept message without a value gets the last client value, whose memory is
  freed before it is copied into the packet; the packet is a clone and shares its data.
\<close>

definition handle_promise ::
  "('l, 'd) backup_env \<Rightarrow> mbuf \<Rightarrow> ('l, 'd) dp_learner \<Rightarrow> (mbuf \<times> int \<times> ('l, 'd) dp_learner) option" where
  "handle_promise S pkt dl =
    (let m = buf pkt in
     case learner_receive_promise (lib S) (paxos_learner dl) (hdr_body PXH m (hdr_value PXH m)) of (l, ret, acc) \<Rightarrow>
       let dl = dl\<lparr>paxos_learner := l\<rparr> in
       if ret = 0 then Some (pkt, ret, dl)
       else
         let take_value = (paxos_value_len (body_value acc) = 0 \<and> 0 < vcount dl);
             v = last (vals dl);
             acc = (if take_value
                    then acc\<lparr>body_value := v\<lparr>paxos_value_val := freed_contents S (paxos_value_val v)\<rparr>\<rparr> else acc);
             dl = (if take_value then dl\<lparr>vals := butlast (vals dl)\<rparr> else dl);
             sport = bswap16 (ld16 (UDPH + udp_src_port) m)
         in case clone S pkt of
              None \<Rightarrow> None
            | Some cloned \<Rightarrow>
                let cloned = add_paxos_message (rte S) \<lparr>mtype = of_nat (msg_code PAXOS_ACCEPT), body = acc\<rparr> cloned
                      sport ACCEPTOR_PORT ACCEPTOR_ADDR
                in map_option (\<lambda>dl. (pkt\<lparr>buf := buf cloned\<rparr>, ret, dl)) (hand_over S cloned dl))"

definition handle_accept ::
  "('l, 'd) backup_env \<Rightarrow> mbuf \<Rightarrow> ('l, 'd) dp_learner \<Rightarrow> (mbuf \<times> int \<times> ('l, 'd) dp_learner) option" where
  "handle_accept S pkt dl =
    (let v = hdr_value PXH (buf pkt);
         dl = (if 0 < sint (paxos_value_len v) \<and> vcount dl < NB_VALUE_BUFFER
               then dl\<lparr>vals := vals dl @ [v]\<rparr> else dl)
     in if primary_alive dl
        then map_option (\<lambda>dl. (pkt, -1, dl\<lparr>primary_alive := False\<rparr>)) (start_recovery S dl)
        else Some (pkt, -1, dl))"

definition handle_accepted ::
  "('l, 'd) backup_env \<Rightarrow> mbuf \<Rightarrow> ('l, 'd) dp_learner \<Rightarrow> (mbuf \<times> int \<times> ('l, 'd) dp_learner) option" where
  "handle_accepted S pkt dl =
    (let ack = hdr_body PXH (buf pkt) (hdr_value PXH (buf pkt)) in
     case learner_receive_accepted (lib S) (paxos_learner dl) ack of (l, ret) \<Rightarrow>
       let dl = dl\<lparr>paxos_learner := l\<rparr> in
       if ret = 0 then Some (pkt, ret, dl)
       else
         let dl = (if latest_accepted_iid dl < iid ack then dl\<lparr>latest_accepted_iid := iid ack\<rparr> else dl);
             dl = (if latest_prepare_iid dl < iid ack then dl\<lparr>latest_prepare_iid := iid ack\<rparr> else dl)
         in case learner_prepare (lib S) (paxos_learner dl) (latest_prepare_iid dl + 1) of (l, prep) \<Rightarrow>
           case clone S pkt of
             None \<Rightarrow> None
           | Some cloned \<Rightarrow>
               let cloned = add_paxos_message (rte S) (prepare_message prep) cloned LEARNER_PORT ACCEPTOR_PORT ACCEPTOR_ADDR
               in map_option (\<lambda>dl. (pkt\<lparr>buf := buf cloned\<rparr>, ret, dl\<lparr>latest_prepare_iid := latest_prepare_iid dl + 1\<rparr>))
                    (hand_over S cloned (dl\<lparr>paxos_learner := l\<rparr>)))"

definition paxos_rx_process ::
  "('l, 'd) backup_env \<Rightarrow> mbuf \<Rightarrow> ('l, 'd) dp_learner \<Rightarrow> (mbuf \<times> int \<times> ('l, 'd) dp_learner) option" where
  "paxos_rx_process S pkt dl =
    (let m = buf pkt; dst_port = ld16 (UDPH + udp_dst_port) m; msgtype = unat (hdr_msgtype PXH m) in
     if m (IPH + ip_next_proto_id) \<noteq> IPPROTO_UDP then Some (pkt, -1, dl)
     else if \<not> (dst_port = bswap16 LEARNER_PORT \<or> dst_port = bswap16 ACCEPTOR_PORT)
       \<and> packet_type pkt AND PTYPE_TUNNEL_MASK (rte S) = 0 then Some (pkt, -1, dl)
     else if msgtype = msg_code PAXOS_PROMISE then handle_promise S pkt dl
     else if msgtype = msg_code PAXOS_ACCEPT then handle_accept S pkt dl
     else if msgtype = msg_code PAXOS_ACCEPTED then handle_accepted S pkt dl
     else Some (pkt, -1, dl))"

fun add_timestamps ::
  "('l, 'd) backup_env \<Rightarrow> mbuf list \<Rightarrow> ('l, 'd) dp_learner \<Rightarrow> ('l, 'd) dp_learner option" where
  "add_timestamps S [] dl = Some dl"
| "add_timestamps S (pkt # pkts) dl =
    (case paxos_rx_process S pkt dl of None \<Rightarrow> None | Some (_, _, dl) \<Rightarrow> add_timestamps S pkts dl)"

fun lcore_main ::
  "('l, 'd) backup_env \<Rightarrow> u64 \<Rightarrow> u64 \<Rightarrow> (u64 \<times> mbuf list) list \<Rightarrow> ('l, 'd) dp_learner \<Rightarrow> ('l, 'd) dp_learner option" where
  "lcore_main S drain prev_tsc [] dl = Some dl"
| "lcore_main S drain prev_tsc ((cur_tsc, burst) # rounds) dl =
    (case (if drain < cur_tsc - prev_tsc
           then (case tx_buffer_flush (tx S) (dev dl) of (d, nb_tx) \<Rightarrow>
             if nb_tx \<noteq> 0 then reset_tx_mbufs S (unat nb_tx) (dl\<lparr>dev := d\<rparr>) else Some (dl\<lparr>dev := d\<rparr>))
           else Some dl) of
       None \<Rightarrow> None
     | Some dl \<Rightarrow>
         (case add_timestamps S burst dl of
            None \<Rightarrow> None
          | Some dl \<Rightarrow>
              lcore_main S drain cur_tsc rounds
                (if burst = [] then dl else dl\<lparr>rx_counter := rx_counter dl + of_nat (length burst)\<rparr>)))"

definition report_stat :: "('l, 'd) dp_learner \<Rightarrow> (u32 \<times> u32) \<times> ('l, 'd) dp_learner" where
  "report_stat dl = ((at_second dl, tx_counter dl),
     dl\<lparr>at_second := at_second dl + 1, tx_counter := 0, rx_counter := 0, dropped := 0\<rparr>)"


section \<open>Handing packets over\<close>

lemma hand_over_keeps:
  assumes "hand_over S pkt dl = Some dl'"
  shows "queued dl' = queued dl @ [pkt]" "vals dl' = vals dl" "latest_accepted_iid dl' = latest_accepted_iid dl"
    "latest_prepare_iid dl' = latest_prepare_iid dl" "primary_alive dl' = primary_alive dl" "paxos_learner dl' = paxos_learner dl"
  using assms by (auto simp: hand_over_def reset_tx_mbufs_def Let_def split: prod.splits option.splits if_splits)

text \<open>
  The transmit buffer has room for \<^verbatim>\<open>BURST_SIZE\<close> packets, so it never sends more at once; the pool
  gives as many packets as it was asked for, or none.
\<close>

definition tx_fits :: "('l, 'd) backup_env \<Rightarrow> bool" where
  "tx_fits S \<longleftrightarrow> (\<forall>d p. unat (snd (tx_buffer (tx S) d p)) \<le> BURST_SIZE)
     \<and> (\<forall>n bs. alloc_bulk S n = Some bs \<longrightarrow> length bs = n)"

lemma hand_over_some:
  assumes "tx_fits S" "length (tx_mbufs dl) = BURST_SIZE"
  shows "\<exists>dl'. hand_over S pkt dl = Some dl' \<and> length (tx_mbufs dl') = BURST_SIZE"
proof -
  obtain d n where d: "tx_buffer (tx S) (dev dl) pkt = (d, n)" by fastforce
  then have "unat n \<le> BURST_SIZE" using assms(1) unfolding tx_fits_def by (metis snd_conv)
  then show ?thesis
    using assms d
    by (cases "alloc_bulk S (unat n)") (auto simp: hand_over_def reset_tx_mbufs_def Let_def tx_fits_def)
qed

section \<open>The value of a new proposal\<close>

text \<open>The packet that completes phase 1.\<close>

lemma handle_promise_sends:
  assumes "tx_fits S" "length (tx_mbufs dl) = BURST_SIZE" "clone S pkt = Some cl"
    and "learner_receive_promise (lib S) (paxos_learner dl) (hdr_body PXH (buf pkt) (hdr_value PXH (buf pkt))) = (l, r, acc)"
    and "r \<noteq> 0"
    and v: "v = (if paxos_value_len (body_value acc) = 0 \<and> vals dl \<noteq> []
       then (last (vals dl))\<lparr>paxos_value_val := freed_contents S (paxos_value_val (last (vals dl)))\<rparr> else body_value acc)"
    and p: "p = add_paxos_message (rte S) \<lparr>mtype = of_nat (msg_code PAXOS_ACCEPT), body = acc\<lparr>body_value := v\<rparr>\<rparr> cl
       (bswap16 (ld16 (UDPH + udp_src_port) (buf pkt))) ACCEPTOR_PORT ACCEPTOR_ADDR"
  shows "\<exists>pkt' dl'. handle_promise S pkt dl = Some (pkt', r, dl') \<and> queued dl' = queued dl @ [p]
    \<and> vals dl' = (if paxos_value_len (body_value acc) = 0 \<and> vals dl \<noteq> [] then butlast (vals dl) else vals dl)"
proof -
  define dl1 where "dl1 = dl\<lparr>paxos_learner := l,
    vals := (if paxos_value_len (body_value acc) = 0 \<and> vals dl \<noteq> [] then butlast (vals dl) else vals dl)\<rparr>"
  obtain dl2 where dl2: "hand_over S p dl1 = Some dl2"
    using hand_over_some[OF assms(1), of dl1 p] assms(2) by (auto simp: dl1_def)
  have "handle_promise S pkt dl = map_option (\<lambda>dl. (pkt\<lparr>buf := buf p\<rparr>, r, dl)) (hand_over S p dl1)"
    using assms(3,4,5) by (simp add: handle_promise_def Let_def vcount_def p dl1_def v)
  moreover have "queued dl2 = queued dl @ [p]" "vals dl2 = vals dl1"
    using hand_over_keeps[OF dl2] by (simp_all add: dl1_def)
  ultimately show ?thesis using dl2 by (simp add: dl1_def)
qed

text \<open>When a promise completes phase 1, the accept message the backup sends carries the value
  libpaxos took from the promises, if there is one: a value that may have been chosen is proposed
  again, and the client values stay.  Only where there is none does it carry the last client value,
  which is taken from the buffer (with the bytes found after it was freed).\<close>

theorem promise_value_kept:
  assumes "tx_fits S" "length (tx_mbufs dl) = BURST_SIZE" "clone S pkt = Some cl"
    and "learner_receive_promise (lib S) (paxos_learner dl) (hdr_body PXH (buf pkt) (hdr_value PXH (buf pkt))) = (l, r, acc)"
    and "r \<noteq> 0"
    and v: "v = (if paxos_value_len (body_value acc) = 0 \<and> vals dl \<noteq> []
       then (last (vals dl))\<lparr>paxos_value_val := freed_contents S (paxos_value_val (last (vals dl)))\<rparr> else body_value acc)"
    and small: "unat (paxos_value_len v) < 2 ^ 31"
  shows "\<exists>pkt' dl' p. handle_promise S pkt dl = Some (pkt', r, dl') \<and> queued dl' = queued dl @ [p]
    \<and> unat (hdr_msgtype PXH (buf p)) = msg_code PAXOS_ACCEPT
    \<and> hdr_body PXH (buf p) v = acc\<lparr>body_value := v\<rparr>
    \<and> value_bytes (hdr_value PXH (buf p)) = value_bytes v
    \<and> vals dl' = (if paxos_value_len (body_value acc) = 0 \<and> vals dl \<noteq> [] then butlast (vals dl) else vals dl)"
proof -
  define pm where "pm = \<lparr>mtype = of_nat (msg_code PAXOS_ACCEPT), body = acc\<lparr>body_value := v\<rparr>\<rparr>"
  define p where "p = add_paxos_message (rte S) pm cl (bswap16 (ld16 (UDPH + udp_src_port) (buf pkt))) ACCEPTOR_PORT ACCEPTOR_ADDR"
  have pm: "unat (paxos_value_len (body_value (body pm))) < 2 ^ 31" using small by (simp add: pm_def)
  have "hdr_msgtype PXH (buf p) = 2" "hdr_body PXH (buf p) v = acc\<lparr>body_value := v\<rparr>"
    using sent_hdr[OF pm] by (simp_all add: p_def) (simp_all add: pm_def)
  moreover have "value_bytes (hdr_value PXH (buf p)) = value_bytes v"
    using sent_value_bytes[OF pm] by (simp add: p_def) (simp add: pm_def)
  ultimately show ?thesis using handle_promise_sends[OF assms(1-6) p_def[unfolded pm_def]] by auto
qed

text \<open>A concrete environment and backup: libpaxos prepares what it is asked to and never needs the client's value.\<close>

definition example_backup_env :: "(nat, nat) backup_env" where
  "example_backup_env = \<lparr>rte = example_env, lib = \<lparr>
       learner_receive_accepted = (\<lambda>l a. (l + 1, 1)),
       learner_receive_promise = (\<lambda>l p. (l + 1, 1, p)),
       learner_prepare = (\<lambda>l i. (l + 1, \<lparr>iid = i, ballot = 9, value_ballot = 0, aid = 0, body_value = NULL_value\<rparr>))\<rparr>,
     tx = \<lparr>tx_buffer = (\<lambda>d p. if d < 31 then (d + 1, 0) else (0, 32)), tx_buffer_flush = (\<lambda>d. (0, of_nat d))\<rparr>,
     alloc_bulk = (\<lambda>n. Some (replicate n example_mbuf)), clone = Some, freed_contents = (\<lambda>m. m)\<rparr>"

definition example_backup :: "(nat, nat) dp_learner" where
  "example_backup = \<lparr>num_acceptors = 3, nb_learners = 1, learner_id = 0, nb_pkt_buf = 0, latest_accepted_iid = 10,
     latest_prepare_iid = 10, paxos_learner = 0, dev = 0, tx_mbufs = replicate 32 example_mbuf,
     vals = [\<lparr>paxos_value_len = 2, paxos_value_val = (\<lambda>i. of_nat (i + 5))\<rparr>], primary_alive = True,
     queued = [], tx_counter = 0, rx_counter = 0, at_second = 0, dropped = 0\<rparr>"

lemma example_backup_ok:
  "tx_fits example_backup_env" "length (tx_mbufs example_backup) = BURST_SIZE" "nb_pkt_buf example_backup < BURST_SIZE"
  by (auto simp: tx_fits_def example_backup_env_def example_backup_def BURST_SIZE_def)

definition example_paxos_packet :: "u32 \<Rightarrow> u32 \<Rightarrow> paxos_value \<Rightarrow> mbuf" where
  "example_paxos_packet t i v = add_paxos_message example_env \<lparr>mtype = t, body = \<lparr>iid = i, ballot = 1, value_ballot = 1, aid = 0,
     body_value = v\<rparr>\<rparr> example_mbuf ACCEPTOR_PORT LEARNER_PORT LEARNER_ADDR"

lemma example_paxos_packet:
  assumes "unat (paxos_value_len v) < 2 ^ 31"
  shows "hdr_msgtype PXH (buf (example_paxos_packet t i v)) = ucast t"
    "hdr_body PXH (buf (example_paxos_packet t i v)) w = \<lparr>iid = i, ballot = 1, value_ballot = 1, aid = 0, body_value = w\<rparr>"
    "paxos_value_len (hdr_value PXH (buf (example_paxos_packet t i v))) = paxos_value_len v"
  using sent_hdr[of "\<lparr>mtype = t, body = \<lparr>iid = i, ballot = 1, value_ballot = 1, aid = 0, body_value = v\<rparr>\<rparr>"] assms
  by (simp_all add: example_paxos_packet_def hdr_value_def)

theorem promise_value_kept_witness:
  "\<exists>pkt' dl' p. handle_promise example_backup_env (example_paxos_packet 1 4 NULL_value) example_backup = Some (pkt', 1, dl')
    \<and> queued dl' = [p] \<and> value_bytes (hdr_value PXH (buf p)) = [5, 6] \<and> vals dl' = []"
proof -
  let ?p = "example_paxos_packet 1 4 NULL_value"
  have n: "unat (paxos_value_len NULL_value) < 2 ^ 31" by (simp add: NULL_value_def)
  have "clone example_backup_env ?p = Some ?p"
    "learner_receive_promise (lib example_backup_env) (paxos_learner example_backup) (hdr_body PXH (buf ?p) (hdr_value PXH (buf ?p)))
      = (1, 1, hdr_body PXH (buf ?p) (hdr_value PXH (buf ?p)))"
    by (simp_all add: example_backup_env_def example_backup_def)
  note env = this
  have len: "paxos_value_len (body_value (hdr_body PXH (buf ?p) (hdr_value PXH (buf ?p)))) = 0"
    using example_paxos_packet(3)[OF n] by (simp add: hdr_body_def NULL_value_def)
  let ?v = "\<lparr>paxos_value_len = 2, paxos_value_val = (\<lambda>i. of_nat (i + 5))\<rparr>"
  have v: "?v = (if paxos_value_len (body_value (hdr_body PXH (buf ?p) (hdr_value PXH (buf ?p)))) = 0 \<and> vals example_backup \<noteq> []
      then (last (vals example_backup))\<lparr>paxos_value_val := freed_contents example_backup_env (paxos_value_val (last (vals example_backup)))\<rparr>
      else body_value (hdr_body PXH (buf ?p) (hdr_value PXH (buf ?p))))"
    by (simp only: len) (simp add: example_backup_def example_backup_env_def)
  have "queued example_backup = []" "vals example_backup \<noteq> []" "butlast (vals example_backup) = []"
    by (simp_all add: example_backup_def)
  moreover have "value_bytes ?v = [5, 6]" by (simp add: value_bytes_def bytes_at_def upt_rec)
  ultimately show ?thesis
    using promise_value_kept[OF example_backup_ok(1,2) env _ v] len by auto
qed

section \<open>The value buffer\<close>

lemma vals_bounded_step:
  assumes "vcount dl \<le> NB_VALUE_BUFFER" "paxos_rx_process S pkt dl = Some (p, r, dl')"
  shows "vcount dl' \<le> NB_VALUE_BUFFER"
proof -
  have keeps: "vals dl'' = vals d" if "hand_over S q d = Some dl''" for q d dl''
    using hand_over_keeps(2)[OF that] .
  have rec: "vals d' = vals d" if "start_recovery S d = Some d'" for d d'
    using that by (auto simp: start_recovery_def Let_def split: if_splits prod.splits dest!: keeps)
  show ?thesis
    using assms
    by (auto simp: paxos_rx_process_def handle_promise_def handle_accept_def handle_accepted_def Let_def vcount_def
        split: if_splits prod.splits option.splits dest!: keeps rec)
qed

text \<open>The buffer of client values never overflows, whatever packets arrive.\<close>

theorem values_bounded:
  assumes "vcount dl \<le> NB_VALUE_BUFFER" "add_timestamps S pkts dl = Some dl'"
  shows "vcount dl' \<le> NB_VALUE_BUFFER"
  using assms
proof (induction pkts arbitrary: dl)
  case (Cons pkt pkts)
  from Cons.prems obtain p r dl1 where "paxos_rx_process S pkt dl = Some (p, r, dl1)" "add_timestamps S pkts dl1 = Some dl'"
    by (auto split: option.splits prod.splits)
  then show ?case using vals_bounded_step Cons by blast
qed simp


section \<open>Recovery\<close>

definition iid_of :: "mbuf \<Rightarrow> u32" where
  "iid_of pkt = iid (hdr_body PXH (buf pkt) NULL_value)"

text \<open>The packets the backup looks into, by the type of their message.\<close>

definition carries :: "rte_env \<Rightarrow> paxos_message_type \<Rightarrow> mbuf \<Rightarrow> bool" where
  "carries E t pkt \<longleftrightarrow> buf pkt (IPH + ip_next_proto_id) = IPPROTO_UDP
     \<and> (ld16 (UDPH + udp_dst_port) (buf pkt) \<in> {bswap16 LEARNER_PORT, bswap16 ACCEPTOR_PORT}
        \<or> packet_type pkt AND PTYPE_TUNNEL_MASK E \<noteq> 0)
     \<and> unat (hdr_msgtype PXH (buf pkt)) = msg_code t"

text \<open>libpaxos prepares the instance it is asked to prepare.\<close>

definition prepares :: "('l, 'd) backup_env \<Rightarrow> bool" where
  "prepares S \<longleftrightarrow> (\<forall>l i. iid (snd (learner_prepare (lib S) l i)) = i
     \<and> body_value (snd (learner_prepare (lib S) l i)) = NULL_value)"

lemma rx_carries:
  "carries (rte S) PAXOS_ACCEPT pkt \<Longrightarrow> paxos_rx_process S pkt dl = handle_accept S pkt dl"
  "carries (rte S) PAXOS_ACCEPTED pkt \<Longrightarrow> paxos_rx_process S pkt dl = handle_accepted S pkt dl"
  "carries (rte S) PAXOS_PROMISE pkt \<Longrightarrow> paxos_rx_process S pkt dl = handle_promise S pkt dl"
  by (auto simp: carries_def paxos_rx_process_def Let_def)

lemma iid_of_prepare:
  assumes "prepares S" "learner_prepare (lib S) l i = (l', prep)"
  shows "iid_of (add_paxos_message E (prepare_message prep) pkt sport dport dst) = i"
proof -
  have "iid prep = i" "body_value prep = NULL_value"
    using assms unfolding prepares_def by (metis snd_conv)+
  then show ?thesis by (simp add: iid_of_def sent_hdr prepare_message_def NULL_value_def)
qed

lemma start_recovery_prepares:
  assumes "tx_fits S" "prepares S" "length (tx_mbufs dl) = BURST_SIZE" "nb_pkt_buf dl < BURST_SIZE"
  shows "\<exists>p dl'. start_recovery S dl = Some dl' \<and> queued dl' = queued dl @ [p] \<and> iid_of p = latest_accepted_iid dl + 1
    \<and> latest_prepare_iid dl' = latest_prepare_iid dl + 2 \<and> latest_accepted_iid dl' = latest_accepted_iid dl
    \<and> length (tx_mbufs dl') = BURST_SIZE"
proof -
  obtain l prep where prep: "learner_prepare (lib S) (paxos_learner dl) (latest_accepted_iid dl + 1) = (l, prep)" by fastforce
  let ?p = "add_paxos_message (rte S) (prepare_message prep) (tx_mbufs dl ! nb_pkt_buf dl) LEARNER_PORT ACCEPTOR_PORT ACCEPTOR_ADDR"
  let ?dl = "dl\<lparr>nb_pkt_buf := nb_pkt_buf dl + 1, paxos_learner := l\<rparr>"
  obtain dl' where dl': "hand_over S ?p ?dl = Some dl'" "length (tx_mbufs dl') = BURST_SIZE"
    using hand_over_some[OF assms(1), of ?dl ?p] assms(3) by auto
  show ?thesis
    using dl' prep assms(3,4) hand_over_keeps[OF dl'(1)] iid_of_prepare[OF assms(2) prep]
    by (simp add: start_recovery_def Let_def)
qed

lemma handle_accepted_prepares:
  assumes "tx_fits S" "prepares S" "length (tx_mbufs dl) = BURST_SIZE" "clone S pkt = Some cl"
    and ret: "learner_receive_accepted (lib S) (paxos_learner dl) (hdr_body PXH (buf pkt) (hdr_value PXH (buf pkt))) = (l, r)" "r \<noteq> 0"
    and "iid (hdr_body PXH (buf pkt) (hdr_value PXH (buf pkt))) \<le> latest_prepare_iid dl"
  shows "\<exists>pkt' p dl'. handle_accepted S pkt dl = Some (pkt', r, dl') \<and> queued dl' = queued dl @ [p]
    \<and> iid_of p = latest_prepare_iid dl + 1"
proof -
  let ?i = "iid (hdr_body PXH (buf pkt) (hdr_value PXH (buf pkt)))"
  define dl1 where "dl1 = (if latest_accepted_iid dl < ?i then dl\<lparr>paxos_learner := l, latest_accepted_iid := ?i\<rparr> else dl\<lparr>paxos_learner := l\<rparr>)"
  have dl1: "latest_prepare_iid dl1 = latest_prepare_iid dl" "queued dl1 = queued dl" "length (tx_mbufs dl1) = BURST_SIZE"
    "paxos_learner dl1 = l"
    using assms(3) by (simp_all add: dl1_def)
  obtain l' prep where prep: "learner_prepare (lib S) l (latest_prepare_iid dl + 1) = (l', prep)" by fastforce
  let ?p = "add_paxos_message (rte S) (prepare_message prep) cl LEARNER_PORT ACCEPTOR_PORT ACCEPTOR_ADDR"
  obtain dl2 where dl2: "hand_over S ?p (dl1\<lparr>paxos_learner := l'\<rparr>) = Some dl2"
    using hand_over_some[OF assms(1), of "dl1\<lparr>paxos_learner := l'\<rparr>" ?p] dl1(3) by auto
  have "handle_accepted S pkt dl = map_option (\<lambda>dl. (pkt\<lparr>buf := buf ?p\<rparr>, r, dl\<lparr>latest_prepare_iid := latest_prepare_iid dl + 1\<rparr>))
      (hand_over S ?p (dl1\<lparr>paxos_learner := l'\<rparr>))"
    using assms(4) ret prep dl1 leD[OF assms(7)] by (simp add: handle_accepted_def Let_def flip: dl1_def)
  then show ?thesis
    using dl2 hand_over_keeps(1)[OF dl2] iid_of_prepare[OF assms(2) prep] dl1 by simp
qed

text \<open>After the primary has failed at instance \<open>a\<close>, the backup prepares \<open>a + 1\<close> and, when that is accepted, goes on
  with \<open>a + 3\<close>: it advances its counter by two for the one instance it prepared, so instance \<open>a + 2\<close>
  is left out.\<close>

theorem backup_skips_instance:
  assumes "tx_fits S" "prepares S" "length (tx_mbufs dl) = BURST_SIZE" "nb_pkt_buf dl < BURST_SIZE" "primary_alive dl"
    and "latest_prepare_iid dl = a" "latest_accepted_iid dl = a" "unat a + 3 < 2 ^ 32"
    and "carries (rte S) PAXOS_ACCEPT p1" "carries (rte S) PAXOS_ACCEPTED p2"
    and "\<And>l b. snd (learner_receive_accepted (lib S) l b) = 1" "\<And>p. clone S p = Some p" "iid_of p2 = a + 1"
  shows "\<exists>dl'. add_timestamps S [p1, p2] dl = Some dl' \<and> map iid_of (queued dl') = map iid_of (queued dl) @ [a + 1, a + 3]"
proof -
  let ?v = "hdr_value PXH (buf p1)"
  define dl0 where "dl0 = (if 0 < sint (paxos_value_len ?v) \<and> vcount dl < NB_VALUE_BUFFER then dl\<lparr>vals := vals dl @ [?v]\<rparr> else dl)"
  have dl0: "length (tx_mbufs dl0) = BURST_SIZE" "nb_pkt_buf dl0 < BURST_SIZE" "primary_alive dl0" "latest_prepare_iid dl0 = a"
    "latest_accepted_iid dl0 = a" "queued dl0 = queued dl"
    using assms by (simp_all add: dl0_def)
  obtain q dl1 where 1: "start_recovery S dl0 = Some dl1" "queued dl1 = queued dl @ [q]" "iid_of q = a + 1"
    "latest_prepare_iid dl1 = a + 2" "length (tx_mbufs dl1) = BURST_SIZE"
    using start_recovery_prepares[OF assms(1,2) dl0(1,2)] dl0 by auto
  have step1: "paxos_rx_process S p1 dl = Some (p1, -1, dl1\<lparr>primary_alive := False\<rparr>)"
    using rx_carries(1)[OF assms(9)] dl0(3) 1(1) by (simp add: handle_accept_def Let_def flip: dl0_def)
  let ?b = "hdr_body PXH (buf p2) (hdr_value PXH (buf p2))"
  obtain l where l: "learner_receive_accepted (lib S) (paxos_learner dl1) ?b = (l, 1)" using assms(11) by (metis surjective_pairing)
  have "unat (a + 2) = unat a + 2" "unat (a + 1) = unat a + 1"
    using assms(8) by (simp_all add: unat_word_ariths(1))
  then have "iid ?b \<le> a + 2" using assms(13) by (simp add: iid_of_def hdr_body_def word_le_nat_alt)
  then obtain pkt' p dl2 where "handle_accepted S p2 (dl1\<lparr>primary_alive := False\<rparr>) = Some (pkt', 1, dl2)"
    "queued dl2 = queued dl1 @ [p]" "iid_of p = a + 2 + 1"
    using handle_accepted_prepares[OF assms(1,2), of "dl1\<lparr>primary_alive := False\<rparr>" p2 p2 l 1] 1 l assms(12) by auto
  then show ?thesis
    using step1 rx_carries(2)[OF assms(10)] 1 by (simp add: add.assoc)
qed


theorem backup_skips_instance_witness:
  "\<exists>dl'. add_timestamps example_backup_env [example_paxos_packet 2 11 NULL_value, example_paxos_packet 3 11 NULL_value] example_backup
      = Some dl' \<and> map iid_of (queued dl') = [11, 13]"
proof -
  have n: "unat (paxos_value_len NULL_value) < 2 ^ 31" by (simp add: NULL_value_def)
  have c: "carries (rte example_backup_env) PAXOS_ACCEPT (example_paxos_packet 2 11 NULL_value)"
    "carries (rte example_backup_env) PAXOS_ACCEPTED (example_paxos_packet 3 11 NULL_value)"
    using example_paxos_packet(1)[OF n]
    by (simp_all add: carries_def) (simp_all add: example_paxos_packet_def add_paxos_message_def craft_new_packet_def Let_def mem_simps)
  show ?thesis
    using backup_skips_instance[OF example_backup_ok(1) _ example_backup_ok(2,3) _ _ _ _ c, of 10]
    by (simp add: iid_of_def example_paxos_packet[OF n] prepares_def) (simp add: example_backup_env_def example_backup_def)
qed

theorem values_bounded_witness:
  "\<exists>dl'. add_timestamps example_backup_env [example_mbuf] example_backup = Some dl' \<and> vcount dl' \<le> 1024"
proof -
  have "add_timestamps example_backup_env [example_mbuf] example_backup = Some example_backup"
    by (simp add: paxos_rx_process_def example_mbuf_def)
  then show ?thesis
    using values_bounded[of example_backup example_backup_env "[example_mbuf]" example_backup]
    by (simp add: vcount_def NB_VALUE_BUFFER_def) (simp add: example_backup_def)
qed

section \<open>Start-up\<close>

definition port_init :: "api \<Rightarrow> u8 \<Rightarrow> int host" where
  "port_init api port = do {
     calls [dev_info_get port];
     n \<leftarrow> ask api dev_count;
     if uint port \<ge> n then State_Monad.return (-1)
     else do {
       retval \<leftarrow> ask api (dev_configure port 1 1);
       if retval \<noteq> 0 then State_Monad.return retval
       else do {
         retval \<leftarrow> ask api (rx_queue_setup port 0);
         if retval < 0 then State_Monad.return retval
         else do {
           retval \<leftarrow> ask api (tx_queue_setup port 0);
           if retval < 0 then State_Monad.return retval
           else do {
             retval \<leftarrow> ask api (dev_start port);
             if retval < 0 then State_Monad.return retval
             else do {
               calls [promiscuous_enable port];
               calls [add_rx_callback port ''add_timestamps''];
               State_Monad.return 0
             }
           }
         }
       }
     }
   }"

definition callbacks :: "u8 \<Rightarrow> call list" where
  "callbacks port = [add_rx_callback port ''add_timestamps'']"

definition main :: "getopt \<Rightarrow> api \<Rightarrow> outcome host" where
  "main opts api = do {
     calls [signal 15, signal 2];
     ret \<leftarrow> ask api eal_init;
     if ret < 0 then State_Monad.return (Exit_failure ''Error with EAL initialization'')
     else case parse_args opts of Inl e \<Rightarrow> State_Monad.return (Exit_failure e) | Inr cfg \<Rightarrow> do {
       mbuf_pool \<leftarrow> ask api (pool_create ''MBUF_POOL'');
       if mbuf_pool = 0 then State_Monad.return (Exit_failure ''Cannot create MBUF_POOL'')
       else do {
         mbuf_tx \<leftarrow> ask api (pool_create ''MBUF_TX'');
         if mbuf_tx = 0 then State_Monad.return (Exit_failure ''Cannot create MBUF_TX'')
         else do {
           calls [paxos_new ''learner'', timer_hz, timer_subsystem_init, timer_init ''coord_timer''];
           tx_buffer \<leftarrow> ask api zmalloc_tx_buffer;
           if tx_buffer = 0 then State_Monad.return (Exit_failure ''Cannot allocate buffer for tx'')
           else do {
             calls [tx_buffer_init BURST_SIZE];
             ret \<leftarrow> ask api set_err_callback;
             if ret < 0 then State_Monad.return (Exit_failure ''Cannot set error callback'')
             else do {
               calls [next_lcore, timer_reset ''timer'' ''report_stat'',
                      remote_launch ''check_timer_expiration'', timer_subsystem_init];
               r \<leftarrow> port_init api 0;
               if r \<noteq> 0 then State_Monad.return (Exit_failure ''Cannot init port'')
               else do {
                 calls [alloc_mbufs BURST_SIZE, lcore_loop 0];
                 calls [paxos_free ''learner''];
                 State_Monad.return (Returned 0)
               }
             }
           }
         }
       }
     }
   }"

interpretation backup_port: port_initialiser port_init callbacks
proof
  show "\<exists>pre mid. log' = log @ pre @ [dev_start p] @ mid @ callbacks p
      \<and> (\<forall>c \<in> set (pre @ mid). \<not> is_callback c \<and> \<not> is_loop c)"
    if "run_state (port_init api p) log = (0, log')" for api p log log'
    using that
    by (intro exI[of _ "[dev_info_get p, dev_count, dev_configure p 1 1, rx_queue_setup p 0, tx_queue_setup p 0]"]
        exI[of _ "[promiscuous_enable p]"])
      (auto simp: port_init_def callbacks_def trace_simps Let_def split: if_splits)
  show "\<exists>suf. log' = log @ suf \<and> (\<forall>c \<in> set suf. \<not> is_callback c \<and> \<not> is_loop c)"
    if "run_state (port_init api p) log = (r, log')" "r \<noteq> 0" for api p log r log'
    using that by (auto simp: port_init_def trace_simps Let_def split: if_splits)
qed

abbreviation (input) startup :: "call list" where
  "startup \<equiv> [signal 15, signal 2, eal_init, pool_create ''MBUF_POOL'', pool_create ''MBUF_TX'', paxos_new ''learner'',
     timer_hz, timer_subsystem_init, timer_init ''coord_timer'', zmalloc_tx_buffer, tx_buffer_init BURST_SIZE, set_err_callback,
     next_lcore, timer_reset ''timer'' ''report_stat'', remote_launch ''check_timer_expiration'', timer_subsystem_init]"

lemma backup_main_run:
  "run_state (main opts api) [] = (Returned v, log) \<Longrightarrow> \<exists>l1. run_state (port_init api 0) startup = (0, l1)
    \<and> log = l1 @ [alloc_mbufs BURST_SIZE] @ [lcore_loop 0] @ [paxos_free ''learner'']"
  by (simp add: main_def guard_returned split: prod.splits sum.splits)

interpretation backup_main: dpdk_program port_init callbacks "main opts" for opts
proof
  show "\<exists>l0 l1 mid post. run_state (port_init api 0) l0 = (0, l1) \<and> log = l1 @ mid @ [lcore_loop 0] @ post
      \<and> (\<forall>c \<in> set (l0 @ mid @ post). \<not> is_callback c \<and> \<not> is_loop c)"
    if run: "run_state (main opts api) [] = (Returned v, log)" for api v log
  proof -
    obtain l1 where "run_state (port_init api 0) startup = (0, l1)"
      "log = l1 @ [alloc_mbufs BURST_SIZE] @ [lcore_loop 0] @ [paxos_free ''learner'']"
      using backup_main_run[OF run] by blast
    then show ?thesis
      by (intro exI[of _ startup] exI[of _ l1] exI[of _ "[alloc_mbufs BURST_SIZE]"] exI[of _ "[paxos_free ''learner'']"])
        (simp add: trace_simps)
  qed
  show "\<forall>c \<in> set log. \<not> is_loop c" if run: "run_state (main opts api) [] = (Exit_failure msg, log)" for api msg log
  proof -
    have "exits_early (main opts api) []"
      by (simp add: main_def is_loop_def backup_port.exits_early_init split: sum.split)
    then show ?thesis using run by (simp add: exits_early_def quiet_def)
  qed
qed

end
