(* ===== verification/Dpdk_Recovery.thy ===== *)
theory Dpdk_Recovery
  imports Dpdk_System Dpdk_Backup
begin

text \<open>
  The backup coordinator of \<open>Dpdk_Backup\<close> on a deployment of \<open>Dpdk_System\<close>.  With libpaxos's phase 1 under
  its contract and promises that arrive whole, the accept message it sends is one the rule of phase 2
  allows, so it is a step of the deployment and agreement covers it.  The prepares it sends,
  however, only leave room for ten bytes of value in the promises that answer them.
\<close>

section \<open>The contract of phase 1\<close>

text \<open>The promises a learner of libpaxos was told of: acceptor, instance, ballot, and the vote's ballot and value.\<close>

type_synonym told = "(u16 \<times> u32 \<times> u16 \<times> u16 \<times> u8 list) set"

definition promise_of :: "paxos_promise \<Rightarrow> u16 \<times> u32 \<times> u16 \<times> u16 \<times> u8 list" where
  "promise_of m = (aid m, iid m, ballot m, value_ballot m, value_bytes (body_value m))"

text \<open>A majority promised the ballot of the accept message, whose value is the one reported with the highest ballot, or none.\<close>

definition phase1_done :: "nat \<Rightarrow> told \<Rightarrow> paxos_accept \<Rightarrow> bool" where
  "phase1_done n P acc \<longleftrightarrow> (\<exists>A r w. n < 2 * card A \<and> (\<forall>k\<in>A. (k, iid acc, ballot acc, r k, w k) \<in> P) \<and>
     ((\<forall>k\<in>A. r k = 0) \<and> value_bytes (body_value acc) = [] \<or>
      (\<exists>k\<in>A. r k \<noteq> 0 \<and> value_bytes (body_value acc) = w k \<and> (\<forall>k'\<in>A. r k' \<le> r k))))"

definition promises_ok :: "nat \<Rightarrow> 'l Dpdk_Backup.learner_api \<Rightarrow> ('l \<Rightarrow> told) \<Rightarrow> bool" where
  "promises_ok n L told \<longleftrightarrow> (\<forall>l m l' ret acc. learner_receive_promise L l m = (l', ret, acc) \<longrightarrow>
     told l' \<subseteq> insert (promise_of m) (told l) \<and> (ret \<noteq> 0 \<longrightarrow> phase1_done n (insert (promise_of m) (told l)) acc))"

section \<open>Promises on the wire\<close>

text \<open>The promises that can be read from the packets of the network, which are those that arrive whole.\<close>

definition wire_promises :: "nat \<Rightarrow> ('a, 'd) deployment \<Rightarrow> told" where
  "wire_promises n s = {(k, i, b, r, w). \<exists>a<n. k = of_nat a \<and>
     (\<exists>q. (Acc a, q) \<in> dnet s \<and> says PAXOS_PROMISE i b w q \<and> names_ballot q = r \<and> whole q)}"

lemma told_on_wire:
  assumes inv: "dpdk_inv n L M s" and q: "(x, q) \<in> dnet s" "received q p" "whole q"
    and type: "unat (hdr_msgtype PXH (buf p)) = msg_code PAXOS_PROMISE"
  shows "promise_of (hdr_body PXH (buf p) (hdr_value PXH (buf p))) \<in> wire_promises n s"
proof -
  note hdr = received_hdr[OF q(2) whole_headed[OF q(3)]]
  have "packet_ok n x q" using inv q(1) by (simp add: dpdk_inv_def)
  then obtain a where a: "a < n" "x = Acc a" "names_acceptor q = of_nat a"
    using type hdr(1) by (auto simp: packet_ok_def Let_def)
  let ?m = "hdr_body PXH (buf p) (hdr_value PXH (buf p))"
  have "says PAXOS_PROMISE (iid ?m) (ballot ?m) (value_bytes (body_value ?m)) p"
    using type by (simp add: says_def hdr_body_def)
  then have "says PAXOS_PROMISE (iid ?m) (ballot ?m) (value_bytes (body_value ?m)) q"
    using received_says[OF q(2,3)] by simp
  moreover have "names_ballot q = value_ballot ?m" "of_nat a = aid ?m"
    using a(3) hdr(2)[of NULL_value] by (simp_all add: names_ballot_def names_acceptor_def hdr_body_def)
  ultimately show ?thesis using a(1,2) q(1,3) unfolding wire_promises_def promise_of_def by force
qed

text \<open>A vote that a promise reports was cast, for a value that was proposed.\<close>

lemma reported_proposed:
  assumes "acceptor_ok L M" "dpdk_start M s" "(dpdk_step E T port L n)\<^sup>*\<^sup>* s t"
    and "(Acc a, q) \<in> dnet t" "says PAXOS_PROMISE i b w q" "names_ballot q \<noteq> 0"
  shows "dpdk_proposed i t (names_ballot q) w"
proof -
  have s: "acceptor_ok L M \<and> dpdk_start M s" using assms(1,2) ..
  have inv: "spec_inv n (dpdk_view M i t)" by (rule spec_reach_inv[OF dpdk.run_reach[OF s assms(3)]])
  have "(a, b, names_ballot q, w) \<in> sproms (dpdk_view M i t)"
    using assms(4,5) by (auto simp: dpdk_view_def dpdk_promised_def)
  from inv_voteD(2)[OF inv inv_promD(3)[OF inv this assms(6)]] show ?thesis by (simp add: dpdk_view_def)
qed

section \<open>The accept message of the backup\<close>

text \<open>The rule of phase 2 from what libpaxos was told, when no empty value was ever proposed.\<close>

lemma phase1_rule:
  assumes run: "acceptor_ok L M" "dpdk_start M s" "(dpdk_step E T port L n)\<^sup>*\<^sup>* s t" and n: "n \<le> 2 ^ 16"
    and ph: "phase1_done n P acc" and P: "P \<subseteq> wire_promises n t"
    and fresh: "\<forall>w. \<not> dpdk_proposed (iid acc) t (ballot acc) w" and nonempty: "\<forall>i b. \<not> dpdk_proposed i t b []"
    and v: "value_bytes (body_value acc) \<noteq> [] \<Longrightarrow> v = value_bytes (body_value acc)"
  shows "dpdk_proposer_rule n t (iid acc) (ballot acc) v"
proof -
  obtain A r w where A: "n < 2 * card A" "\<forall>k\<in>A. (k, iid acc, ballot acc, r k, w k) \<in> wire_promises n t"
    and top: "(\<forall>k\<in>A. r k = 0) \<and> value_bytes (body_value acc) = [] \<or>
      (\<exists>k\<in>A. r k \<noteq> 0 \<and> value_bytes (body_value acc) = w k \<and> (\<forall>k'\<in>A. r k' \<le> r k))"
    using ph P unfolding phase1_done_def by blast
  define Q where "Q = {a. a < n \<and> (of_nat a :: u16) \<in> A}"
  have "majority n Q" unfolding Q_def by (rule majority_of_ids[OF A(1)]) (use A(2) in \<open>auto simp: wire_promises_def\<close>)
  moreover have prom: "\<exists>q. (Acc a, q) \<in> dnet t \<and> says PAXOS_PROMISE (iid acc) (ballot acc) (w (of_nat a)) q
      \<and> names_ballot q = r (of_nat a) \<and> whole q" if a: "a \<in> Q" for a
  proof -
    from a A(2) have k: "a < n" "(of_nat a, iid acc, ballot acc, r (of_nat a), w (of_nat a)) \<in> wire_promises n t"
      by (auto simp: Q_def)
    from k(2) obtain c q where c: "c < n" "(of_nat a :: u16) = of_nat c" and q: "(Acc c, q) \<in> dnet t"
      "says PAXOS_PROMISE (iid acc) (ballot acc) (w (of_nat a)) q" "names_ballot q = r (of_nat a)" "whole q"
      unfolding wire_promises_def mem_Collect_eq prod.case by (elim exE conjE) (rule that)
    have "a = c" by (rule of_nat_id[OF k(1) c(1) n c(2)])
    with q show ?thesis by blast
  qed
  moreover have "(\<forall>a\<in>Q. r (of_nat a) = 0) \<or>
      (\<exists>a\<in>Q. r (of_nat a) \<noteq> 0 \<and> w (of_nat a) = v \<and> (\<forall>a'\<in>Q. r (of_nat a') \<le> r (of_nat a)))"
    using top
  proof (elim disjE conjE bexE)
    fix k
    assume k: "k \<in> A" "r k \<noteq> 0" "value_bytes (body_value acc) = w k" "\<forall>k'\<in>A. r k' \<le> r k"
    then obtain a where a: "a < n" "k = of_nat a" using A(2) by (auto simp: wire_promises_def)
    then have "a \<in> Q" using k(1) by (simp add: Q_def)
    then obtain q where "dpdk_proposed (iid acc) t (names_ballot q) (w k)"
      using prom reported_proposed[OF run] a(2) k(2) by metis
    then have "w k \<noteq> []" using nonempty by metis
    then have "w (of_nat a) = v" using v k(3) a(2) by simp
    then show ?thesis using \<open>a \<in> Q\<close> k(2,4) a(2) by (auto simp: Q_def)
  qed (auto simp: Q_def)
  ultimately show ?thesis
    unfolding dpdk_proposer_rule_def using fresh by (intro conjI exI[of _ Q] exI[of _ "\<lambda>a. r (of_nat a)"] exI[of _ "\<lambda>a. w (of_nat a)"]) auto
qed

text \<open>C4: The backup keeps the rule: when libpaxos completes phase 1 on promises that arrived whole, the accept message the backup
  sends is a step of the deployment that the rule of phase 2 allows, so agreement covers it; as long as
  the ballot is the backup's own and nobody proposed an empty value.\<close>

theorem backup_recovers:
  assumes run: "acceptor_ok L M" "dpdk_start M s" "(dpdk_step E T port L n)\<^sup>*\<^sup>* s t" "n \<le> 2 ^ 16"
    and lib: "promises_ok n (lib S) told" "told (paxos_learner dl) \<subseteq> wire_promises n t"
    and pkt: "(x, q) \<in> dnet t" "received q pkt" "whole q" "unat (hdr_msgtype PXH (buf pkt)) = msg_code PAXOS_PROMISE"
    and dev: "tx_fits S" "length (tx_mbufs dl) = BURST_SIZE" "clone S pkt = Some cl"
    and ph: "learner_receive_promise (lib S) (paxos_learner dl) (hdr_body PXH (buf pkt) (hdr_value PXH (buf pkt))) = (l, r, acc)" "r \<noteq> 0"
    and ballot: "1 < ballot acc" "\<forall>w. \<not> dpdk_proposed (iid acc) t (ballot acc) w" "\<forall>i b. \<not> dpdk_proposed i t b []"
    and fits: "\<forall>v \<in> set (body_value acc # vals dl). unat (paxos_value_len v) + 54 < 2 ^ 16"
  shows "\<exists>pkt' dl' p. handle_promise S pkt dl = Some (pkt', r, dl') \<and> queued dl' = queued dl @ [p]
    \<and> dpdk_step E T port L n t (t\<lparr>dnet := insert (Env, p) (dnet t)\<rparr>)"
proof -
  define v where "v = (if paxos_value_len (body_value acc) = 0 \<and> vals dl \<noteq> []
    then (last (vals dl))\<lparr>paxos_value_val := freed_contents S (paxos_value_val (last (vals dl)))\<rparr> else body_value acc)"
  define p where "p = add_paxos_message (rte S) \<lparr>mtype = of_nat (msg_code PAXOS_ACCEPT), body = acc\<lparr>body_value := v\<rparr>\<rparr> cl
    (bswap16 (ld16 (UDPH + udp_src_port) (buf pkt))) ACCEPTOR_PORT ACCEPTOR_ADDR"
  have len: "length (value_bytes v) + 54 < 2 ^ 16" using fits by (auto simp: v_def length_value_bytes)
  have says: "says PAXOS_ACCEPT (iid acc) (ballot acc) (value_bytes v) p" "whole p"
    using sent_accept[OF _ _ p_def] len by simp_all
  have inv: "dpdk_inv n L M t" by (rule dpdk.run_inv[OF run(3) dpdk.init_inv]) (use run(1,2) in blast)
  have P: "insert (promise_of (hdr_body PXH (buf pkt) (hdr_value PXH (buf pkt)))) (told (paxos_learner dl)) \<subseteq> wire_promises n t"
    using told_on_wire[OF inv pkt] lib(2) by blast
  have ph1: "phase1_done n (insert (promise_of (hdr_body PXH (buf pkt) (hdr_value PXH (buf pkt)))) (told (paxos_learner dl))) acc"
    using lib(1) ph unfolding promises_ok_def by blast
  have "value_bytes v = value_bytes (body_value acc)" if "value_bytes (body_value acc) \<noteq> []"
    using that by (auto simp: v_def value_bytes_def bytes_at_def)
  then have "dpdk_proposer_rule n t (iid acc) (ballot acc) (value_bytes v)"
    by (rule phase1_rule[OF run ph1 P ballot(2,3)])
  then have "dpdk_step E T port L n t (t\<lparr>dnet := insert (Env, p) (dnet t)\<rparr>)"
    using says ballot(1) len by (intro dpdk_step.recover) auto
  then show ?thesis using handle_promise_sends[OF dev ph v_def p_def] by blast
qed

section \<open>Promises that are cut off\<close>

text \<open>The prepares of the backup carry no value, so their packets are 68 bytes long, and so are the promises.\<close>

lemma prepare_packet:
  assumes "body_value prep = NULL_value" "p = add_paxos_message E (prepare_message prep) pkt sport dport dst"
  shows "pkt_len p = 68" "unat (hdr_msgtype PXH (buf p)) = msg_code PAXOS_PREPARE"
    "hdr_body PXH (buf p) NULL_value = prep"
proof -
  have "unat (paxos_value_len (body_value (body (prepare_message prep)))) < 2 ^ 31"
    using assms(1) by (simp add: prepare_message_def NULL_value_def)
  note hdr = sent_hdr[OF this, of E pkt sport dport dst]
  show "unat (hdr_msgtype PXH (buf p)) = msg_code PAXOS_PREPARE" "hdr_body PXH (buf p) NULL_value = prep"
    using hdr(1) hdr(2)[of NULL_value] assms by (simp_all add: prepare_message_def)
  show "pkt_len p = 68"
    using assms by (simp add: add_paxos_message_def craft_new_packet_def Let_def prepare_message_def NULL_value_def
        sizeof_paxos_message_def)
qed

text \<open>Bytes written over a buffer from an offset on.\<close>

definition overwrite :: "nat \<Rightarrow> u8 list \<Rightarrow> mem \<Rightarrow> mem" where
  "overwrite a xs m = (\<lambda>k. if a \<le> k \<and> k < a + length xs then xs ! (k - a) else m k)"

lemma overwrite_says:
  assumes "says t i b w q" "length w' = length w"
  shows "says t i b w' (q\<lparr>buf := overwrite (PXH + px_paxosval) w' (buf q)\<rparr>)"
proof -
  have "unat (hdr_value_len PXH (buf q)) = length w'" using assms by (auto simp: says_def hdr_value_def length_value_bytes)
  then have "value_bytes (hdr_value PXH (overwrite (PXH + px_paxosval) w' (buf q))) = w'"
    by (auto simp: value_bytes_def hdr_defs bytes_at_def from_offset_def overwrite_def ld32_def ld16_def intro!: nth_equalityI)
  moreover have "overwrite (PXH + px_paxosval) w' (buf q) k = buf q k" if "k < PXH + px_paxosval" for k
    using that by (simp add: overwrite_def)
  ultimately show ?thesis using assms(1) by (simp add: says_def hdr_defs ld16_def ld32_def)
qed

text \<open>C16: A promise that answers a prepare of the backup cannot be relied on for more than ten bytes of the value: whatever
  value with the same first ten bytes and the same length one chooses, the backup may read that value
  in what arrives of the promise.  The accept message it then sends can carry a value that nobody proposed.\<close>

theorem recovery_cuts_values:
  assumes "body_value prep = NULL_value" "received (add_paxos_message E (prepare_message prep) pkt sport dport dst) p"
    and "Dpdk_Acceptor.paxos_rx_process E' L p a = (q, a', 0)" "says PAXOS_PROMISE i b w q"
    and "length w' = length w" "take 10 w' = take 10 w"
  shows "\<exists>p'. received q p' \<and> says PAXOS_PROMISE i b w' p'"
proof (intro exI conjI)
  let ?p = "q\<lparr>buf := overwrite (PXH + px_paxosval) w' (buf q)\<rparr>"
  show "says PAXOS_PROMISE i b w' ?p" by (rule overwrite_says[OF assms(4,5)])
  have len: "pkt_len q = 68"
    using reply_lengths_kept[of E' L p a] assms(2,3) prepare_packet(1)[OF assms(1) refl]
    by (simp add: wire_lengths_def received_def)
  have "w' ! (k - 58) = buf q k" if k: "58 \<le> k" "k < 58 + length w'" "k < 68" for k
  proof -
    have "w' ! (k - 58) = take 10 w' ! (k - 58)" using k by simp
    also have "\<dots> = w ! (k - 58)" using k assms(5,6) by simp
    also have "\<dots> = buf q k"
      using assms(4,5) k by (auto simp: says_def value_bytes_def hdr_value_def bytes_at_def from_offset_def)
    finally show ?thesis .
  qed
  then show "received q ?p" by (simp add: received_def len overwrite_def)
qed

subsection \<open>A run\<close>

text \<open>A prepare for instance 5 with ballot 2, which the acceptor \<open>0\<close> of one answers, and a backup that takes the promise.\<close>

definition example_prepare_body :: paxos_prepare where
  "example_prepare_body = \<lparr>iid = 5, ballot = 2, value_ballot = 0, aid = 0, body_value = NULL_value\<rparr>"

definition example_prepare_packet :: mbuf where
  "example_prepare_packet = add_paxos_message example_env (prepare_message example_prepare_body) example_mbuf
     LEARNER_PORT ACCEPTOR_PORT ACCEPTOR_ADDR"

lemma example_prepare_packet:
  "pkt_len example_prepare_packet = 68" "unat (hdr_msgtype PXH (buf example_prepare_packet)) = msg_code PAXOS_PREPARE"
  "hdr_body PXH (buf example_prepare_packet) NULL_value = example_prepare_body" "for_acceptor example_env example_prepare_packet"
  using prepare_packet[OF _ example_prepare_packet_def]
  by (simp_all add: example_prepare_body_def)
    (simp add: for_acceptor_def example_prepare_packet_def add_paxos_message_def craft_new_packet_def Let_def mem_simps)

text \<open>The acceptor's answer, for a vote it may have cast before.\<close>

lemma example_promise:
  assumes "snd a 5 = (0, vb, v)" "unat (paxos_value_len v) < 2 ^ 31"
  obtains q a' where "Dpdk_Acceptor.paxos_rx_process example_env map_acceptor example_prepare_packet a = (q, a', 0)"
    "says PAXOS_PROMISE 5 2 (value_bytes v) q" "names_ballot q = vb" "pkt_len q = 68"
proof -
  obtain q a' ret where q: "Dpdk_Acceptor.paxos_rx_process example_env map_acceptor example_prepare_packet a = (q, a', ret)"
    by (meson prod_cases3)
  obtain a1 k out where rec: "acceptor_receive_prepare map_acceptor a example_prepare_body = (a1, k, out)" by (meson prod_cases3)
  then have "k = 1" by (auto simp: map_acceptor_def split: prod.splits)
  with rec have out: "paxos_dispatch map_acceptor (buf example_prepare_packet) a = (a1, 1, Some out)"
    "acceptor_receive_prepare map_acceptor a example_prepare_body = (a1, 1, out)"
    using example_prepare_packet(2,3) by (simp_all add: paxos_dispatch_def)
  have ok: "prepare_ok map_memory a example_prepare_body a1 out"
    by (rule acceptor_okD(1)[OF map_acceptor_ok out(2) refl])
  note f = answer_promise[OF example_prepare_packet(4) out(1) ok _ q]
  have m: "mem_value map_memory a 5 = value_bytes v" "mem_ballot map_memory a 5 = vb" "mem_promise map_memory a 5 = 0"
    using assms(1) by (simp_all add: map_memory_def)
  have "pkt_len q = 68"
    using reply_lengths_kept[of example_env map_acceptor example_prepare_packet a] q example_prepare_packet(1)
    by (simp add: wire_lengths_def)
  then show thesis
    using that[of q a'] f q m ok assms(2) by (simp add: example_prepare_body_def length_value_bytes prepare_ok_def)
qed

definition example_vote :: paxos_value where
  "example_vote = \<lparr>paxos_value_len = 12, paxos_value_val = (\<lambda>_. 7)\<rparr>"

theorem recovery_cuts_values_witness:
  "\<exists>q a' p'. Dpdk_Acceptor.paxos_rx_process example_env map_acceptor example_prepare_packet
      (0, \<lambda>_. (0, 1, example_vote)) = (q, a', 0)
    \<and> says PAXOS_PROMISE 5 2 (replicate 12 7) q
    \<and> received q p' \<and> says PAXOS_PROMISE 5 2 (replicate 10 7 @ [8, 9]) p'"
proof -
  have v: "value_bytes example_vote = replicate 12 7"
    by (auto simp: value_bytes_def bytes_at_def example_vote_def intro: nth_equalityI)
  obtain q a' where q: "Dpdk_Acceptor.paxos_rx_process example_env map_acceptor example_prepare_packet
      (0, \<lambda>_. (0, 1, example_vote)) = (q, a', 0)"
    "says PAXOS_PROMISE 5 2 (replicate 12 7) q"
    by (rule example_promise[of "(0, \<lambda>_. (0, 1, example_vote))" 1 example_vote]) (simp_all add: v, simp add: example_vote_def)
  have r: "received (add_paxos_message example_env (prepare_message example_prepare_body) example_mbuf LEARNER_PORT ACCEPTOR_PORT
      ACCEPTOR_ADDR) example_prepare_packet" by (simp add: received_def flip: example_prepare_packet_def)
  have "\<exists>p'. received q p' \<and> says PAXOS_PROMISE 5 2 (replicate 10 7 @ [8, 9]) p'"
    by (rule recovery_cuts_values[OF _ r q]) (simp_all add: example_prepare_body_def)
  then show ?thesis using q by blast
qed

text \<open>Phase 1 with one acceptor, on the backup of \<open>Dpdk_Backup\<close>.\<close>

definition recovery_env :: "(nat, nat) backup_env" where
  "recovery_env = example_backup_env\<lparr>lib := (lib example_backup_env)\<lparr>learner_receive_promise :=
     (\<lambda>l m. (l + 1, 1, m\<lparr>body_value := if value_ballot m = 0 then NULL_value else body_value m\<rparr>))\<rparr>\<rparr>"

lemma recovery_env_ok: "promises_ok 1 (lib recovery_env) (\<lambda>_. {})" "tx_fits recovery_env"
proof -
  have "phase1_done 1 {promise_of m} (m\<lparr>body_value := if value_ballot m = 0 then NULL_value else body_value m\<rparr>)" for m
    unfolding phase1_done_def
    by (rule exI[of _ "{aid m}"], rule exI[of _ "\<lambda>_. value_ballot m"], rule exI[of _ "\<lambda>_. value_bytes (body_value m)"])
      (simp add: promise_of_def NULL_value_def value_bytes_def bytes_at_def)
  then show "promises_ok 1 (lib recovery_env) (\<lambda>_. {})" by (simp add: promises_ok_def recovery_env_def)
  show "tx_fits recovery_env" using example_backup_ok(1) by (simp add: tx_fits_def recovery_env_def)
qed

lemma one_promise_run:
  obtains t q where "(dpdk_step example_env counting_buffer 0 map_acceptor 1)\<^sup>*\<^sup>* example_deployment t" "(Acc 0, q) \<in> dnet t"
    "says PAXOS_PROMISE 5 2 [] q" "names_ballot q = 0" "whole q" "\<forall>i b v. \<not> dpdk_proposed i t b v"
proof -
  let ?step = "dpdk_step example_env counting_buffer 0 map_acceptor 1" and ?a = "(0, \<lambda>_. (0, 0, NULL_value)) :: map_state"
  let ?s = "example_deployment\<lparr>dnet := {(Env, example_prepare_packet)}\<rparr>"
  have "headed example_prepare_packet" using example_prepare_packet(1) by (simp add: headed_def)
  from dpdk_step.prepare[OF example_prepare_packet(2) this, of example_env counting_buffer 0 map_acceptor 1 example_deployment]
  have 1: "?step example_deployment ?s" by (simp add: example_deployment_def)
  have n: "value_bytes NULL_value = []" by (simp add: NULL_value_def value_bytes_def bytes_at_def)
  obtain q a' where q: "Dpdk_Acceptor.paxos_rx_process example_env map_acceptor example_prepare_packet ?a = (q, a', 0)"
    "says PAXOS_PROMISE 5 2 [] q" "names_ballot q = 0" "pkt_len q = 68"
    by (rule example_promise[of ?a 0 NULL_value]) (simp_all add: n, simp add: NULL_value_def)
  let ?t = "?s\<lparr>daccs := (daccs ?s)(0 := a'), dnet := insert (Acc 0, q) (dnet ?s)\<rparr>"
  from dpdk_step.handle[of 0 1 Env example_prepare_packet ?s example_prepare_packet example_env map_acceptor q a' 0] q(1)
  have "?step ?s ?t" by (simp add: example_deployment_def received_def)
  then have "?step\<^sup>*\<^sup>* example_deployment ?t" using 1 by (meson converse_rtranclp_into_rtranclp r_into_rtranclp)
  moreover have "whole q" using says_whole[OF q(2)] q(4) by simp
  moreover have "\<not> dpdk_proposed i ?t b v" for i b v
    using example_prepare_packet(2) q(2) by (auto simp: dpdk_proposed_def says_def)
  ultimately show thesis using that[of ?t q] q by simp
qed

theorem backup_recovers_witness:
  "\<exists>t q pkt' dl' p. (dpdk_step example_env counting_buffer 0 map_acceptor 1)\<^sup>*\<^sup>* example_deployment t \<and> (Acc 0, q) \<in> dnet t
    \<and> handle_promise recovery_env q example_backup = Some (pkt', 1, dl') \<and> queued dl' = [p]
    \<and> dpdk_step example_env counting_buffer 0 map_acceptor 1 t (t\<lparr>dnet := insert (Env, p) (dnet t)\<rparr>)"
proof -
  obtain t q where t: "(dpdk_step example_env counting_buffer 0 map_acceptor 1)\<^sup>*\<^sup>* example_deployment t"
    and q: "(Acc 0, q) \<in> dnet t" "says PAXOS_PROMISE 5 2 [] q" "names_ballot q = 0" "whole q"
    and none: "\<forall>i b v. \<not> dpdk_proposed i t b v" by (rule one_promise_run)
  let ?m = "hdr_body PXH (buf q) (hdr_value PXH (buf q))"
  have m: "iid ?m = 5" "ballot ?m = 2" "value_ballot ?m = 0"
    using q(2,3) by (simp_all add: says_def names_ballot_def hdr_body_def)
  let ?acc = "?m\<lparr>body_value := NULL_value\<rparr>"
  have lib: "learner_receive_promise (lib recovery_env) (paxos_learner example_backup) ?m = (1, 1, ?acc)"
    using m(3) by (simp add: recovery_env_def example_backup_def)
  have "received q q" "clone recovery_env q = Some q" "unat (hdr_msgtype PXH (buf q)) = msg_code PAXOS_PROMISE"
    using q(2) by (simp_all add: received_def recovery_env_def example_backup_env_def says_def)
  note pkt = q(1) this(1) q(4) this(3) and cl = this(2)
  have "\<exists>pkt' dl' p. handle_promise recovery_env q example_backup = Some (pkt', 1, dl') \<and> queued dl' = queued example_backup @ [p]
      \<and> dpdk_step example_env counting_buffer 0 map_acceptor 1 t (t\<lparr>dnet := insert (Env, p) (dnet t)\<rparr>)"
    by (rule backup_recovers[OF map_acceptor_ok example_deployment_start t _ recovery_env_ok(1) _ pkt recovery_env_ok(2)
        example_backup_ok(2) cl lib])
      (use none m in \<open>auto simp: example_backup_def NULL_value_def\<close>)
  moreover have "queued example_backup @ [p] = [p]" for p by (simp add: example_backup_def)
  ultimately show ?thesis using t q(1) by metis
qed

end
