(* ===== verification/Netro_Threads.thy ===== *)
theory Netro_Threads
  imports Netro_Paxos
begin

text \<open>
  The acceptor functions of the plugin under the threads of the network processor.  A micro engine
  runs several contexts over the same memory; a context gives up the engine at its memory accesses,
  and \<^verbatim>\<open>pkt_inst\<close>, which every access to the registers goes through, is declared
  \<^verbatim>\<open>local_mem shared\<close>.  Here the two functions are lists of statements in the order of the
  source, each an atomic step, and the contexts interleave at will.
\<close>

section \<open>Statements and contexts\<close>

text \<open>
  One constructor for each kind of statement: \<open>Set_inst\<close> is \<^verbatim>\<open>pkt_inst = paxos->inst\<close>,
  \<open>Check_rnd\<close> the test that may return \<^verbatim>\<open>DROP\<close>, \<open>Put_\<close> writes a register, \<open>Get_\<close> reads one,
  \<open>Mark\<close> writes \<^verbatim>\<open>acpt\<close> and \<^verbatim>\<open>msgtype\<close> of the header.
\<close>

datatype stmt =
  Set_inst | Check_rnd | Put_rnd | Get_vrnd | Put_vrnd | Mark phase
| Get_val0 | Get_val1 | Get_val2 | Get_val3 | Get_val4 | Get_val5 | Get_val6 | Get_val7
| Put_val0 | Put_val1 | Put_val2 | Put_val3 | Put_val4 | Put_val5 | Put_val6 | Put_val7

definition phase1a_code :: "stmt list" where
  "phase1a_code = [Set_inst, Check_rnd, Put_rnd, Get_vrnd, Mark Phase1B,
     Get_val0, Get_val1, Get_val2, Get_val3, Get_val4, Get_val5, Get_val6, Get_val7]"

definition phase2a_code :: "stmt list" where
  "phase2a_code = [Set_inst, Check_rnd, Put_rnd, Put_vrnd, Mark Phase2B,
     Put_val0, Put_val1, Put_val2, Put_val3, Put_val4, Put_val5, Put_val6, Put_val7]"

text \<open>A context: the statements it has left, the header it works on, and what it will return.\<close>

record ctx =
  code :: "stmt list"
  ctx_pkt :: paxos_t
  verdict :: verdict

definition start :: "stmt list \<Rightarrow> paxos_t \<Rightarrow> ctx" where
  "start c p = \<lparr>code = c, ctx_pkt = p, verdict = RETURN_FORWARD\<rparr>"

text \<open>A register access at \<^verbatim>\<open>pkt_inst\<close>; \<open>None\<close> is an access outside the array.\<close>

definition at_inst :: "plugin_state \<Rightarrow> (nat \<Rightarrow> 'a) \<Rightarrow> 'a option" where
  "at_inst st f = (if unat (pkt_inst st) < MAX_INST then Some (f (unat (pkt_inst st))) else None)"

fun exec :: "stmt \<Rightarrow> plugin_state \<Rightarrow> ctx \<Rightarrow> (plugin_state \<times> ctx) option" where
  "exec Set_inst st c = Some (st\<lparr>pkt_inst := inst (ctx_pkt c)\<rparr>, c)"
| "exec Check_rnd st c = at_inst st (\<lambda>k.
     (st, if rnd (ctx_pkt c) < rnds st k then c\<lparr>code := [], verdict := RETURN_DROP\<rparr> else c))"
| "exec Put_rnd st c = at_inst st (\<lambda>k. (st\<lparr>rnds := (rnds st)(k := rnd (ctx_pkt c))\<rparr>, c))"
| "exec Get_vrnd st c = at_inst st (\<lambda>k. (st, c\<lparr>ctx_pkt := (ctx_pkt c)\<lparr>vrnd := vrnds st k\<rparr>\<rparr>))"
| "exec Put_vrnd st c = at_inst st (\<lambda>k. (st\<lparr>vrnds := (vrnds st)(k := rnd (ctx_pkt c))\<rparr>, c))"
| "exec (Mark ph) st c = Some (st, c\<lparr>ctx_pkt := (ctx_pkt c)\<lparr>acpt := SWITCH_ID, msgtype := phase_code ph\<rparr>\<rparr>)"
| "exec Get_val0 st c = at_inst st (\<lambda>k. (st, c\<lparr>ctx_pkt := (ctx_pkt c)\<lparr>val0 := value0s st k\<rparr>\<rparr>))"
| "exec Get_val1 st c = at_inst st (\<lambda>k. (st, c\<lparr>ctx_pkt := (ctx_pkt c)\<lparr>val1 := value1s st k\<rparr>\<rparr>))"
| "exec Get_val2 st c = at_inst st (\<lambda>k. (st, c\<lparr>ctx_pkt := (ctx_pkt c)\<lparr>val2 := value2s st k\<rparr>\<rparr>))"
| "exec Get_val3 st c = at_inst st (\<lambda>k. (st, c\<lparr>ctx_pkt := (ctx_pkt c)\<lparr>val3 := value3s st k\<rparr>\<rparr>))"
| "exec Get_val4 st c = at_inst st (\<lambda>k. (st, c\<lparr>ctx_pkt := (ctx_pkt c)\<lparr>val4 := value4s st k\<rparr>\<rparr>))"
| "exec Get_val5 st c = at_inst st (\<lambda>k. (st, c\<lparr>ctx_pkt := (ctx_pkt c)\<lparr>val5 := value5s st k\<rparr>\<rparr>))"
| "exec Get_val6 st c = at_inst st (\<lambda>k. (st, c\<lparr>ctx_pkt := (ctx_pkt c)\<lparr>val6 := value6s st k\<rparr>\<rparr>))"
| "exec Get_val7 st c = at_inst st (\<lambda>k. (st, c\<lparr>ctx_pkt := (ctx_pkt c)\<lparr>val7 := value7s st k\<rparr>\<rparr>))"
| "exec Put_val0 st c = at_inst st (\<lambda>k. (st\<lparr>value0s := (value0s st)(k := val0 (ctx_pkt c))\<rparr>, c))"
| "exec Put_val1 st c = at_inst st (\<lambda>k. (st\<lparr>value1s := (value1s st)(k := val1 (ctx_pkt c))\<rparr>, c))"
| "exec Put_val2 st c = at_inst st (\<lambda>k. (st\<lparr>value2s := (value2s st)(k := val2 (ctx_pkt c))\<rparr>, c))"
| "exec Put_val3 st c = at_inst st (\<lambda>k. (st\<lparr>value3s := (value3s st)(k := val3 (ctx_pkt c))\<rparr>, c))"
| "exec Put_val4 st c = at_inst st (\<lambda>k. (st\<lparr>value4s := (value4s st)(k := val4 (ctx_pkt c))\<rparr>, c))"
| "exec Put_val5 st c = at_inst st (\<lambda>k. (st\<lparr>value5s := (value5s st)(k := val5 (ctx_pkt c))\<rparr>, c))"
| "exec Put_val6 st c = at_inst st (\<lambda>k. (st\<lparr>value6s := (value6s st)(k := val6 (ctx_pkt c))\<rparr>, c))"
| "exec Put_val7 st c = at_inst st (\<lambda>k. (st\<lparr>value7s := (value7s st)(k := val7 (ctx_pkt c))\<rparr>, c))"

text \<open>One step of a context; a context that has returned makes none.\<close>

definition ctx_step :: "plugin_state \<Rightarrow> ctx \<Rightarrow> (plugin_state \<times> ctx) option" where
  "ctx_step st c = (case code c of [] \<Rightarrow> Some (st, c) | s # cs \<Rightarrow> exec s st (c\<lparr>code := cs\<rparr>))"

text \<open>A schedule names the context that makes the next step.\<close>

fun run :: "nat list \<Rightarrow> plugin_state \<Rightarrow> ctx list \<Rightarrow> (plugin_state \<times> ctx list) option" where
  "run [] st cs = Some (st, cs)"
| "run (i # is) st cs =
    (if i < length cs
     then case ctx_step st (cs ! i) of None \<Rightarrow> None | Some (st, c) \<Rightarrow> run is st (cs[i := c])
     else None)"

text \<open>The result of a function that has returned.\<close>

definition result :: "plugin_state \<times> ctx \<Rightarrow> plugin_state \<times> headers \<times> verdict" where
  "result r = (fst r, Some (ctx_pkt (snd r)), ctx.verdict (snd r))"

section \<open>One context at a time\<close>

lemma run_append: "run (is @ js) st cs = Option.bind (run is st cs) (\<lambda>(st, cs). run js st cs)"
  by (induction "is" st cs rule: run.induct) (auto split: option.splits)

lemma run_mono_length: "run is st cs = Some (st', cs') \<Longrightarrow> length cs' = length cs"
  by (induction "is" st cs rule: run.induct) (auto split: if_splits option.splits)

text \<open>A context alone, for \<open>n\<close> steps.\<close>

fun run1 :: "nat \<Rightarrow> plugin_state \<Rightarrow> ctx \<Rightarrow> (plugin_state \<times> ctx) option" where
  "run1 0 st c = Some (st, c)"
| "run1 (Suc n) st c = Option.bind (ctx_step st c) (\<lambda>(st, c). run1 n st c)"

lemma run_replicate:
  "i < length cs \<Longrightarrow> run (replicate n i) st cs = map_option (\<lambda>(st, c). (st, cs[i := c])) (run1 n st (cs ! i))"
proof (induction n arbitrary: st cs)
  case (Suc n)
  then show ?case by (cases "ctx_step st (cs ! i)") auto
qed simp

lemma run1_done: "code c = [] \<Longrightarrow> run1 n st c = Some (st, c)"
  by (induction n) (simp_all add: ctx_step_def)

lemmas run1_simps = start_def ctx_step_def at_inst_def eval_nat_numeral

lemma run1_phase1a:
  "map_option result (run1 13 st (start phase1a_code p)) =
    (case pif_plugin_paxos_phase1a st (Some p) of Inl _ \<Rightarrow> None | Inr r \<Rightarrow> Some r)"
  by (simp add: phase1a_code_def run1_simps result_def phase_defs)

lemma run1_phase2a:
  "map_option result (run1 13 st (start phase2a_code p)) =
    (case pif_plugin_paxos_phase2a st (Some p) of Inl _ \<Rightarrow> None | Inr r \<Rightarrow> Some r)"
  by (simp add: phase2a_code_def run1_simps result_def phase_defs)

lemma run1_returns:
  "run1 13 st (start phase1a_code p) = Some (st', c) \<Longrightarrow> code c = []"
  "run1 13 st (start phase2a_code p) = Some (st', c) \<Longrightarrow> code c = []"
  by (auto simp: phase1a_code_def phase2a_code_def run1_simps split: if_splits)

text \<open>The function a packet of type 1A or 2A is handed to, and the packets handled one after the other.\<close>

definition code_of :: "paxos_t \<Rightarrow> stmt list" where
  "code_of p = (if msgtype p = phase_code Phase1A then phase1a_code else phase2a_code)"

definition acceptor_pkt :: "paxos_t \<Rightarrow> bool" where
  "acceptor_pkt p \<longleftrightarrow> msgtype p = phase_code Phase1A \<or> msgtype p = phase_code Phase2A"

fun one_by_one :: "plugin_state \<Rightarrow> paxos_t list \<Rightarrow> (plugin_state \<times> (headers \<times> verdict) list) option" where
  "one_by_one st [] = Some (st, [])"
| "one_by_one st (p # ps) = (case paxos_tbl st p of Inl _ \<Rightarrow> None
    | Inr (st, h, v) \<Rightarrow> map_option (\<lambda>(st, out). (st, (h, v) # out)) (one_by_one st ps))"

definition outcome :: "ctx \<Rightarrow> headers \<times> verdict" where
  "outcome c = (Some (ctx_pkt c), ctx.verdict c)"

lemma run1_paxos_tbl:
  assumes "acceptor_pkt p"
  shows "map_option result (run1 13 st (start (code_of p) p)) =
    (case paxos_tbl st p of Inl _ \<Rightarrow> None | Inr r \<Rightarrow> Some r)"
  using assms run1_phase1a run1_phase2a by (auto simp: acceptor_pkt_def code_of_def paxos_tbl_def)

lemma run1_cases:
  assumes "acceptor_pkt p"
  obtains (out_of_bounds) e where "run1 13 st (start (code_of p) p) = None" "paxos_tbl st p = Inl e"
  | (returned) st' c where "run1 13 st (start (code_of p) p) = Some (st', c)"
      "paxos_tbl st p = Inr (st', outcome c)"
  using run1_paxos_tbl[OF assms, of st]
  by (cases "run1 13 st (start (code_of p) p)"; cases "paxos_tbl st p")
    (auto simp: result_def outcome_def)

lemma serial_run:
  assumes "\<forall>p \<in> set ps. acceptor_pkt p"
  shows "map_option (\<lambda>(st, cs). (st, map outcome cs))
      (run (concat (map (replicate 13) [length ds..<length ds + length ps])) st (ds @ map (\<lambda>p. start (code_of p) p) ps))
    = map_option (\<lambda>(st, out). (st, map outcome ds @ out)) (one_by_one st ps)"
  using assms
proof (induction ps arbitrary: ds st)
  case (Cons p ps)
  let ?cs = "ds @ map (\<lambda>p. start (code_of p) p) (p # ps)"
  have step: "run (replicate 13 (length ds)) st ?cs =
      map_option (\<lambda>(st, c). (st, (ds @ [c]) @ map (\<lambda>p. start (code_of p) p) ps)) (run1 13 st (start (code_of p) p))"
    by (simp add: run_replicate nth_append list_update_append del: run1.simps)
  have sched: "concat (map (replicate 13) [length ds..<length ds + length (p # ps)]) =
      replicate 13 (length ds) @ concat (map (replicate 13) [length (ds @ [c])..<length (ds @ [c]) + length ps])" for c :: ctx
    by (simp add: upt_conv_Cons del: upt_Suc)
  from Cons.prems have "acceptor_pkt p" by simp
  then show ?case
  proof (cases rule: run1_cases[of p st])
    case (returned st' c)
    then show ?thesis
      using Cons.IH[of "ds @ [c]" st'] Cons.prems unfolding sched[of c] run_append step
      by (simp add: case_prod_beta option.map_comp comp_def del: run1.simps concat.simps upt_Suc)
  next
    case (out_of_bounds e)
    then show ?thesis unfolding sched[of "start [] p"] run_append step by simp
  qed
qed simp

text \<open>Run one after the other, statement by statement, the contexts of the engine do what the plugin functions do:
  a schedule that lets each context finish before the next one starts leaves the registers, the
  headers and the verdicts of \<^verbatim>\<open>paxos_tbl\<close> applied to the packets in that order, and leaves the
  arrays exactly when it does.\<close>

lemma serial_schedule_atomic:
  assumes "\<forall>p \<in> set ps. acceptor_pkt p"
  shows "map_option (\<lambda>(st, cs). (st, map outcome cs))
      (run (concat (map (replicate 13) [0..<length ps])) st (map (\<lambda>p. start (code_of p) p) ps)) = one_by_one st ps"
  using serial_run[OF assms, of "[]" st] by (simp add: case_prod_eta option.map_id)

section \<open>Interleaved contexts\<close>

text \<open>The steps of a phase 2A after its round has passed the check.\<close>

definition votes :: "nat \<Rightarrow> paxos_t \<Rightarrow> plugin_state \<Rightarrow> plugin_state" where
  "votes k p st = st\<lparr>rnds := (rnds st)(k := rnd p), vrnds := (vrnds st)(k := rnd p),
     value0s := (value0s st)(k := val0 p), value1s := (value1s st)(k := val1 p),
     value2s := (value2s st)(k := val2 p), value3s := (value3s st)(k := val3 p),
     value4s := (value4s st)(k := val4 p), value5s := (value5s st)(k := val5 p),
     value6s := (value6s st)(k := val6 p), value7s := (value7s st)(k := val7 p)\<rparr>"

lemma phase2a_checked:
  assumes "unat (inst p) < MAX_INST" "rnds st (unat (inst p)) \<le> rnd p"
  shows "run1 2 st (start phase2a_code p) = Some (st\<lparr>pkt_inst := inst p\<rparr>, start (drop 2 phase2a_code) p)"
  using assms by (simp add: phase2a_code_def run1_simps not_less)

lemma phase2a_rest:
  assumes "unat (pkt_inst st) < MAX_INST"
  shows "run1 11 st (start (drop 2 phase2a_code) p) =
    Some (votes (unat (pkt_inst st)) p st, start [] (p\<lparr>acpt := SWITCH_ID, msgtype := phase_code Phase2B\<rparr>))"
  using assms by (simp add: phase2a_code_def run1_simps votes_def)

lemma stored_value_pkt_inst [simp]: "stored_value (st\<lparr>pkt_inst := i\<rparr>) = stored_value st"
  by (simp add: stored_value_def fun_eq_iff)

lemma votes_simps [simp]:
  "rnds (votes k p st) = (rnds st)(k := rnd p)" "vrnds (votes k p st) = (vrnds st)(k := rnd p)"
  "stored_value (votes k p st) j = (if j = k then pkt_value p else stored_value st j)"
  by (simp_all add: votes_def stored_value_def pkt_value_def)

text \<open>C17: The shared \<^verbatim>\<open>pkt_inst\<close> loses votes.  While a context between the check and the writes of a phase 2A is
  interrupted by one that starts on a packet of another instance, the first answers that it voted
  for its instance, but the vote is written to the other packet's instance, over the vote that
  was there, and its own instance stays as it was.\<close>

theorem race_loses_vote:
  assumes "unat (inst p) < MAX_INST" "unat (inst q) < MAX_INST" "inst p \<noteq> inst q"
    and "rnds st (unat (inst p)) \<le> rnd p" "c = Set_inst # c'"
  shows "\<exists>st' a b. run (replicate 2 0 @ [1] @ replicate 11 0) st [start phase2a_code p, start c q] = Some (st', [a, b])
    \<and> code a = [] \<and> ctx.verdict a = RETURN_FORWARD \<and> msgtype (ctx_pkt a) = phase_code Phase2B \<and> inst (ctx_pkt a) = inst p
    \<and> rnds st' (unat (inst p)) = rnds st (unat (inst p)) \<and> vrnds st' (unat (inst p)) = vrnds st (unat (inst p))
    \<and> stored_value st' (unat (inst p)) = stored_value st (unat (inst p))
    \<and> vrnds st' (unat (inst q)) = rnd p \<and> stored_value st' (unat (inst q)) = pkt_value p"
proof -
  let ?r = "start (drop 2 phase2a_code) p"
  have "run (replicate 2 0) st [start phase2a_code p, start c q] = Some (st\<lparr>pkt_inst := inst p\<rparr>, [?r, start c q])"
    using phase2a_checked[OF assms(1,4)] by (simp add: run_replicate del: run1.simps)
  moreover have "run [1] (st\<lparr>pkt_inst := inst p\<rparr>) [?r, start c q] = Some (st\<lparr>pkt_inst := inst q\<rparr>, [?r, start c' q])"
    using assms(5) by (simp add: ctx_step_def start_def)
  moreover have "run (replicate 11 0) (st\<lparr>pkt_inst := inst q\<rparr>) [?r, start c' q] =
      Some (votes (unat (inst q)) p (st\<lparr>pkt_inst := inst q\<rparr>),
        [start [] (p\<lparr>acpt := SWITCH_ID, msgtype := phase_code Phase2B\<rparr>), start c' q])"
    using phase2a_rest[of "st\<lparr>pkt_inst := inst q\<rparr>" p] assms(2)
    by (simp add: run_replicate del: run1.simps)
  ultimately have "run (replicate 2 0 @ [1] @ replicate 11 0) st [start phase2a_code p, start c q] =
      Some (votes (unat (inst q)) p (st\<lparr>pkt_inst := inst q\<rparr>),
        [start [] (p\<lparr>acpt := SWITCH_ID, msgtype := phase_code Phase2B\<rparr>), start c' q])"
    unfolding run_append by simp
  moreover have "unat (inst p) \<noteq> unat (inst q)" using assms(3) by (simp add: word_unat_eq_iff)
  ultimately show ?thesis by (simp add: start_def)
qed

theorem race_loses_vote_witness:
  "\<exists>st a b. run (replicate 2 0 @ [1] @ replicate 11 0) plugin_init
      [start phase2a_code (example_packet 7 1 3 42), start phase2a_code (example_packet 8 1 3 43)] = Some (st, [a, b])
    \<and> msgtype (ctx_pkt a) = phase_code Phase2B \<and> inst (ctx_pkt a) = 7 \<and> vrnds st 7 = 0 \<and> vrnds st 8 = 1
    \<and> stored_value st 8 = [42, 0, 0, 0, 0, 0, 0, 0]"
  using race_loses_vote[of "example_packet 7 1 3 42" "example_packet 8 1 3 43" plugin_init phase2a_code "tl phase2a_code"]
  by (auto simp: example_packet_def plugin_init_def MAX_INST_def phase2a_code_def pkt_value_def)

text \<open>C18: Checking and writing the round are two steps, so a promise is not kept either: a phase 2A of round \<open>b\<close> that was
  checked before a phase 1A of a higher round of the same instance, and goes on after it, takes the
  promised round back down to \<open>b\<close> and votes at \<open>b\<close>, although the higher round has been promised
  and reported without that vote.\<close>

theorem race_breaks_promise:
  assumes "unat (inst p) < MAX_INST" "inst q = inst p" "rnds st (unat (inst p)) \<le> rnd p" "rnd p < rnd q"
  shows "\<exists>st' a b. run (replicate 2 0 @ replicate 13 1 @ replicate 11 0) st [start phase2a_code p, start phase1a_code q]
      = Some (st', [a, b])
    \<and> outcome b = (Some (ctx_pkt b), RETURN_FORWARD) \<and> msgtype (ctx_pkt b) = phase_code Phase1B \<and> rnd (ctx_pkt b) = rnd q
    \<and> vrnd (ctx_pkt b) = vrnds st (unat (inst p))
    \<and> outcome a = (Some (ctx_pkt a), RETURN_FORWARD) \<and> msgtype (ctx_pkt a) = phase_code Phase2B \<and> rnd (ctx_pkt a) = rnd p
    \<and> rnds st' (unat (inst p)) = rnd p \<and> vrnds st' (unat (inst p)) = rnd p"
proof -
  let ?r = "start (drop 2 phase2a_code) p" and ?k = "unat (inst p)"
  have "run (replicate 2 0) st [start phase2a_code p, start phase1a_code q]
      = Some (st\<lparr>pkt_inst := inst p\<rparr>, [?r, start phase1a_code q])"
    using phase2a_checked[OF assms(1,3)] by (simp add: run_replicate del: run1.simps)
  moreover obtain st1 b where b: "run1 13 (st\<lparr>pkt_inst := inst p\<rparr>) (start phase1a_code q) = Some (st1, b)"
    "pkt_inst st1 = inst p" "ctx.verdict b = RETURN_FORWARD" "msgtype (ctx_pkt b) = phase_code Phase1B" "rnd (ctx_pkt b) = rnd q"
    "vrnd (ctx_pkt b) = vrnds st ?k"
    using assms order.strict_implies_order[OF order.strict_trans1[OF assms(3,4)]]
    by (simp add: phase1a_code_def run1_simps not_less[symmetric])
  then have "run (replicate 13 1) (st\<lparr>pkt_inst := inst p\<rparr>) [?r, start phase1a_code q] = Some (st1, [?r, b])"
    by (simp add: run_replicate del: run1.simps)
  moreover have "run (replicate 11 0) st1 [?r, b] =
      Some (votes ?k p st1, [start [] (p\<lparr>acpt := SWITCH_ID, msgtype := phase_code Phase2B\<rparr>), b])"
    using phase2a_rest[of st1 p] assms(1) b(2) by (simp add: run_replicate del: run1.simps)
  ultimately have "run (replicate 2 0 @ replicate 13 1 @ replicate 11 0) st [start phase2a_code p, start phase1a_code q] =
      Some (votes ?k p st1, [start [] (p\<lparr>acpt := SWITCH_ID, msgtype := phase_code Phase2B\<rparr>), b])"
    unfolding run_append by simp
  then show ?thesis using b by (simp add: start_def outcome_def)
qed

theorem race_breaks_promise_witness:
  "\<exists>st a b. run (replicate 2 0 @ replicate 13 1 @ replicate 11 0) plugin_init
      [start phase2a_code (example_packet 7 1 3 42), start phase1a_code (example_packet 7 5 1 0)] = Some (st, [a, b])
    \<and> msgtype (ctx_pkt b) = phase_code Phase1B \<and> rnd (ctx_pkt b) = 5 \<and> vrnd (ctx_pkt b) = 0
    \<and> msgtype (ctx_pkt a) = phase_code Phase2B \<and> rnds st 7 = 1 \<and> vrnds st 7 = 1"
  using race_breaks_promise[of "example_packet 7 1 3 42" "example_packet 7 5 1 0" plugin_init]
  by (auto simp: example_packet_def plugin_init_def MAX_INST_def)

end
