(* ===== verification/Elte_Controller.thy ===== *)
theory Elte_Controller
  imports Prelude
begin

text \<open>
  \<^verbatim>\<open>dpdk_p4@elte/netpaxos_controller\<close>: the controller that fills the tables of the switch.  Its messages
  are built in a buffer by the calls of the switch's own message library, which is not part of the
  repository: a message here is the sequence of those calls and of the writes through the pointers
  they return, in the order of the source.  What the program sends when it starts is a list of them.
\<close>

section \<open>Building messages\<close>

text \<open>The structures of a message that the controller holds a pointer to.\<close>

datatype part = Header | Table_entry | Default_action | Match | Action | Parameter

text \<open>
  \<open>Create\<close> stands for the calls that lay out a structure in the buffer (\<^verbatim>\<open>create_p4_\<close>\dots,
  \<^verbatim>\<open>add_p4_\<close>\dots, and taking the address of the action inside the default action), \<open>Write_table\<close>,
  \<open>Write_name\<close>, \<open>Write_bitmap\<close> and \<open>Write_length\<close> for the assignments to its fields, \<open>Netconv\<close> for its
  byte-order conversion.
\<close>

datatype msg_call =
  Create part | Write_table part string | Write_name part string | Write_bitmap part u8 | Write_length part nat
| Netconv part | Send nat

text \<open>The enumeration types: in C both are integers that start at 0.\<close>

definition FORWARD_TBL_DROP :: int where "FORWARD_TBL_DROP = 0"
definition FORWARD_TBL_FORWARD :: int where "FORWARD_TBL_FORWARD = 1"
definition IGMP_TBL_HANDLE_QUERY :: int where "IGMP_TBL_HANDLE_QUERY = 0"
definition DEF_PORT :: u8 where "DEF_PORT = 0"

definition fill_forward_tbl :: "int \<Rightarrow> u8 \<Rightarrow> u8 \<Rightarrow> msg_call list" where
  "fill_forward_tbl taction ingress_port fwd_port =
    [Create Header, Create Table_entry, Write_table Table_entry ''forward_tbl'',
     Create Match, Write_name Match ''standard_metadata.ingress_port'', Write_bitmap Match ingress_port,
     Write_length Match 8, Create Action]
    @ (if taction = FORWARD_TBL_DROP then [Write_name Action ''_drop'']
       else if taction = FORWARD_TBL_FORWARD then
         [Write_name Action ''forward'', Create Parameter, Write_name Parameter ''port'',
          Write_bitmap Parameter fwd_port, Write_length Parameter 8]
       else [])
    @ [Netconv Header, Netconv Table_entry, Netconv Match, Netconv Action]
    @ (if taction = FORWARD_TBL_FORWARD then [Netconv Parameter] else [])
    @ [Send 2048]"

definition fill_igmp_tbl :: "int \<Rightarrow> u8 \<Rightarrow> u8 \<Rightarrow> msg_call list" where
  "fill_igmp_tbl taction ingress_port fwd_port =
    [Create Header, Create Table_entry, Write_table Table_entry ''forward_tbl'',
     Create Match, Write_name Match ''standard_metadata.ingress_port'', Write_bitmap Match ingress_port,
     Write_length Match 8, Create Action]
    @ (if taction = FORWARD_TBL_DROP then [Write_name Action ''_drop'']
       else if taction = FORWARD_TBL_FORWARD then
         [Write_name Action ''forward'', Create Parameter, Write_name Parameter ''port'',
          Write_bitmap Parameter fwd_port, Write_length Parameter 8]
       else [])
    @ [Netconv Header, Netconv Table_entry, Netconv Match, Netconv Action]
    @ (if taction = FORWARD_TBL_FORWARD then [Netconv Parameter] else [])
    @ [Send 2048]"

text \<open>The six functions that set a default action differ in the names only.\<close>

definition set_default_action :: "string \<Rightarrow> string \<Rightarrow> msg_call list" where
  "set_default_action table action =
    [Create Header, Create Default_action, Write_table Default_action table,
     Create Action, Write_name Action action,
     Create Parameter, Write_name Parameter ''port'', Write_bitmap Parameter DEF_PORT, Write_length Parameter 8,
     Netconv Header, Netconv Default_action, Netconv Action, Netconv Parameter, Send 2048]"

definition set_default_action_forward_tbl :: "msg_call list" where
  "set_default_action_forward_tbl = set_default_action ''forward_tbl'' ''forward''"

definition set_default_action_igmp_tbl :: "msg_call list" where
  "set_default_action_igmp_tbl = set_default_action ''igmp_tbl'' ''handle_query''"

definition set_default_action_drop_tbl :: "msg_call list" where
  "set_default_action_drop_tbl = set_default_action ''drop_tbl'' ''_drop''"

definition set_default_action_round_tbl :: "msg_call list" where
  "set_default_action_round_tbl = set_default_action ''round_tbl'' ''read_round''"

definition set_default_action_acceptor_tbl :: "msg_call list" where
  "set_default_action_acceptor_tbl = set_default_action ''acceptor_tbl'' ''handle_2a''"

definition set_default_action_sequence_tbl :: "msg_call list" where
  "set_default_action_sequence_tbl = set_default_action ''sequence_tbl'' ''increase_instance''"

text \<open>
  \<^verbatim>\<open>init\<close> also calls four functions with constants that stand in a comment of the file only; they are
  parameters here, each with the messages it sends.
\<close>

record undeclared =
  DROP_TBL_DROP :: int
  ROUND_TBL_READ_ROUND :: int
  ACCEPTOR_TBL_HANDLE_2A :: int
  SEQUENCE_TBL_INCREASE_INSTANCE :: int
  fill_drop_tbl :: "int \<Rightarrow> u8 \<Rightarrow> u8 \<Rightarrow> msg_call list list"
  fill_round_tbl :: "int \<Rightarrow> u8 \<Rightarrow> u8 \<Rightarrow> msg_call list list"
  fill_acceptor_tbl :: "int \<Rightarrow> u8 \<Rightarrow> u8 \<Rightarrow> msg_call list list"
  fill_sequence_tbl :: "int \<Rightarrow> u8 \<Rightarrow> u8 \<Rightarrow> msg_call list list"

text \<open>
  The messages \<^verbatim>\<open>init\<close> sends, in order.  Five of the functions for the default actions are named there
  without being called, so that these statements have no effect.
\<close>

definition init :: "undeclared \<Rightarrow> msg_call list list" where
  "init U = [set_default_action_forward_tbl,
             fill_forward_tbl FORWARD_TBL_FORWARD 0 1, fill_igmp_tbl IGMP_TBL_HANDLE_QUERY 0 1]
    @ fill_drop_tbl U (DROP_TBL_DROP U) 0 1 @ fill_round_tbl U (ROUND_TBL_READ_ROUND U) 0 1
    @ fill_acceptor_tbl U (ACCEPTOR_TBL_HANDLE_2A U) 0 1 @ fill_sequence_tbl U (SEQUENCE_TBL_INCREASE_INSTANCE U) 0 1"

text \<open>
  The handler of digests prints a line.  How the library reads the type of a message and the name of a digest
  from a buffer, and its number for digests, are parameters.
\<close>

record 'b digest_api =
  P4T_DIGEST :: int
  header_type :: "'b \<Rightarrow> int"
  field_list_name :: "'b \<Rightarrow> string"

definition dhf :: "'b digest_api \<Rightarrow> 'b \<Rightarrow> string" where
  "dhf A b = (if header_type A b \<noteq> P4T_DIGEST A then ''Method is not implemented''
              else ''Unknown digest received: X'' @ field_list_name A b @ ''X'')"

text \<open>The library's controller: it is created with a port, a number of connections and the two functions above, and run.\<close>

datatype 'b controller_call =
  Create_controller_with_init nat nat "'b \<Rightarrow> string" "msg_call list list" | Execute_controller | Destroy_controller

definition main :: "'b digest_api \<Rightarrow> undeclared \<Rightarrow> int \<Rightarrow> 'b controller_call list \<times> int" where
  "main A U argc = (if argc > 1 then ([], - 1)
     else ([Create_controller_with_init 11111 3 (dhf A) (init U), Execute_controller, Destroy_controller], 0))"

section \<open>The messages\<close>

text \<open>The part of a message a call works on.\<close>

fun works_on :: "msg_call \<Rightarrow> part option" where
  "works_on (Create p) = Some p"
| "works_on (Write_table p s) = Some p"
| "works_on (Write_name p s) = Some p"
| "works_on (Write_bitmap p b) = Some p"
| "works_on (Write_length p n) = Some p"
| "works_on (Netconv p) = Some p"
| "works_on (Send n) = None"

text \<open>
  How a message may be built: the calls on each part start with laying it out and end with its only
  conversion, so that no field is written in host byte order after the conversion and none is sent
  without it; sending is the last call.
\<close>

definition converted :: "msg_call list \<Rightarrow> part \<Rightarrow> bool" where
  "converted cs p \<longleftrightarrow> (let xs = filter (\<lambda>c. works_on c = Some p) cs in
     xs = [] \<or> hd xs = Create p \<and> Create p \<notin> set (tl xs) \<and> last xs = Netconv p \<and> Netconv p \<notin> set (butlast xs))"

definition message_ok :: "msg_call list \<Rightarrow> bool" where
  "message_ok cs \<longleftrightarrow> (\<forall>p. converted cs p) \<and> (\<exists>n. last cs = Send n) \<and> (\<forall>n. Send n \<notin> set (butlast cs))"

lemmas message_defs = message_ok_def converted_def Let_def

lemma default_ok: "message_ok (set_default_action t a)"
  unfolding message_ok_def
proof (intro conjI allI)
  fix p
  show "converted (set_default_action t a) p"
    by (cases p) (simp_all add: set_default_action_def converted_def)
qed (simp_all add: set_default_action_def)

lemma fill_forward_ok: "message_ok (fill_forward_tbl taction i o')"
  unfolding message_ok_def
proof (intro conjI allI)
  fix p
  show "converted (fill_forward_tbl taction i o') p"
    by (cases p) (simp_all add: fill_forward_tbl_def converted_def FORWARD_TBL_DROP_def FORWARD_TBL_FORWARD_def)
qed (simp_all add: fill_forward_tbl_def FORWARD_TBL_DROP_def FORWARD_TBL_FORWARD_def)

text \<open>The function for the IGMP table is the one for the forwarding table, the table's name included.\<close>

lemma fill_igmp_forward: "fill_igmp_tbl = fill_forward_tbl"
  by (intro ext) (simp add: fill_igmp_tbl_def fill_forward_tbl_def)

text \<open>Every message the controller can send converts each of its structures to network byte order exactly once,
  after the last write to it and before the message is sent.\<close>

theorem controller_messages_converted:
  "message_ok (fill_forward_tbl taction ingress fwd) \<and> message_ok (fill_igmp_tbl taction ingress fwd)
   \<and> message_ok set_default_action_forward_tbl \<and> message_ok set_default_action_igmp_tbl
   \<and> message_ok set_default_action_drop_tbl \<and> message_ok set_default_action_round_tbl
   \<and> message_ok set_default_action_acceptor_tbl \<and> message_ok set_default_action_sequence_tbl"
  by (simp add: fill_forward_ok fill_igmp_forward default_ok set_default_action_forward_tbl_def
      set_default_action_igmp_tbl_def set_default_action_drop_tbl_def set_default_action_round_tbl_def
      set_default_action_acceptor_tbl_def set_default_action_sequence_tbl_def)

text \<open>The entry meant for the IGMP table drops the packets of the port in the forwarding table: its action is
  compared with the constants of the other table, of which the first is equal to it.\<close>

lemma igmp_entry_drops:
  "Write_table Table_entry ''forward_tbl'' \<in> set (fill_igmp_tbl IGMP_TBL_HANDLE_QUERY ingress fwd)
   \<and> Write_name Action ''_drop'' \<in> set (fill_igmp_tbl IGMP_TBL_HANDLE_QUERY ingress fwd)
   \<and> (\<forall>p. Write_table p ''igmp_tbl'' \<notin> set (fill_igmp_tbl taction ingress fwd))"
  by (simp add: fill_igmp_tbl_def IGMP_TBL_HANDLE_QUERY_def FORWARD_TBL_DROP_def)

section \<open>The tables after \<open>init\<close>\<close>

text \<open>What a message asks the switch for: an entry of a table for a port, or the default action of a table.\<close>

definition adds_entry :: "string \<Rightarrow> u8 \<Rightarrow> string \<Rightarrow> msg_call list \<Rightarrow> bool" where
  "adds_entry t port a cs \<longleftrightarrow> Write_table Table_entry t \<in> set cs \<and> Write_bitmap Match port \<in> set cs \<and> Write_name Action a \<in> set cs"

definition sets_default :: "string \<Rightarrow> msg_call list \<Rightarrow> bool" where
  "sets_default t cs \<longleftrightarrow> Write_table Default_action t \<in> set cs"

lemmas init_simps = init_def fill_forward_tbl_def fill_igmp_tbl_def set_default_action_forward_tbl_def set_default_action_def
  FORWARD_TBL_FORWARD_def FORWARD_TBL_DROP_def IGMP_TBL_HANDLE_QUERY_def adds_entry_def sets_default_def

text \<open>Of what the controller sends when it starts, the functions of the file only ever set the default action of the
  forwarding table, and their two entries are for the same port of that table: the one forwards its
  packets and the other, meant for the IGMP table, drops them.\<close>

lemma init_tables:
  "\<exists>d e f. take 3 (init U) = [d, e, f]
     \<and> (\<forall>t. sets_default t d \<longleftrightarrow> t = ''forward_tbl'')
     \<and> (\<forall>t p a. adds_entry t p a e \<longleftrightarrow> t = ''forward_tbl'' \<and> p = 0 \<and> a = ''forward'')
     \<and> (\<forall>t p a. adds_entry t p a f \<longleftrightarrow> t = ''forward_tbl'' \<and> p = 0 \<and> a = ''_drop'')
     \<and> (\<forall>t. \<not> sets_default t e \<and> \<not> sets_default t f) \<and> (\<forall>t p a. \<not> adds_entry t p a d)"
  by (auto simp: init_simps)

text \<open>The program stops at once on any argument, and otherwise ends with the controller destroyed.\<close>

lemma main_outcome:
  "argc > 1 \<Longrightarrow> main A U argc = ([], - 1)"
  "argc \<le> 1 \<Longrightarrow> snd (main A U argc) = 0 \<and> last (fst (main A U argc)) = Destroy_controller
    \<and> (\<exists>h. Create_controller_with_init 11111 3 h (init U) \<in> set (fst (main A U argc)))"
  by (auto simp: main_def)

end
