(* ===== verification/Switch_Driver.thy ===== *)
theory Switch_Driver
  imports Prelude
begin

text \<open>
  \<^verbatim>\<open>main.c\<close>, the program around the simulated switch: its options, and the order in which ports are
  attached and the packet handler is installed.  The simulator, its port manager and its database
  are not in the repository: the results of calls to them are parameters.
\<close>

section \<open>Options\<close>

text \<open>What \<^verbatim>\<open>getopt_long\<close> returns; \<open>Opt_unknown\<close> is its \<^verbatim>\<open>'?'\<close>.\<close>

datatype opt =
  Opt_verbose | Opt_trace | Opt_listener string | Opt_interface string | Opt_name string | Opt_dpid string
| Opt_version | Opt_p4nsdb string | Opt_pdserver string | Opt_nopcap | Opt_noveth | Opt_help | Opt_unknown

record options =
  listener_str :: "string option"
  interfaces :: "string list"
  datapath_name :: string
  dpid :: u64
  p4nsdb_str :: "string option"
  pd_server_str :: "string option"
  dump_pcap :: bool
  no_veth :: bool

definition default_options :: options where
  "default_options = \<lparr>listener_str = None, interfaces = [], datapath_name = ''p4ns'', dpid = 0, p4nsdb_str = None,
     pd_server_str = None, dump_pcap = True, no_veth = False\<rparr>"

text \<open>\<^verbatim>\<open>strtoll\<close> in base 16: white space, a sign, an optional \<^verbatim>\<open>0x\<close>, digits, and saturation at the limits.\<close>

definition hex_digit :: "char \<Rightarrow> int option" where
  "hex_digit c = (let n = of_char c :: int in
     if 48 \<le> n \<and> n \<le> 57 then Some (n - 48)
     else if 97 \<le> n \<and> n \<le> 102 then Some (n - 87)
     else if 65 \<le> n \<and> n \<le> 70 then Some (n - 55) else None)"

fun hex_digits :: "int \<Rightarrow> string \<Rightarrow> int" where
  "hex_digits acc [] = acc"
| "hex_digits acc (c # s) = (case hex_digit c of None \<Rightarrow> acc | Some d \<Rightarrow> hex_digits (16 * acc + d) s)"

definition hex_prefixed :: "string \<Rightarrow> int" where
  "hex_prefixed s = (case s of c # x # d # r \<Rightarrow>
       if c = CHR ''0'' \<and> (x = CHR ''x'' \<or> x = CHR ''X'') \<and> hex_digit d \<noteq> None then hex_digits 0 (d # r) else hex_digits 0 s
     | _ \<Rightarrow> hex_digits 0 s)"

fun strtoll16 :: "string \<Rightarrow> int" where
  "strtoll16 [] = 0"
| "strtoll16 (c # s) = (if c = CHR '' '' \<or> 9 \<le> (of_char c :: nat) \<and> (of_char c :: nat) \<le> 13 then strtoll16 s
     else max (- (2 ^ 63)) (min (2 ^ 63 - 1)
       (if c = CHR ''-'' then - hex_prefixed s else if c = CHR ''+'' then hex_prefixed s else hex_prefixed (c # s))))"

text \<open>How a program stops before its end: \<^verbatim>\<open>exit\<close>, or an assertion that fails.\<close>

datatype stop = Exited int | Aborted

fun parse_options :: "opt list \<Rightarrow> options \<Rightarrow> stop + options" where
  "parse_options [] cfg = Inr cfg"
| "parse_options (Opt_verbose # opts) cfg = Inl Aborted"
| "parse_options (Opt_trace # opts) cfg = Inl Aborted"
| "parse_options (Opt_listener s # opts) cfg = parse_options opts (cfg\<lparr>listener_str := Some s\<rparr>)"
| "parse_options (Opt_interface s # opts) cfg = parse_options opts (cfg\<lparr>interfaces := interfaces cfg @ [s]\<rparr>)"
| "parse_options (Opt_name s # opts) cfg = parse_options opts (cfg\<lparr>datapath_name := s\<rparr>)"
| "parse_options (Opt_dpid s # opts) cfg = parse_options opts (cfg\<lparr>dpid := word_of_int (strtoll16 s)\<rparr>)"
| "parse_options (Opt_version # opts) cfg = Inl (Exited 0)"
| "parse_options (Opt_p4nsdb s # opts) cfg = parse_options opts (cfg\<lparr>p4nsdb_str := Some s\<rparr>)"
| "parse_options (Opt_pdserver s # opts) cfg = parse_options opts (cfg\<lparr>pd_server_str := Some s\<rparr>)"
| "parse_options (Opt_nopcap # opts) cfg = parse_options opts (cfg\<lparr>dump_pcap := False\<rparr>)"
| "parse_options (Opt_noveth # opts) cfg = parse_options opts (cfg\<lparr>no_veth := True\<rparr>)"
| "parse_options (Opt_help # opts) cfg = Inl (Exited 0)"
| "parse_options (Opt_unknown # opts) cfg = Inl (Exited 1)"

section \<open>Start-up\<close>

type_synonym address = "string \<times> nat"

text \<open>The calls whose results or order matter; a pointer result that is \<^verbatim>\<open>NULL\<close> is 0.\<close>

datatype drv_call =
  bmi_port_create_mgr | rmt_setup | start_p4_pd_rpc_server nat | bmi_port_interface_add string u16 "string option"
| sigaction int | p4ns_db_connect address | p4ns_db_add_datapath string u64 | atexit_clean_up
| p4ns_db_set_listener string address | p4ns_db_add_port string string u16 | p4ns_db_free | create_ctl_listen address
| bmi_set_packet_handler

record drv_env =
  answer :: "drv_call list \<Rightarrow> drv_call \<Rightarrow> int"
  parse_connection :: "string \<Rightarrow> nat \<Rightarrow> int \<times> address"
  euid :: int
  rand1 :: u32
  rand2 :: u32
  p4nsdb_default_port :: nat

type_synonym 'a drv = "(drv_call list, 'a) state"

definition ask_drv :: "drv_env \<Rightarrow> drv_call \<Rightarrow> int drv" where
  "ask_drv E c = State (\<lambda>log. (answer E log c, log @ [c]))"

definition do_drv :: "drv_call list \<Rightarrow> unit drv" where
  "do_drv cs = State (\<lambda>log. ((), log @ cs))"

text \<open>\<open>Running\<close>: the program waits for packets, \<^verbatim>\<open>while (1) pause()\<close>.\<close>

datatype drv_outcome = Running | Drv_returned int | Stopped stop

definition PD_SERVER_DEFAULT_PORT :: nat where "PD_SERVER_DEFAULT_PORT = 9090"
definition NUM_VETH_INTERFACES :: nat where "NUM_VETH_INTERFACES = 8"

text \<open>Decimal numbers as \<^verbatim>\<open>%d\<close> and \<^verbatim>\<open>%.2d\<close> print them.\<close>

fun decimal :: "nat \<Rightarrow> string" where
  "decimal n = (if n < 10 then [char_of (48 + n)] else decimal (n div 10) @ [char_of (48 + n mod 10)])"

declare decimal.simps [simp del]

definition decimal2 :: "nat \<Rightarrow> string" where
  "decimal2 n = (if n < 10 then ''0'' else []) @ decimal n"

definition pcap_filename :: "options \<Rightarrow> u16 \<Rightarrow> string option" where
  "pcap_filename cfg port_num =
    (if dump_pcap cfg then Some (take 1023 (''/p4ns.'' @ datapath_name cfg @ ''-port'' @ decimal2 (unat port_num) @ ''.pcap''))
     else None)"

definition add_port :: "drv_env \<Rightarrow> options \<Rightarrow> string \<Rightarrow> u16 \<Rightarrow> int drv" where
  "add_port E cfg iface port_num = ask_drv E (bmi_port_interface_add iface port_num (pcap_filename cfg port_num))"

text \<open>The loops over ports; \<open>Some rv\<close> is the early return.\<close>

fun add_veths :: "drv_env \<Rightarrow> options \<Rightarrow> nat list \<Rightarrow> int option drv" where
  "add_veths E cfg [] = State_Monad.return None"
| "add_veths E cfg (n_veth # ns) = do {
     rv \<leftarrow> ask_drv E (bmi_port_interface_add (''veth'' @ decimal (n_veth * 2)) (of_nat n_veth)
       (Some (if dump_pcap cfg then take 1023 (''p4ns.'' @ datapath_name cfg @ ''-port'' @ decimal2 n_veth @ ''.pcap'') else [])));
     if rv < 0 then State_Monad.return (Some rv) else add_veths E cfg ns }"

fun add_interfaces :: "drv_env \<Rightarrow> options \<Rightarrow> bool \<Rightarrow> u16 \<Rightarrow> string list \<Rightarrow> int option drv" where
  "add_interfaces E cfg db port_no [] = State_Monad.return None"
| "add_interfaces E cfg db port_no (i # is) = do {
     rv \<leftarrow> add_port E cfg i port_no;
     if rv < 0 then State_Monad.return (Some (-1))
     else do {
       do_drv (if db then [p4ns_db_add_port (datapath_name cfg) i port_no] else []);
       add_interfaces E cfg db (port_no + 1) is } }"

text \<open>The part of \<^verbatim>\<open>main\<close> that attaches the ports.\<close>

definition attach_listener :: "drv_env \<Rightarrow> options \<Rightarrow> string \<Rightarrow> int option drv" where
  "attach_listener E cfg listener = (let listener_addr = snd (parse_connection E listener 0) in
     if snd listener_addr = 0 then State_Monad.return (Some (-1))
     else let db = (case p4nsdb_str cfg of None \<Rightarrow> (0, snd (parse_connection E ''127.0.0.1'' (p4nsdb_default_port E)))
              | Some str \<Rightarrow> parse_connection E str (p4nsdb_default_port E)) in
       if fst db \<noteq> 0 then State_Monad.return (Some (-1))
       else do {
         do_drv [sigaction 2, sigaction 15];
         c \<leftarrow> ask_drv E (p4ns_db_connect (snd db));
         if c = 0 then State_Monad.return (Some (-1))
         else do {
           r \<leftarrow> ask_drv E (p4ns_db_add_datapath (datapath_name cfg) (dpid cfg));
           if r \<noteq> 0 then State_Monad.return (Some (-1))
           else do {
             do_drv [atexit_clean_up, p4ns_db_set_listener (datapath_name cfg) listener_addr];
             r \<leftarrow> add_interfaces E cfg True 1 (interfaces cfg);
             if r \<noteq> None then State_Monad.return r
             else do { do_drv [p4ns_db_free, create_ctl_listen listener_addr]; State_Monad.return None } } } })"

definition attach_ports :: "drv_env \<Rightarrow> options \<Rightarrow> int option drv" where
  "attach_ports E cfg = do {
     r \<leftarrow> (if listener_str cfg = None \<and> \<not> no_veth cfg then add_veths E cfg [0..<NUM_VETH_INTERFACES] else State_Monad.return None);
     if r \<noteq> None then State_Monad.return r
     else case listener_str cfg of
         Some listener \<Rightarrow> attach_listener E cfg listener
       | None \<Rightarrow> if no_veth cfg then add_interfaces E cfg False 1 (interfaces cfg) else State_Monad.return None }"

text \<open>\<^verbatim>\<open>main\<close>; the two numbers \<^verbatim>\<open>rand\<close> gives are combined when no data path id was given.\<close>

definition main :: "drv_env \<Rightarrow> opt list \<Rightarrow> drv_outcome drv" where
  "main E opts = do {
     rv \<leftarrow> ask_drv E bmi_port_create_mgr;
     if rv < 0 then State_Monad.return (Drv_returned rv)
     else case parse_options opts default_options of
       Inl e \<Rightarrow> State_Monad.return (Stopped e)
     | Inr cfg \<Rightarrow>
         if euid E \<noteq> 0 then State_Monad.return (Drv_returned 1)
         else let cfg = (if dpid cfg = 0 then cfg\<lparr>dpid := push_bit 32 (ucast (rand1 E)) OR ucast (rand2 E)\<rparr> else cfg);
                pd = (case pd_server_str cfg of None \<Rightarrow> (0, snd (parse_connection E ''127.0.0.1'' PD_SERVER_DEFAULT_PORT))
                    | Some str \<Rightarrow> parse_connection E str PD_SERVER_DEFAULT_PORT) in
           if fst pd \<noteq> 0 then State_Monad.return (Drv_returned (-1))
           else let cfg = (if listener_str cfg = None then cfg\<lparr>p4nsdb_str := None\<rparr> else cfg) in do {
             do_drv [rmt_setup];
             rv \<leftarrow> ask_drv E (start_p4_pd_rpc_server (snd (snd pd)));
             if rv < 0 then State_Monad.return (Drv_returned rv)
             else do {
               r \<leftarrow> attach_ports E cfg;
               if r \<noteq> None then State_Monad.return (Drv_returned (the r))
               else do {
                 rv \<leftarrow> ask_drv E bmi_set_packet_handler;
                 if rv < 0 then State_Monad.return (Drv_returned rv) else State_Monad.return Running } } } }"

section \<open>Ports before packets\<close>

text \<open>
  The ports attached in a trace; those of the virtual interfaces and those of the interfaces named with \<^verbatim>\<open>-i\<close>, numbered from 1; and the
  ones the help text promises: the virtual interfaces, in a switch without a listener, unless \<^verbatim>\<open>--no-veth\<close> says
  otherwise, and every interface named with \<^verbatim>\<open>-i\<close>.
\<close>

definition attached :: "drv_call list \<Rightarrow> (string \<times> u16) list" where
  "attached log = concat (map (\<lambda>c. case c of bmi_port_interface_add i n _ \<Rightarrow> [(i, n)] | _ \<Rightarrow> []) log)"

definition veth_ports :: "(string \<times> u16) list" where
  "veth_ports = map (\<lambda>n. (''veth'' @ decimal (n * 2), of_nat n)) [0..<NUM_VETH_INTERFACES]"

definition named_ports :: "options \<Rightarrow> (string \<times> u16) list" where
  "named_ports cfg = map (\<lambda>k. (interfaces cfg ! k, 1 + of_nat k)) [0..<length (interfaces cfg)]"

definition standalone :: "options \<Rightarrow> bool" where
  "standalone cfg \<longleftrightarrow> listener_str cfg = None \<and> \<not> no_veth cfg"

definition wanted :: "options \<Rightarrow> (string \<times> u16) list" where
  "wanted cfg = (if standalone cfg then veth_ports else []) @ named_ports cfg"

text \<open>Those \<^verbatim>\<open>main\<close> attaches.\<close>

definition mode_ports :: "options \<Rightarrow> (string \<times> u16) list" where
  "mode_ports cfg = (if standalone cfg then veth_ports else named_ports cfg)"

lemmas port_defs = mode_ports_def standalone_def veth_ports_def named_ports_def

lemma run_ask_drv [simp]: "run_state (ask_drv E c) log = (answer E log c, log @ [c])"
  by (simp add: ask_drv_def)

lemma run_do_drv [simp]: "run_state (do_drv cs) log = ((), log @ cs)"
  by (simp add: do_drv_def)

lemma attached_simps [simp]:
  "attached [] = []" "attached (log @ log') = attached log @ attached log'"
  "attached (c # log) = (case c of bmi_port_interface_add i n _ \<Rightarrow> [(i, n)] | _ \<Rightarrow> []) @ attached log"
  by (simp_all add: attached_def)

text \<open>No port was attached with an error, in the calls \<open>log\<close> made after those of \<open>pre\<close>.\<close>

definition is_add :: "drv_call \<Rightarrow> bool" where
  "is_add c = (case c of bmi_port_interface_add _ _ _ \<Rightarrow> True | _ \<Rightarrow> False)"

definition plain :: "drv_call \<Rightarrow> bool" where
  "plain c \<longleftrightarrow> \<not> is_add c \<and> c \<noteq> bmi_set_packet_handler"

lemma plain_simps [simp]:
  "plain bmi_port_create_mgr" "plain rmt_setup" "plain (start_p4_pd_rpc_server n)" "plain (sigaction sig)"
  "plain (p4ns_db_connect a)" "plain (p4ns_db_add_datapath d u)" "plain atexit_clean_up" "plain (p4ns_db_set_listener d a)"
  "plain (p4ns_db_add_port d i k)" "plain p4ns_db_free" "plain (create_ctl_listen a)" "\<not> is_add bmi_set_packet_handler"
  by (simp_all add: plain_def is_add_def)

fun no_error :: "drv_env \<Rightarrow> drv_call list \<Rightarrow> drv_call list \<Rightarrow> bool" where
  "no_error E pre [] = True"
| "no_error E pre (c # log) \<longleftrightarrow> (is_add c \<longrightarrow> 0 \<le> answer E pre c) \<and> no_error E (pre @ [c]) log"

lemma no_error_append [simp]: "no_error E pre (log @ log') \<longleftrightarrow> no_error E pre log \<and> no_error E (pre @ log) log'"
  by (induction log arbitrary: pre) auto

text \<open>What a loop over ports appends to the trace when it runs to its end.\<close>

definition attaches :: "drv_env \<Rightarrow> 'a drv \<Rightarrow> 'a \<Rightarrow> (string \<times> u16) list \<Rightarrow> bool" where
  "attaches E m r ps \<longleftrightarrow> (\<forall>log log'. run_state m log = (r, log') \<longrightarrow>
     (\<exists>new. log' = log @ new \<and> attached new = ps \<and> no_error E log new \<and> bmi_set_packet_handler \<notin> set new))"

lemma attachesD:
  assumes "attaches E m r ps" "run_state m log = (r, log')"
  obtains new where "log' = log @ new" "attached new = ps" "no_error E log new"
    "bmi_set_packet_handler \<notin> set new"
  using assms unfolding attaches_def by blast

lemma plain_calls: "\<forall>c \<in> set cs. plain c \<Longrightarrow> attached cs = [] \<and> no_error E pre cs \<and> bmi_set_packet_handler \<notin> set cs"
  by (induction cs arbitrary: pre) (auto simp: plain_def is_add_def split: drv_call.splits)

lemma attaches_step:
  assumes "attaches E m r ps" "run_state m ((log @ [bmi_port_interface_add i n f]) @ cs) = (r, log')"
    and "\<forall>c \<in> set cs. plain c" "\<not> answer E log (bmi_port_interface_add i n f) < 0"
  shows "\<exists>new. log' = log @ new \<and> attached new = (i, n) # ps \<and> no_error E log new \<and> bmi_set_packet_handler \<notin> set new"
proof -
  obtain new where "log' = ((log @ [bmi_port_interface_add i n f]) @ cs) @ new" "attached new = ps"
    "no_error E ((log @ [bmi_port_interface_add i n f]) @ cs) new" "bmi_set_packet_handler \<notin> set new"
    using assms(1,2) by (rule attachesD)
  then show ?thesis
    using assms(4) plain_calls[OF assms(3)]
    by (intro exI[of _ "[bmi_port_interface_add i n f] @ cs @ new"]) (simp add: not_less)
qed

lemma add_veths_attaches:
  "attaches E (add_veths E cfg ns) None (map (\<lambda>n. (''veth'' @ decimal (n * 2), of_nat n)) ns)"
proof (induction ns)
  case (Cons n ns)
  show ?case unfolding attaches_def
    using attaches_step[OF Cons.IH, of _ _ _ _ "[]"] by (auto split: if_splits)
qed (simp add: attaches_def)

lemma add_interfaces_attaches:
  "attaches E (add_interfaces E cfg db p is) None (map (\<lambda>k. (is ! k, p + of_nat k)) [0..<length is])"
proof (induction "is" arbitrary: p)
  case (Cons i "is")
  have upt: "map (\<lambda>k. ((i # is) ! k, p + of_nat k)) [0..<length (i # is)] =
      (i, p) # map (\<lambda>k. (is ! k, p + 1 + of_nat k)) [0..<length is]"
    by (simp add: upt_conv_Cons map_Suc_upt[symmetric] add_ac del: upt_Suc)
  let ?cs = "if db then [p4ns_db_add_port (datapath_name cfg) i p] else []"
  show ?case unfolding attaches_def upt
  proof (intro allI impI)
    fix log log'
    assume "run_state (add_interfaces E cfg db p (i # is)) log = (None, log')"
    then have "\<not> answer E log (bmi_port_interface_add i p (pcap_filename cfg p)) < 0"
      "run_state (add_interfaces E cfg db (p + 1) is) ((log @ [bmi_port_interface_add i p (pcap_filename cfg p)]) @ ?cs) = (None, log')"
      by (simp_all add: add_port_def split: if_splits)
    then show "\<exists>new. log' = log @ new \<and>
        attached new = (i, p) # map (\<lambda>k. (is ! k, p + 1 + of_nat k)) [0..<length is] \<and> no_error E log new \<and> bmi_set_packet_handler \<notin> set new"
      using attaches_step[OF Cons.IH, of "p + 1" log i p _ ?cs] by simp
  qed
qed (simp add: attaches_def)

text \<open>The rules for the constructs of \<^verbatim>\<open>main\<close>, one each.\<close>

lemma attaches_return: "attaches E (State_Monad.return r) r []"
  by (simp add: attaches_def)

lemma attaches_early: "attaches E (State_Monad.return (Some e)) None ps"
  by (simp add: attaches_def)

lemma attaches_do:
  assumes "\<forall>c \<in> set cs. plain c" "attaches E m r ps"
  shows "attaches E (State_Monad.bind (do_drv cs) (\<lambda>_. m)) r ps"
  unfolding attaches_def
proof (intro allI impI)
  fix log log'
  assume "run_state (State_Monad.bind (do_drv cs) (\<lambda>_. m)) log = (r, log')"
  then have "run_state m (log @ cs) = (r, log')" by simp
  with assms(2) obtain new where "log' = (log @ cs) @ new" "attached new = ps" "no_error E (log @ cs) new"
    "bmi_set_packet_handler \<notin> set new" by (rule attachesD)
  then show "\<exists>new. log' = log @ new \<and> attached new = ps \<and> no_error E log new \<and> bmi_set_packet_handler \<notin> set new"
    using plain_calls[OF assms(1)] by (intro exI[of _ "cs @ new"]) simp
qed

lemma attaches_ask:
  assumes "plain c" "\<And>x. attaches E (f x) r ps"
  shows "attaches E (State_Monad.bind (ask_drv E c) f) r ps"
  using attaches_do[of "[c]" E _ r ps] assms unfolding attaches_def by fastforce

lemma attaches_if:
  "(b \<Longrightarrow> attaches E m r ps) \<Longrightarrow> (\<not> b \<Longrightarrow> attaches E m' r ps) \<Longrightarrow> attaches E (if b then m else m') r ps"
  by simp

lemma attaches_bind:
  assumes "attaches E m None ps" "attaches E k None qs"
  shows "attaches E (State_Monad.bind m (\<lambda>r. if r \<noteq> None then State_Monad.return r else k)) None (ps @ qs)"
  unfolding attaches_def
proof (intro allI impI)
  fix log log'
  assume "run_state (State_Monad.bind m (\<lambda>r. if r \<noteq> None then State_Monad.return r else k)) log = (None, log')"
  then obtain log1 where m: "run_state m log = (None, log1)" and k: "run_state k log1 = (None, log')"
    by (auto split: prod.splits if_splits)
  from assms(1) m obtain n1 where n1: "log1 = log @ n1" "attached n1 = ps" "no_error E log n1" "bmi_set_packet_handler \<notin> set n1" by (rule attachesD)
  from assms(2) k obtain n2 where "log' = log1 @ n2" "attached n2 = qs" "no_error E log1 n2" "bmi_set_packet_handler \<notin> set n2" by (rule attachesD)
  with n1 show "\<exists>new. log' = log @ new \<and> attached new = ps @ qs \<and> no_error E log new \<and> bmi_set_packet_handler \<notin> set new"
    by (intro exI[of _ "n1 @ n2"]) simp
qed

lemma attach_listener_attaches:
  "attaches E (attach_listener E cfg l) None (map (\<lambda>k. (interfaces cfg ! k, 1 + of_nat k)) [0..<length (interfaces cfg)])"
  unfolding attach_listener_def Let_def
  by (intro attaches_if attaches_early attaches_do attaches_ask
      attaches_bind[where qs = "[]", OF add_interfaces_attaches, unfolded append_Nil2] attaches_return)
    simp_all

lemma attach_ports_attaches: "attaches E (attach_ports E cfg) None (mode_ports cfg)"
proof (cases "listener_str cfg")
  case None
  show ?thesis
  proof (cases "no_veth cfg")
    case True
    then show ?thesis using attaches_bind[OF attaches_return add_interfaces_attaches, of E cfg False 1 "interfaces cfg"] None
      by (simp add: attach_ports_def port_defs cong: if_cong)
  next
    case False
    then show ?thesis using attaches_bind[OF add_veths_attaches attaches_return, of E cfg "[0..<NUM_VETH_INTERFACES]"] None
      by (simp add: attach_ports_def port_defs cong: if_cong)
  qed
next
  case (Some l)
  then show ?thesis using attaches_bind[OF attaches_return attach_listener_attaches, of E cfg l]
    by (simp add: attach_ports_def port_defs cong: if_cong)
qed

text \<open>A run that ends waiting for packets passed every check before.\<close>

lemma guard_running:
  "run_state (if b then State_Monad.return (Drv_returned e) else m) log = (Running, log')
    \<longleftrightarrow> \<not> b \<and> run_state m log = (Running, log')"
  by simp

lemma running_ports:
  assumes "run_state (main E opts) [] = (Running, log)"
  shows "\<exists>cfg. parse_options opts default_options = Inr cfg \<and> last log = bmi_set_packet_handler
    \<and> bmi_set_packet_handler \<notin> set (butlast log) \<and> attached (butlast log) = mode_ports cfg \<and> no_error E [] log"
proof -
  obtain cfg where cfg: "parse_options opts default_options = Inr cfg"
    using assms by (cases "parse_options opts default_options") (auto simp: main_def split: if_splits)
  define cfg1 where "cfg1 = (if dpid cfg = 0 then cfg\<lparr>dpid := push_bit 32 (ucast (rand1 E)) OR ucast (rand2 E)\<rparr> else cfg)"
  define cfg2 where "cfg2 = (if listener_str cfg1 = None then cfg1\<lparr>p4nsdb_str := None\<rparr> else cfg1)"
  have ports: "mode_ports cfg2 = mode_ports cfg" by (auto simp: port_defs cfg1_def cfg2_def)
  obtain port where port: "run_state (do {
      r \<leftarrow> attach_ports E cfg2;
      if r \<noteq> None then State_Monad.return (Drv_returned (the r))
      else do {
        rv \<leftarrow> ask_drv E bmi_set_packet_handler;
        if rv < 0 then State_Monad.return (Drv_returned rv) else State_Monad.return Running } })
      [bmi_port_create_mgr, rmt_setup, start_p4_pd_rpc_server port] = (Running, log)"
    using assms cfg unfolding main_def Let_def cfg2_def cfg1_def
    by (simp add: guard_running) blast
  let ?pre = "[bmi_port_create_mgr, rmt_setup, start_p4_pd_rpc_server port]"
  obtain log1 where run: "run_state (attach_ports E cfg2) ?pre = (None, log1)" "log = log1 @ [bmi_set_packet_handler]"
    using port by (auto simp: guard_running split: prod.splits if_splits)
  obtain new where "log1 = ?pre @ new" "attached new = mode_ports cfg2" "no_error E ?pre new" "bmi_set_packet_handler \<notin> set new"
    using attach_ports_attaches run(1) by (rule attachesD)
  then show ?thesis using cfg run(2) plain_calls[of ?pre] ports by (simp add: is_add_def)
qed

text \<open>C32: The switch starts to handle packets only after all its ports are attached: in a run that gets to the wait for
  packets, the handler is installed as the last call, and before it exactly the ports that the help text promises for the
  options were attached, in their order and with their numbers, none of them with an error, unless
  the options name interfaces for a switch in stand-alone mode.\<close>

theorem driver_ports_attached:
  assumes "run_state (main E opts) [] = (Running, log)" "parse_options opts default_options = Inr cfg"
    and "standalone cfg \<Longrightarrow> interfaces cfg = []"
  shows "last log = bmi_set_packet_handler \<and> bmi_set_packet_handler \<notin> set (butlast log)
    \<and> attached (butlast log) = wanted cfg \<and> no_error E [] log"
proof -
  have "mode_ports cfg = wanted cfg" using assms(3) by (cases "standalone cfg") (simp_all add: wanted_def mode_ports_def named_ports_def)
  then show ?thesis using running_ports[OF assms(1)] assms(2) by auto
qed

text \<open>C40: In stand-alone mode the interfaces named with \<^verbatim>\<open>-i\<close> are never attached, although the help text promises it: a switch that
  waits for packets has the virtual interfaces for its ports and nothing else.\<close>

theorem standalone_ignores_interfaces:
  assumes "run_state (main E opts) [] = (Running, log)" "parse_options opts default_options = Inr cfg"
    and "standalone cfg" "i \<in> set (interfaces cfg)" "i \<notin> fst ` set veth_ports"
  shows "i \<in> fst ` set (wanted cfg) \<and> i \<notin> fst ` set (attached log)"
proof -
  have "i \<in> fst ` set (named_ports cfg)" using assms(4) unfolding in_set_conv_nth by (force simp: named_ports_def image_iff)
  moreover have "attached log = mode_ports cfg"
  proof -
    have "last log = bmi_set_packet_handler" "attached (butlast log) = mode_ports cfg"
      using running_ports[OF assms(1)] assms(2) by auto
    then show ?thesis by (cases log rule: rev_cases) simp_all
  qed
  ultimately show ?thesis using assms(3,5) by (simp add: wanted_def mode_ports_def image_Un)
qed

definition example_drv :: drv_env where
  "example_drv = \<lparr>answer = (\<lambda>log c. case c of p4ns_db_connect _ \<Rightarrow> 1 | _ \<Rightarrow> 0), parse_connection = (\<lambda>s d. (0, (s, 11111))),
     euid = 0, rand1 = 5, rand2 = 6, p4nsdb_default_port = 6379\<rparr>"

definition example_opts :: "opt list" where
  "example_opts = [Opt_listener ''127.0.0.1:11111'', Opt_interface ''eth0'', Opt_nopcap, Opt_interface ''eth1'']"

theorem driver_ports_attached_witness:
  "\<exists>log. run_state (main example_drv example_opts) [] = (Running, log) \<and> last log = bmi_set_packet_handler
    \<and> attached (butlast log) = [(''eth0'', 1), (''eth1'', 2)]"
proof -
  obtain log where log: "run_state (main example_drv example_opts) [] = (Running, log)"
    by (simp add: main_def example_opts_def example_drv_def default_options_def attach_ports_def attach_listener_def
        add_port_def Let_def)
  obtain cfg where cfg: "parse_options example_opts default_options = Inr cfg" "\<not> standalone cfg"
    "wanted cfg = [(''eth0'', 1), (''eth1'', 2)]"
    by (simp add: example_opts_def default_options_def wanted_def port_defs)
  show ?thesis using driver_ports_attached[OF log cfg(1)] cfg(2,3) log by auto
qed

theorem standalone_ignores_interfaces_witness:
  "\<exists>log. run_state (main example_drv [Opt_interface ''eth0'']) [] = (Running, log) \<and> ''eth0'' \<notin> fst ` set (attached log)"
proof -
  obtain log where log: "run_state (main example_drv [Opt_interface ''eth0'']) [] = (Running, log)"
    by (simp add: main_def example_drv_def default_options_def attach_ports_def Let_def NUM_VETH_INTERFACES_def upt_rec)
  obtain cfg where cfg: "parse_options [Opt_interface ''eth0''] default_options = Inr cfg" "standalone cfg" "''eth0'' \<in> set (interfaces cfg)"
    by (simp add: default_options_def standalone_def)
  have "''eth0'' \<notin> fst ` set veth_ports" by (auto simp: veth_ports_def)
  then show ?thesis using standalone_ignores_interfaces[OF log cfg] log by blast
qed

end
