(* ===== verification/Switch_Control.thy ===== *)
theory Switch_Control
  imports Switch_Driver
begin

text \<open>
  The control connection of \<^verbatim>\<open>main.c\<close>: the thread that takes requests to add and remove ports, the
  handlers of signals, and the two functions between the simulator and its ports.  The layout of the
  messages, \<^verbatim>\<open>recvall\<close>, \<^verbatim>\<open>sendall\<close> and the port manager belong to libraries that are not in the
  repository: they are parameters.
\<close>

section \<open>Messages and connections\<close>

text \<open>The codes and sizes of the messages, the two fields that are read, and the bytes of a status message.\<close>

record ctl_layout =
  CTL_MSG_ADD_PORT_CODE :: u8
  CTL_MSG_DEL_PORT_CODE :: u8
  sizeof_ctl_msg_add_port :: nat
  sizeof_ctl_msg_del_port :: nat
  msg_iface :: "u8 list \<Rightarrow> string"
  msg_request_id :: "u8 list \<Rightarrow> u64"
  status_msg :: "u64 \<Rightarrow> int \<Rightarrow> u8 list"

text \<open>\<^verbatim>\<open>recvall\<close> gives its return value and the bytes it read; \<^verbatim>\<open>'c\<close> is a connection, \<^verbatim>\<open>'p\<close> the port manager.\<close>

record ('c, 'p) ctl_env =
  layout :: ctl_layout
  recvall :: "'c \<Rightarrow> nat \<Rightarrow> 'c \<times> int \<times> u8 list"
  sendall :: "'c \<Rightarrow> u8 list \<Rightarrow> 'c"
  bmi_port_interface_remove :: "'p \<Rightarrow> int \<Rightarrow> 'p \<times> int"

record ('c, 'p) ctl_state =
  client :: 'c
  port_mgr :: 'p

text \<open>\<^verbatim>\<open>strtol\<close> in base 10: the number, held at the limits of a \<^verbatim>\<open>long\<close>, and whether \<^verbatim>\<open>errno\<close> was set.\<close>

definition dec_digit :: "char \<Rightarrow> int option" where
  "dec_digit c = (let n = of_char c :: int in if 48 \<le> n \<and> n \<le> 57 then Some (n - 48) else None)"

fun dec_digits :: "int \<Rightarrow> string \<Rightarrow> int" where
  "dec_digits acc [] = acc"
| "dec_digits acc (c # s) = (case dec_digit c of None \<Rightarrow> acc | Some d \<Rightarrow> dec_digits (10 * acc + d) s)"

fun strtol10 :: "string \<Rightarrow> int \<times> bool" where
  "strtol10 [] = (0, False)"
| "strtol10 (c # s) = (if c = CHR '' '' \<or> 9 \<le> (of_char c :: nat) \<and> (of_char c :: nat) \<le> 13 then strtol10 s
     else let n = (if c = CHR ''-'' then - dec_digits 0 s else if c = CHR ''+'' then dec_digits 0 s else dec_digits 0 (c # s))
       in if n < - (2 ^ 63) then (- (2 ^ 63), True) else if 2 ^ 63 - 1 < n then (2 ^ 63 - 1, True) else (n, False))"

section \<open>Requests\<close>

definition del_port :: "('c, 'p) ctl_env \<Rightarrow> int \<Rightarrow> ('c, 'p) ctl_state \<Rightarrow> int \<times> ('c, 'p) ctl_state" where
  "del_port E iface s = (case bmi_port_interface_remove E (port_mgr s) iface of (m, rv) \<Rightarrow> (rv, s\<lparr>port_mgr := m\<rparr>))"

definition send_status_reply :: "('c, 'p) ctl_env \<Rightarrow> u64 \<Rightarrow> int \<Rightarrow> ('c, 'p) ctl_state \<Rightarrow> ('c, 'p) ctl_state" where
  "send_status_reply E request_id status s = s\<lparr>client := sendall E (client s) (status_msg (layout E) request_id status)\<rparr>"

text \<open>The first byte of the structures is the code; an assertion that fails ends the whole program.\<close>

definition process_add_port :: "('c, 'p) ctl_env \<Rightarrow> ('c, 'p) ctl_state \<Rightarrow> stop + ('c, 'p) ctl_state" where
  "process_add_port E s = (case recvall E (client s) (sizeof_ctl_msg_add_port (layout E) - 1) of (c, n, _) \<Rightarrow>
     if n = int (sizeof_ctl_msg_add_port (layout E)) - 1 then Inr (s\<lparr>client := c\<rparr>) else Inl Aborted)"

text \<open>\<^verbatim>\<open>port_num\<close> is an \<^verbatim>\<open>int\<close>, so the \<^verbatim>\<open>long\<close> is cut to 32 bits.\<close>

definition process_del_port :: "('c, 'p) ctl_env \<Rightarrow> ('c, 'p) ctl_state \<Rightarrow> stop + ('c, 'p) ctl_state" where
  "process_del_port E s = (case recvall E (client s) (sizeof_ctl_msg_del_port (layout E) - 1) of (c, n, msg) \<Rightarrow>
     if n \<noteq> int (sizeof_ctl_msg_del_port (layout E)) - 1 then Inl Aborted
     else case strtol10 (msg_iface (layout E) msg) of (port, err) \<Rightarrow>
       if err then Inl Aborted
       else let port_num = sint (word_of_int port :: u32) in
         case del_port E port_num (s\<lparr>client := c\<rparr>) of (status, s) \<Rightarrow>
           Inr (send_status_reply E (msg_request_id (layout E) msg) status s))"

definition process_request :: "('c, 'p) ctl_env \<Rightarrow> ('c, 'p) ctl_state \<Rightarrow> stop + (int \<times> ('c, 'p) ctl_state)" where
  "process_request E s = (case recvall E (client s) 1 of (c, n, msg_code) \<Rightarrow>
     let s = s\<lparr>client := c\<rparr> in
     if n \<le> 0 then Inr (n, s)
     else if hd msg_code = CTL_MSG_ADD_PORT_CODE (layout E)
       then map_sum id (\<lambda>s. (sint (CTL_MSG_ADD_PORT_CODE (layout E)), s)) (process_add_port E s)
     else if hd msg_code = CTL_MSG_DEL_PORT_CODE (layout E)
       then map_sum id (\<lambda>s. (sint (CTL_MSG_DEL_PORT_CODE (layout E)), s)) (process_del_port E s)
     else Inr (-1, s))"

text \<open>The loop over the requests of one connection; \<open>None\<close> when the fuel is used up, as for a client that never stops.\<close>

fun serve :: "nat \<Rightarrow> ('c, 'p) ctl_env \<Rightarrow> ('c, 'p) ctl_state \<Rightarrow> (stop + ('c, 'p) ctl_state) option" where
  "serve 0 E s = None"
| "serve (Suc fuel) E s = (case process_request E s of
     Inl e \<Rightarrow> Some (Inl e)
   | Inr (n, s) \<Rightarrow> if 0 < n then serve fuel E s else Some (Inr s))"

text \<open>\<^verbatim>\<open>ctl_listen\<close> on the connections it accepts, one after the other; the closed ones are kept in the list.\<close>

fun ctl_listen :: "nat \<Rightarrow> ('c, 'p) ctl_env \<Rightarrow> 'c list \<Rightarrow> 'p \<Rightarrow> (stop + ('c list \<times> 'p)) option" where
  "ctl_listen fuel E [] m = Some (Inr ([], m))"
| "ctl_listen fuel E (connfd # conns) m = (case serve fuel E \<lparr>client = connfd, port_mgr = m\<rparr> of
     None \<Rightarrow> None
   | Some (Inl e) \<Rightarrow> Some (Inl e)
   | Some (Inr s) \<Rightarrow> map_option (map_sum id (\<lambda>(cs, m). (client s # cs, m))) (ctl_listen fuel E conns (port_mgr s)))"

section \<open>Packets and signals\<close>

text \<open>A packet to be sent: the call to the port manager and whether its error is printed.\<close>

definition transmit_wrapper :: "('p \<Rightarrow> nat \<Rightarrow> u8 list \<Rightarrow> int \<Rightarrow> 'p \<times> int) \<Rightarrow> nat \<Rightarrow> u8 list \<Rightarrow> int \<Rightarrow> 'p \<Rightarrow> 'p \<times> bool" where
  "transmit_wrapper bmi_port_send egress pkt len m = (case bmi_port_send m egress pkt len of (m, rv) \<Rightarrow> (m, rv < 0))"

text \<open>A packet from a port is handed to the simulator; the first 16 bytes are printed, \<open>None\<close> when the buffer has fewer.\<close>

definition packet_handler :: "('r \<Rightarrow> int \<Rightarrow> u8 list \<Rightarrow> int \<Rightarrow> 'r \<times> int) \<Rightarrow> int \<Rightarrow> u8 list \<Rightarrow> int \<Rightarrow> 'r \<Rightarrow> ('r \<times> int) option" where
  "packet_handler rmt_process_pkt port_num buffer len r =
    (if length buffer < 16 then None else Some (rmt_process_pkt r port_num buffer len))"

text \<open>\<^verbatim>\<open>clean_up\<close>: the data path is removed from the database if a connection can be made.\<close>

datatype cleanup_call = cleanup_connect address | p4ns_db_del_datapath string | restore_sigaction int | raise int

definition clean_up :: "bool \<Rightarrow> address \<Rightarrow> string \<Rightarrow> cleanup_call list" where
  "clean_up connected db name = cleanup_connect db # (if connected then [p4ns_db_del_datapath name] else [])"

definition clean_up_on_signal :: "bool \<Rightarrow> address \<Rightarrow> string \<Rightarrow> int \<Rightarrow> cleanup_call list" where
  "clean_up_on_signal connected db name sig = clean_up connected db name @ [restore_sigaction 2, restore_sigaction 15, raise sig]"

section \<open>What a client gets\<close>

text \<open>
  The contract of \<^verbatim>\<open>recvall\<close> and \<^verbatim>\<open>sendall\<close>: the bytes the client has sent arrive in order, and a connection
  the client has closed gives 0; a request cut off in the middle gives fewer bytes than asked for.
\<close>

record 'c stream =
  pending :: "'c \<Rightarrow> u8 list"
  replies :: "'c \<Rightarrow> u8 list"

definition stream_ok :: "('c, 'p) ctl_env \<Rightarrow> 'c stream \<Rightarrow> bool" where
  "stream_ok E C \<longleftrightarrow>
     (\<forall>c n c' k bs. recvall E c n = (c', k, bs) \<longrightarrow> replies C c' = replies C c \<and>
        (if n \<le> length (pending C c) then k = int n \<and> bs = take n (pending C c) \<and> pending C c' = drop n (pending C c)
         else k < int n \<and> (pending C c = [] \<longrightarrow> k \<le> 0))) \<and>
     (\<forall>c bs. pending C (sendall E c bs) = pending C c \<and> replies C (sendall E c bs) = replies C c @ bs)"

text \<open>Requests with their contents after the code; codes are positive numbers.\<close>

datatype ctl_request = Add_port "u8 list" | Del_port "u8 list"

definition layout_ok :: "ctl_layout \<Rightarrow> bool" where
  "layout_ok l \<longleftrightarrow> 0 < sint (CTL_MSG_ADD_PORT_CODE l) \<and> 0 < sint (CTL_MSG_DEL_PORT_CODE l)
     \<and> CTL_MSG_ADD_PORT_CODE l \<noteq> CTL_MSG_DEL_PORT_CODE l \<and> 0 < sizeof_ctl_msg_add_port l \<and> 0 < sizeof_ctl_msg_del_port l"

fun request_ok :: "ctl_layout \<Rightarrow> ctl_request \<Rightarrow> bool" where
  "request_ok l (Add_port bs) \<longleftrightarrow> length bs = sizeof_ctl_msg_add_port l - 1"
| "request_ok l (Del_port bs) \<longleftrightarrow> length bs = sizeof_ctl_msg_del_port l - 1 \<and> \<not> snd (strtol10 (msg_iface l bs))"

fun request_bytes :: "ctl_layout \<Rightarrow> ctl_request \<Rightarrow> u8 list" where
  "request_bytes l (Add_port bs) = CTL_MSG_ADD_PORT_CODE l # bs"
| "request_bytes l (Del_port bs) = CTL_MSG_DEL_PORT_CODE l # bs"

text \<open>What a sequence of requests does: the ports that are removed, and the replies.\<close>

fun effect :: "('c, 'p) ctl_env \<Rightarrow> ctl_request list \<Rightarrow> 'p \<Rightarrow> 'p \<times> u8 list" where
  "effect E [] m = (m, [])"
| "effect E (Add_port bs # rs) m = effect E rs m"
| "effect E (Del_port bs # rs) m =
    (case bmi_port_interface_remove E m (sint (word_of_int (fst (strtol10 (msg_iface (layout E) bs))) :: u32)) of (m, rv) \<Rightarrow>
      case effect E rs m of (m, out) \<Rightarrow> (m, status_msg (layout E) (msg_request_id (layout E) bs) rv @ out))"

lemma recvall_stream:
  assumes "stream_ok E C" "recvall E c n = (c', k, bs)" "pending C c = xs @ ys" "length xs = n"
  shows "k = int n" "bs = xs" "pending C c' = ys" "replies C c' = replies C c"
proof -
  from assms(1,2) have *: "replies C c' = replies C c \<and>
      (if n \<le> length (pending C c) then k = int n \<and> bs = take n (pending C c) \<and> pending C c' = drop n (pending C c)
       else k < int n \<and> (pending C c = [] \<longrightarrow> k \<le> 0))"
    unfolding stream_ok_def by blast
  then show "k = int n" "bs = xs" "pending C c' = ys" "replies C c' = replies C c" using assms(3,4) by auto
qed

lemma recvall_short:
  assumes "stream_ok E C" "recvall E c n = (c', k, bs)" "length (pending C c) < n"
  shows "k < int n" "pending C c = [] \<Longrightarrow> k \<le> 0" "replies C c' = replies C c"
proof -
  from assms(1,2) have *: "replies C c' = replies C c \<and>
      (if n \<le> length (pending C c) then k = int n \<and> bs = take n (pending C c) \<and> pending C c' = drop n (pending C c)
       else k < int n \<and> (pending C c = [] \<longrightarrow> k \<le> 0))"
    unfolding stream_ok_def by blast
  then show "k < int n" "pending C c = [] \<Longrightarrow> k \<le> 0" "replies C c' = replies C c" using assms(3) by auto
qed

lemma sendall_stream:
  "stream_ok E C \<Longrightarrow> pending C (sendall E c bs) = pending C c" "stream_ok E C \<Longrightarrow> replies C (sendall E c bs) = replies C c @ bs"
  by (simp_all add: stream_ok_def)

text \<open>One request.\<close>

lemma request_served:
  assumes ok: "stream_ok E C" "layout_ok (layout E)" "request_ok (layout E) r"
    and p: "pending C c = request_bytes (layout E) r @ rest"
  obtains k c' where "process_request E \<lparr>client = c, port_mgr = m\<rparr> = Inr (k, \<lparr>client = c', port_mgr = fst (effect E [r] m)\<rparr>)"
    "0 < k" "pending C c' = rest" "replies C c' = replies C c @ snd (effect E [r] m)"
proof -
  obtain c1 k1 b1 where 1: "recvall E c 1 = (c1, k1, b1)" by (meson prod_cases3)
  obtain code bs where r: "request_bytes (layout E) r = code # bs" by (cases r) auto
  from recvall_stream[OF ok(1) 1, of "[code]" "bs @ rest"] p r
  have f1: "k1 = 1" "b1 = [code]" "pending C c1 = bs @ rest" "replies C c1 = replies C c" by auto
  obtain c2 k2 b2 where 2: "recvall E c1 (length bs) = (c2, k2, b2)" by (meson prod_cases3)
  note f2 = recvall_stream[OF ok(1) 2 f1(3) refl]
  show thesis
  proof (cases r)
    case (Add_port as)
    then show thesis
      using ok(2,3) r 1 2 f1 f2 that[of "sint code" c2]
      by (auto simp: process_request_def process_add_port_def layout_ok_def)
  next
    case (Del_port as)
    obtain port where port: "strtol10 (msg_iface (layout E) as) = (port, False)"
      using ok(3) Del_port by (cases "strtol10 (msg_iface (layout E) as)") auto
    obtain m' rv where rm: "bmi_port_interface_remove E m (sint (word_of_int port :: u32)) = (m', rv)" by (meson surj_pair)
    show thesis
      using ok(2,3) r 1 2 f1 f2 rm port Del_port sendall_stream[OF ok(1)]
        that[of "sint code" "sendall E c2 (status_msg (layout E) (msg_request_id (layout E) as) rv)"]
      by (auto simp: process_request_def process_del_port_def layout_ok_def del_port_def send_status_reply_def Let_def
          split: prod.splits)
  qed
qed

lemma effect_Cons: "effect E (r # rs) m = (case effect E [r] m of (m, out) \<Rightarrow> case effect E rs m of (m, out') \<Rightarrow> (m, out @ out'))"
  by (cases r) (auto split: prod.splits)

lemma serve_requests:
  assumes ok: "stream_ok E C" "layout_ok (layout E)" "\<forall>r \<in> set rs. request_ok (layout E) r"
    and p: "pending C c = concat (map (request_bytes (layout E)) rs) @ rest"
  shows "\<exists>c'. serve (length rs + fuel) E \<lparr>client = c, port_mgr = m\<rparr> = serve fuel E \<lparr>client = c', port_mgr = fst (effect E rs m)\<rparr>
    \<and> pending C c' = rest \<and> replies C c' = replies C c @ snd (effect E rs m)"
  using ok(3) p
proof (induction rs arbitrary: c m)
  case (Cons r rs)
  then have p: "pending C c = request_bytes (layout E) r @ concat (map (request_bytes (layout E)) rs) @ rest" by simp
  obtain k c1 where 1: "process_request E \<lparr>client = c, port_mgr = m\<rparr> = Inr (k, \<lparr>client = c1, port_mgr = fst (effect E [r] m)\<rparr>)"
    "0 < k" "pending C c1 = concat (map (request_bytes (layout E)) rs) @ rest" "replies C c1 = replies C c @ snd (effect E [r] m)"
    by (rule request_served[OF ok(1,2) _ p, of m]) (use Cons.prems(1) in auto)
  have "\<exists>c'. serve (length rs + fuel) E \<lparr>client = c1, port_mgr = fst (effect E [r] m)\<rparr>
      = serve fuel E \<lparr>client = c', port_mgr = fst (effect E rs (fst (effect E [r] m)))\<rparr>
    \<and> pending C c' = rest \<and> replies C c' = replies C c1 @ snd (effect E rs (fst (effect E [r] m)))"
    by (rule Cons.IH[OF _ 1(3)]) (use Cons.prems(1) in simp)
  then show ?case using 1 by (auto simp: effect_Cons[of E r rs] split: prod.splits)
next
  case Nil
  then show ?case by (intro exI[of _ c]) simp
qed

text \<open>C33: A client that sends requests and closes the connection is served: every request to remove a port is carried
  out and answered with its status, in order; the requests to add ports have no effect and no answer.
  The loop ends, after one round more than there were requests.\<close>

theorem control_connection:
  assumes "stream_ok E C" "layout_ok (layout E)" "\<forall>r \<in> set rs. request_ok (layout E) r"
    and "pending C c = concat (map (request_bytes (layout E)) rs)" "length rs < fuel"
  shows "\<exists>c'. serve fuel E \<lparr>client = c, port_mgr = m\<rparr> = Some (Inr \<lparr>client = c', port_mgr = fst (effect E rs m)\<rparr>)
    \<and> replies C c' = replies C c @ snd (effect E rs m)"
proof -
  obtain f where f: "fuel = length rs + Suc f" using assms(5) less_imp_Suc_add by (metis add_Suc_right)
  obtain c1 where c1: "serve (length rs + Suc f) E \<lparr>client = c, port_mgr = m\<rparr> = serve (Suc f) E \<lparr>client = c1, port_mgr = fst (effect E rs m)\<rparr>"
    "pending C c1 = []" "replies C c1 = replies C c @ snd (effect E rs m)"
    using serve_requests[OF assms(1-3), of c "[]" "Suc f" m] assms(4) by auto
  obtain c2 k bs where r: "recvall E c1 1 = (c2, k, bs)" by (meson prod_cases3)
  from recvall_short[OF assms(1) r] c1(2) have "k \<le> 0" "replies C c2 = replies C c1" by auto
  then show ?thesis using f c1 r by (auto simp: process_request_def)
qed

text \<open>C34: A client that closes the connection in the middle of a request brings the switch down: the assertion on
  the number of bytes fails, whatever the client did before.\<close>

theorem cut_request_aborts:
  assumes "stream_ok E C" "layout_ok (layout E)" "\<forall>r \<in> set rs. request_ok (layout E) r" "request_ok (layout E) r"
    and "pending C c = concat (map (request_bytes (layout E)) rs) @ take k (request_bytes (layout E) r)"
    and "0 < k" "k < length (request_bytes (layout E) r)" "length rs < fuel"
  shows "serve fuel E \<lparr>client = c, port_mgr = m\<rparr> = Some (Inl Aborted)"
proof -
  obtain f where f: "fuel = length rs + Suc f" using assms(8) less_imp_Suc_add by (metis add_Suc_right)
  obtain code bs where r: "request_bytes (layout E) r = code # bs" by (cases r) auto
  obtain c1 where c1: "serve (length rs + Suc f) E \<lparr>client = c, port_mgr = m\<rparr> = serve (Suc f) E \<lparr>client = c1, port_mgr = fst (effect E rs m)\<rparr>"
    "pending C c1 = [code] @ take (k - 1) bs"
    using serve_requests[OF assms(1-3,5), of "Suc f" m] assms(6) r by (cases k) auto
  obtain c2 k2 b2 where 2: "recvall E c1 1 = (c2, k2, b2)" by (meson prod_cases3)
  note f2 = recvall_stream[OF assms(1) 2 c1(2)]
  obtain c3 k3 b3 where 3: "recvall E c2 (length bs) = (c3, k3, b3)" by (meson prod_cases3)
  have "k3 < int (length bs)" using recvall_short(1)[OF assms(1) 3] f2(3) assms(6,7) r by simp
  then show ?thesis
    using f c1 2 3 f2 assms(2,4) r
    by (cases r) (auto simp: process_request_def process_add_port_def process_del_port_def layout_ok_def)
qed

subsection \<open>A connection\<close>

text \<open>Messages of five bytes: the code, a request id, and an interface of at most two characters; ports are numbers in a list.\<close>

definition example_layout :: ctl_layout where
  "example_layout = \<lparr>CTL_MSG_ADD_PORT_CODE = 1, CTL_MSG_DEL_PORT_CODE = 2, sizeof_ctl_msg_add_port = 5, sizeof_ctl_msg_del_port = 5,
     msg_iface = (\<lambda>bs. map (\<lambda>b. char_of (unat b)) (takeWhile (\<lambda>b. b \<noteq> 0) (drop 1 bs))),
     msg_request_id = (\<lambda>bs. ucast (hd bs)), status_msg = (\<lambda>i st. [3, ucast i, word_of_int st])\<rparr>"

definition example_ctl :: "(u8 list \<times> u8 list, int list) ctl_env" where
  "example_ctl = \<lparr>layout = example_layout,
     recvall = (\<lambda>(i, out) n. if n \<le> length i then ((drop n i, out), int n, take n i) else (([], out), int (length i), i)),
     sendall = (\<lambda>(i, out) bs. (i, out @ bs)),
     bmi_port_interface_remove = (\<lambda>m p. if p \<in> set m then (removeAll p m, 0) else (m, - 1))\<rparr>"

definition example_stream :: "(u8 list \<times> u8 list) stream" where
  "example_stream = \<lparr>pending = fst, replies = snd\<rparr>"

lemma example_ctl_ok: "stream_ok example_ctl example_stream" "layout_ok (layout example_ctl)"
  by (auto simp: stream_ok_def example_ctl_def example_stream_def layout_ok_def example_layout_def)

definition example_requests :: "ctl_request list" where
  "example_requests = [Del_port [7, 51, 0, 0], Add_port [8, 52, 0, 0], Del_port [9, 53, 0, 0]]"

lemma example_ports: "strtol10 [char_of (51 :: nat)] = (3, False)" "strtol10 [char_of (53 :: nat)] = (5, False)"
  by code_simp+

lemma example_requests:
  "\<forall>r \<in> set example_requests. request_ok (layout example_ctl) r"
  "effect example_ctl example_requests [3, 4] = ([4], [3, 7, 0, 3, 9, - 1])"
  by (simp_all add: example_requests_def example_ctl_def example_layout_def example_ports del: strtol10.simps)

theorem control_connection_witness:
  "\<exists>c. serve 4 example_ctl \<lparr>client = ([2, 7, 51, 0, 0, 1, 8, 52, 0, 0, 2, 9, 53, 0, 0], []), port_mgr = [3, 4]\<rparr>
      = Some (Inr \<lparr>client = c, port_mgr = [4]\<rparr>) \<and> snd c = [3, 7, 0, 3, 9, - 1]"
  using control_connection[OF example_ctl_ok example_requests(1), of "([2, 7, 51, 0, 0, 1, 8, 52, 0, 0, 2, 9, 53, 0, 0], [])" 4 "[3, 4]"]
  unfolding example_requests(2)
  by (simp add: example_stream_def example_requests_def example_ctl_def example_layout_def)

theorem cut_request_aborts_witness:
  "serve 4 example_ctl \<lparr>client = ([2, 7, 51, 0, 0, 1, 8, 52, 0, 0, 2, 9, 53, 0, 0, 2, 9], []), port_mgr = [3, 4]\<rparr> = Some (Inl Aborted)"
  by (rule cut_request_aborts[OF example_ctl_ok example_requests(1), of "Del_port [9, 53, 0, 0]" _ 2])
    (simp_all add: example_stream_def example_requests_def example_ctl_def example_layout_def example_ports del: strtol10.simps)

end
