(* ===== verification/Bmv2_Driver.thy ===== *)
theory Bmv2_Driver
  imports Switch_Driver
begin

text \<open>
  \<^verbatim>\<open>bmv2/main.c\<close>, the driver of the behavioural model: its options and the calls it makes to the simulator before
  it waits.  None of the results of these calls is looked at.
\<close>

datatype bmv2_opt = Opt_bmv2_pdserver string | Opt_bmv2_help | Opt_bmv2_unknown

datatype bmv2_call =
  start_bfn_pd_rpc_server | add_to_rpc_server | p4_pd_init | p4_pd_l2_switch_init string string
| p4_pd_l2_switch_assign_device nat nat

fun parse_options :: "bmv2_opt list \<Rightarrow> string option \<Rightarrow> stop + string option" where
  "parse_options [] pd = Inr pd"
| "parse_options (Opt_bmv2_pdserver s # opts) pd = parse_options opts (Some s)"
| "parse_options (Opt_bmv2_help # opts) pd = Inl (Exited 0)"
| "parse_options (Opt_bmv2_unknown # opts) pd = Inl (Exited 1)"

definition main :: "bmv2_opt list \<Rightarrow> drv_outcome \<times> bmv2_call list" where
  "main opts = (case parse_options opts None of
     Inl e \<Rightarrow> (Stopped e, [])
   | Inr pd \<Rightarrow> (Running, [start_bfn_pd_rpc_server, add_to_rpc_server, p4_pd_init,
       p4_pd_l2_switch_init ''ipc:///tmp/test_bm_learning.ipc'' ''ipc:///tmp/test_bm_ageing.ipc'',
       p4_pd_l2_switch_assign_device 0 10001]))"

section \<open>Result\<close>

fun is_pdserver :: "bmv2_opt \<Rightarrow> bool" where
  "is_pdserver (Opt_bmv2_pdserver s) = True"
| "is_pdserver _ = False"

text \<open>The first option that is not an address decides; an address given with \<^verbatim>\<open>--pd-server\<close> is read and then ignored.\<close>

lemma main_result:
  "main opts = (case dropWhile is_pdserver opts of
     [] \<Rightarrow> main []
   | x # _ \<Rightarrow> (Stopped (Exited (if x = Opt_bmv2_help then 0 else 1)), []))"
proof -
  have *: "(\<exists>p'. parse_options opts p = Inr p') \<and> dropWhile is_pdserver opts = [] \<or>
      (\<exists>x xs. dropWhile is_pdserver opts = x # xs \<and> parse_options opts p = Inl (Exited (if x = Opt_bmv2_help then 0 else 1)))" for p
    by (induction opts p rule: parse_options.induct) auto
  show ?thesis using *[of None] by (elim disjE exE conjE) (simp_all add: main_def del: dropWhile_eq_Nil_conv)
qed

lemma pd_server_ignored: "main (Opt_bmv2_pdserver s # opts) = main opts"
  by (simp add: main_result[of "_ # opts"] main_result[of opts])

end
