(* ===== verification/Bluespec_Paxos.thy ===== *)
theory Bluespec_Paxos
  imports Prelude "HOL-Library.Monad_Syntax"
begin

text \<open>
  The Bluespec version of the roles: the methods of \<^verbatim>\<open>mkPaxos\<close> in \<^verbatim>\<open>bluespec/Paxos.bsv\<close>, and the test bench
  \<^verbatim>\<open>testpaxos.cpp\<close> that calls them through a proxy and waits on a semaphore for the answer.  The actions of a method happen
  at once: registers are read as they were before it.
\<close>

section \<open>The module\<close>

datatype bsv_state = IDLE | PHASE1A | PHASE1B | PHASE2A | PHASE2B | ACCEPT | VALUE_ERROR | FINISH

record bsv_paxos =
  bsv_ballot :: u16
  vballot :: "u16 option"
  bsv_value :: "u32 option"
  count1b :: u16
  count2b :: u16
  hballot :: u16
  hval :: "u32 option"
  delay :: "bsv_state list"

text \<open>Two of the registers have no reset value: \<open>vb\<close> and \<open>hv\<close> are what they hold at first.\<close>

definition mkPaxos :: "u16 option \<Rightarrow> u32 option \<Rightarrow> bsv_paxos" where
  "mkPaxos vb hv = \<lparr>bsv_ballot = 0, vballot = vb, bsv_value = None, count1b = 0, count2b = 0, hballot = 0, hval = hv, delay = []\<rparr>"

text \<open>A method can be called when the queue of eight has room; \<open>None\<close> is a call that waits.\<close>

definition delay_enq :: "bsv_state \<Rightarrow> bsv_paxos \<Rightarrow> bsv_paxos option" where
  "delay_enq ret s = (if length (delay s) < 8 then Some (s\<lparr>delay := delay s @ [ret]\<rparr>) else None)"

definition heard :: "bsv_paxos \<Rightarrow> (bsv_paxos \<times> bsv_state) option" where
  "heard s = (case delay s of [] \<Rightarrow> None | v # vs \<Rightarrow> Some (s\<lparr>delay := vs\<rparr>, v))"

definition handle1A :: "u16 \<Rightarrow> bsv_paxos \<Rightarrow> bsv_paxos option" where
  "handle1A bal s = delay_enq IDLE (if bsv_ballot s \<le> bal then s\<lparr>bsv_ballot := bal\<rparr> else s)"

definition two_of_three :: "u16 \<Rightarrow> bsv_state" where
  "two_of_three c = (if c \<in> {3, 5, 6} then FINISH else IDLE)"

definition handle1B :: "u16 \<Rightarrow> u16 \<Rightarrow> u32 \<Rightarrow> u16 \<Rightarrow> bsv_paxos \<Rightarrow> bsv_paxos option" where
  "handle1B bal vbal val acpt s =
    (if bal = bsv_ballot s \<and> and (push_bit (unat acpt) 1) (count1b s) = 0 then
       let cur_count = or (push_bit (unat acpt) 1) (count1b s);
           s' = s\<lparr>count1b := cur_count\<rparr>;
           s' = (if hballot s \<le> vbal then s'\<lparr>hballot := vbal, hval := Some val\<rparr> else s')
       in delay_enq (two_of_three cur_count) s'
     else delay_enq IDLE s)"

definition handle2A :: "u16 \<Rightarrow> u32 \<Rightarrow> bsv_paxos \<Rightarrow> bsv_paxos option" where
  "handle2A bal val s =
    (if bsv_ballot s \<le> bal then delay_enq ACCEPT (s\<lparr>bsv_ballot := bal, vballot := Some bal, bsv_value := Some val\<rparr>)
     else delay_enq IDLE s)"

text \<open>The assignment of \<open>VALUE_ERROR\<close> comes before the one that depends on the count, which has a default.\<close>

definition handle2B :: "u16 \<Rightarrow> u32 \<Rightarrow> u16 \<Rightarrow> bsv_paxos \<Rightarrow> bsv_paxos option" where
  "handle2B bal val acpt s =
    (if bal = bsv_ballot s then
       if and (push_bit (unat acpt) 1) (count2b s) = 0 then
         let cur_count = or (push_bit (unat acpt) 1) (count2b s);
             (ret, v) = (case bsv_value s of None \<Rightarrow> (IDLE, Some val) | Some v \<Rightarrow> (if v \<noteq> val then VALUE_ERROR else IDLE, Some v));
             ret = two_of_three cur_count
         in delay_enq ret (s\<lparr>count2b := cur_count, bsv_value := v\<rparr>)
       else delay_enq IDLE s
     else if bsv_ballot s < bal then
       delay_enq IDLE (s\<lparr>bsv_ballot := bal, bsv_value := Some val, count2b := push_bit (unat acpt) 1\<rparr>)
     else delay_enq IDLE s)"

section \<open>The test bench\<close>

text \<open>Each of the functions calls a method and waits for the semaphore, which \<^verbatim>\<open>heard\<close> posts; \<open>None\<close> when it would
  wait for ever.  The answers are collected.\<close>

definition wait_heard :: "bsv_paxos option \<Rightarrow> bsv_state list \<Rightarrow> (bsv_paxos \<times> bsv_state list) option" where
  "wait_heard r out = (case r of None \<Rightarrow> None | Some s \<Rightarrow> map_option (\<lambda>(s, v). (s, out @ [v])) (heard s))"

type_synonym bench = "bsv_paxos \<times> bsv_state list"

definition send1Amessage :: "u16 \<Rightarrow> bench \<Rightarrow> bench option" where
  "send1Amessage v = (\<lambda>(s, out). wait_heard (handle1A v s) out)"

definition send1Bmessage :: "u16 \<Rightarrow> u16 \<Rightarrow> u32 \<Rightarrow> u16 \<Rightarrow> bench \<Rightarrow> bench option" where
  "send1Bmessage b vb v a = (\<lambda>(s, out). wait_heard (handle1B b vb v a s) out)"

definition send2Bmessage :: "u16 \<Rightarrow> u32 \<Rightarrow> u16 \<Rightarrow> bench \<Rightarrow> bench option" where
  "send2Bmessage b v a = (\<lambda>(s, out). wait_heard (handle2B b v a s) out)"

definition main :: "bsv_paxos \<Rightarrow> bench option" where
  "main s = do {
     b \<leftarrow> send1Amessage 1 (s, []);
     b \<leftarrow> send1Bmessage 1 0 0 1 b;
     b \<leftarrow> send1Bmessage 1 0 0 2 b;
     b \<leftarrow> send2Bmessage 1 42 0 b;
     b \<leftarrow> send2Bmessage 1 42 0 b;
     send2Bmessage 1 42 1 b }"

section \<open>Properties\<close>

lemma test_bench_result:
  "\<exists>s. main (mkPaxos vb hv) = Some (s, [IDLE, IDLE, FINISH, IDLE, IDLE, FINISH]) \<and> bsv_value s = Some 42 \<and> count2b s = 3"
  by (simp add: main_def send1Amessage_def send1Bmessage_def send2Bmessage_def wait_heard_def handle1A_def handle1B_def
      handle2B_def delay_enq_def heard_def mkPaxos_def two_of_three_def Let_def)

text \<open>The answers to accepted messages of the current ballot, by the rule of the learner: the second of the three acceptors
  to be heard of finishes.\<close>

fun learner_answers :: "u16 set \<Rightarrow> (u16 \<times> u32) list \<Rightarrow> bsv_state list" where
  "learner_answers A [] = []"
| "learner_answers A ((a, v) # rs) = (if a \<notin> A \<and> card A = 1 then FINISH else IDLE) # learner_answers (insert a A) rs"

fun send2Bmessages :: "u16 \<Rightarrow> (u16 \<times> u32) list \<Rightarrow> bench \<Rightarrow> bench option" where
  "send2Bmessages bal [] b = Some b"
| "send2Bmessages bal ((a, v) # rs) b = do { b \<leftarrow> send2Bmessage bal v a b; send2Bmessages bal rs b }"

text \<open>The register as a set of acceptors.\<close>

definition acceptor_bits :: "u16 set \<Rightarrow> u16" where
  "acceptor_bits A = (if 0 \<in> A then 1 else 0) + (if 1 \<in> A then 2 else 0) + (if 2 \<in> A then 4 else 0)"

lemma acceptor_cases:
  fixes a :: u16
  assumes "a < 3"
  obtains "a = 0" | "a = 1" | "a = 2"
proof -
  have "unat a < 3" using assms by (simp add: word_less_nat_alt)
  then consider "unat a = 0" | "unat a = 1" | "unat a = 2" by linarith
  moreover have k: "a = of_nat k" if "unat a = k" for k using that by auto
  ultimately show thesis using that k[of 0] k[of 1] k[of 2] by cases simp_all
qed

lemma acceptor_bits_insert:
  assumes "a < 3" "A \<subseteq> {0, 1, 2}"
  shows "and (2 ^ unat a) (acceptor_bits A) = 0 \<longleftrightarrow> a \<notin> A"
    "or (2 ^ unat a) (acceptor_bits A) = acceptor_bits (insert a A)"
  using assms(1) by (rule acceptor_cases; simp add: acceptor_bits_def)+

lemma two_of_three_bits:
  assumes "A \<subseteq> {0, 1, 2}" "a < 3" "a \<notin> A"
  shows "two_of_three (acceptor_bits (insert a A)) = (if card A = 1 then FINISH else IDLE)"
proof -
  have "A \<in> Pow {0, 1, 2}" using assms(1) by simp
  then have "A \<in> {{}, {0}, {1}, {2}, {0, 1}, {0, 2}, {1, 2}, {0, 1, 2}}" by (auto simp: Pow_insert)
  then show ?thesis using acceptor_cases[OF assms(2)] assms(3) by (elim insertE emptyE) (auto simp: acceptor_bits_def two_of_three_def)
qed

lemma send2B_current:
  assumes "bsv_ballot s = bal" "delay s = []" "count2b s = acceptor_bits A" "A \<subseteq> {0, 1, 2}" "a < 3"
  shows "\<exists>s'. send2Bmessage bal v a (s, out) = Some (s', out @ [if a \<notin> A \<and> card A = 1 then FINISH else IDLE])
    \<and> bsv_ballot s' = bal \<and> delay s' = [] \<and> count2b s' = acceptor_bits (insert a A)
    \<and> bsv_value s' = (if a \<in> A then bsv_value s else case bsv_value s of None \<Rightarrow> Some v | Some w \<Rightarrow> Some w)"
  using assms two_of_three_bits[OF assms(4,5)]
  by (simp add: send2Bmessage_def wait_heard_def handle2B_def delay_enq_def heard_def acceptor_bits_insert insert_absorb Let_def
      split: option.split)

lemma send2Bmessages_answers:
  assumes "bsv_ballot s = bal" "delay s = []" "count2b s = acceptor_bits A" "A \<subseteq> {0, 1, 2}" "\<forall>(a, v) \<in> set rs. a < 3"
  shows "\<exists>s'. send2Bmessages bal rs (s, out) = Some (s', out @ learner_answers A rs)
    \<and> (bsv_value s \<noteq> None \<longrightarrow> bsv_value s' = bsv_value s)"
  using assms
proof (induction rs arbitrary: s out A)
  case (Cons r rs)
  obtain a v where r: "r = (a, v)" by (cases r)
  then have a: "a < 3" using Cons.prems(5) by simp
  have A: "insert a A \<subseteq> {0, 1, 2}" by (rule acceptor_cases[OF a]) (use Cons.prems(4) in simp_all)
  let ?out = "out @ [if a \<notin> A \<and> card A = 1 then FINISH else IDLE]"
  obtain s1 where s1: "send2Bmessage bal v a (s, out) = Some (s1, ?out)"
    "bsv_ballot s1 = bal" "delay s1 = []" "count2b s1 = acceptor_bits (insert a A)"
    and v1: "bsv_value s1 = (if a \<in> A then bsv_value s else case bsv_value s of None \<Rightarrow> Some v | Some w \<Rightarrow> Some w)"
    using send2B_current[OF Cons.prems(1-4) a, of v out] by (elim exE conjE) (rule that)
  have rs: "\<forall>(a, v) \<in> set rs. a < 3" using Cons.prems(5) by simp
  obtain s2 where s2: "send2Bmessages bal rs (s1, ?out) = Some (s2, ?out @ learner_answers (insert a A) rs)"
    and v2: "bsv_value s1 \<noteq> None \<longrightarrow> bsv_value s2 = bsv_value s1"
    using Cons.IH[OF s1(2-4) A rs, of ?out] by (elim exE conjE) (rule that)
  have "bsv_value s \<noteq> None \<longrightarrow> bsv_value s2 = bsv_value s" using v1 v2 by (cases "bsv_value s") (simp_all split: if_splits)
  moreover have "send2Bmessages bal (r # rs) (s, out) = Some (s2, out @ learner_answers A (r # rs))"
    using s1(1) s2 by (simp add: r)
  ultimately show ?case by (intro exI[of _ s2] conjI)
qed simp

text \<open>C35: The Bluespec learner: of the accepted messages of its ballot it answers exactly the first from a second acceptor with
  \<open>FINISH\<close>, and it keeps the value of the first message; messages with another value are counted like the
  others and never answered with \<open>VALUE_ERROR\<close>.\<close>

theorem bsv_learner_answers:
  assumes "bsv_ballot s = bal" "delay s = []" "count2b s = 0" "bsv_value s = None" "\<forall>(a, v) \<in> set ((a0, v0) # rs). a < 3"
  shows "\<exists>s'. send2Bmessages bal ((a0, v0) # rs) (s, []) = Some (s', learner_answers {} ((a0, v0) # rs)) \<and> bsv_value s' = Some v0"
proof -
  have a0: "a0 < 3" using assms(5) by simp
  have 0: "count2b s = acceptor_bits {}" using assms(3) by (simp add: acceptor_bits_def)
  obtain s1 where s1: "send2Bmessage bal v0 a0 (s, []) = Some (s1, [IDLE])" "bsv_ballot s1 = bal" "delay s1 = []"
    "count2b s1 = acceptor_bits {a0}" "bsv_value s1 = Some v0"
    using send2B_current[OF assms(1,2) 0 _ a0, of v0 "[]"] assms(4) by auto
  have "{a0} \<subseteq> {0, 1, 2}" using acceptor_cases[OF a0] by blast
  from send2Bmessages_answers[OF s1(2-4) this, of rs "[IDLE]"] s1 assms(5) show ?thesis by auto
qed

text \<open>Two acceptors that report different values finish the ballot.\<close>

theorem bsv_learner_answers_witness:
  "\<exists>s. send2Bmessages 0 [(0, 42), (1, 43), (2, 42)] (mkPaxos None None, []) = Some (s, [IDLE, FINISH, IDLE]) \<and> bsv_value s = Some 42"
  using bsv_learner_answers[of "mkPaxos None None" 0 0 42 "[(1, 43), (2, 42)]"] by (simp add: mkPaxos_def)

end
