(* ===== verification/Khash_Base.thy ===== *)
theory Khash_Base
  imports Prelude
begin

text \<open>
  The hash table that libpaxos is built on, \<^verbatim>\<open>dpdk/include/khash.h\<close>, first part: the two bits kept for
  every bucket, the sizes, the order in which buckets are probed, and the hash functions.
\<close>

type_synonym khint_t = u32

section \<open>Flags\<close>

text \<open>Sixteen buckets share a word: two bits each, the lower one for deleted and the upper one for empty.\<close>

type_synonym kh_flags = "khint_t \<Rightarrow> u32"

definition flag_shift :: "khint_t \<Rightarrow> nat" where
  "flag_shift i = unat (push_bit 1 (and i 0xf))"

definition ac_isempty :: "kh_flags \<Rightarrow> khint_t \<Rightarrow> bool" where
  "ac_isempty flag i \<longleftrightarrow> and (drop_bit (flag_shift i) (flag (drop_bit 4 i))) 2 \<noteq> 0"

definition ac_isdel :: "kh_flags \<Rightarrow> khint_t \<Rightarrow> bool" where
  "ac_isdel flag i \<longleftrightarrow> and (drop_bit (flag_shift i) (flag (drop_bit 4 i))) 1 \<noteq> 0"

definition ac_iseither :: "kh_flags \<Rightarrow> khint_t \<Rightarrow> bool" where
  "ac_iseither flag i \<longleftrightarrow> and (drop_bit (flag_shift i) (flag (drop_bit 4 i))) 3 \<noteq> 0"

definition ac_set_isempty_false :: "khint_t \<Rightarrow> kh_flags \<Rightarrow> kh_flags" where
  "ac_set_isempty_false i flag = flag(drop_bit 4 i := and (flag (drop_bit 4 i)) (not (push_bit (flag_shift i) 2)))"

definition ac_set_isboth_false :: "khint_t \<Rightarrow> kh_flags \<Rightarrow> kh_flags" where
  "ac_set_isboth_false i flag = flag(drop_bit 4 i := and (flag (drop_bit 4 i)) (not (push_bit (flag_shift i) 3)))"

definition ac_set_isdel_true :: "khint_t \<Rightarrow> kh_flags \<Rightarrow> kh_flags" where
  "ac_set_isdel_true i flag = flag(drop_bit 4 i := or (flag (drop_bit 4 i)) (push_bit (flag_shift i) 1))"

definition ac_fsize :: "khint_t \<Rightarrow> khint_t" where
  "ac_fsize m = (if m < 16 then 1 else drop_bit 4 m)"

text \<open>\<^verbatim>\<open>memset(flags, 0xaa, __ac_fsize(m) * sizeof(khint32_t))\<close>.\<close>

definition memset_flags :: "khint_t \<Rightarrow> kh_flags \<Rightarrow> kh_flags" where
  "memset_flags m flag = (\<lambda>j. if j < ac_fsize m then 0xaaaaaaaa else flag j)"

text \<open>The flags as bits.\<close>

lemma flag_shift: "flag_shift i = 2 * (unat i mod 16)"
proof -
  have "and i 0xf = take_bit 4 i" by (simp add: take_bit_eq_mask mask_numeral)
  then have "flag_shift i = unat (take_bit 4 i * 2)" by (simp add: flag_shift_def push_bit_eq_mult)
  also have "\<dots> = 2 * (unat i mod 16)"
    by (simp add: unat_mult_lem[THEN iffD1] unsigned_take_bit_eq take_bit_eq_mod unat_word_ariths)
  finally show ?thesis .
qed

lemma flag_shift_less: "flag_shift i + 1 < 32" by (simp add: flag_shift)

lemma flag_bits:
  "ac_isempty f i \<longleftrightarrow> bit (f (drop_bit 4 i)) (flag_shift i + 1)"
  "ac_isdel f i \<longleftrightarrow> bit (f (drop_bit 4 i)) (flag_shift i)"
  "ac_iseither f i \<longleftrightarrow> ac_isempty f i \<or> ac_isdel f i"
proof -
  have 1: "and w 1 \<noteq> 0 \<longleftrightarrow> bit w 0" and 2: "and w 2 \<noteq> 0 \<longleftrightarrow> bit w 1" for w :: u32
    using and_exp_eq_0_iff_not_bit[of w 0] and_exp_eq_0_iff_not_bit[of w 1] by simp_all
  have "and w 3 = or (and w 1) (and w 2)" for w :: u32 by (simp flip: bit.conj_disj_distrib)
  then have 3: "and w 3 \<noteq> 0 \<longleftrightarrow> bit w 0 \<or> bit w 1" for w :: u32 using 1[of w] 2[of w] by (simp add: or_eq_0_iff)
  show "ac_isempty f i \<longleftrightarrow> bit (f (drop_bit 4 i)) (flag_shift i + 1)" "ac_isdel f i \<longleftrightarrow> bit (f (drop_bit 4 i)) (flag_shift i)"
    "ac_iseither f i \<longleftrightarrow> ac_isempty f i \<or> ac_isdel f i"
    unfolding ac_isempty_def ac_isdel_def ac_iseither_def 1 2 3 by (auto simp: bit_drop_bit_eq add.commute)
qed

lemma same_flag: "drop_bit 4 i = drop_bit 4 j \<and> flag_shift i = flag_shift j \<longleftrightarrow> i = j"
proof
  assume "drop_bit 4 i = drop_bit 4 j \<and> flag_shift i = flag_shift j"
  then have "unat (drop_bit 4 i) = unat (drop_bit 4 j)" "unat i mod 16 = unat j mod 16" by (simp_all add: flag_shift)
  then have "unat i div 16 = unat j div 16" "unat i mod 16 = unat j mod 16"
    by (simp_all add: unat_div drop_bit_eq_div)
  then have "unat i = unat j" by (metis div_mult_mod_eq)
  then show "i = j" by (simp add: word_unat_eq_iff)
qed simp

lemma other_flag:
  assumes "i \<noteq> j" "drop_bit 4 i = drop_bit 4 j"
  shows "flag_shift i \<noteq> flag_shift j" "flag_shift i + 1 \<noteq> flag_shift j" "flag_shift i \<noteq> flag_shift j + 1"
proof -
  show "flag_shift i \<noteq> flag_shift j" using same_flag[of i j] assms by auto
  have "2 * a + 1 \<noteq> 2 * b" for a b :: nat by presburger
  then show "flag_shift i + 1 \<noteq> flag_shift j" "flag_shift i \<noteq> flag_shift j + 1" unfolding flag_shift by metis+
qed

lemma flag_mask_bits:
  fixes m n :: nat
  assumes "n < 32"
  shows "bit (push_bit m 1 :: u32) n \<longleftrightarrow> n = m" "bit (push_bit m 2 :: u32) n \<longleftrightarrow> n = m + 1"
    "bit (push_bit m 3 :: u32) n \<longleftrightarrow> n = m \<or> n = m + 1"
proof -
  have 3: "(3 :: u32) = or 1 2" by simp
  show 1: "bit (push_bit m 1 :: u32) n \<longleftrightarrow> n = m" and 2: "bit (push_bit m 2 :: u32) n \<longleftrightarrow> n = m + 1"
    using assms bit_exp_iff[where 'a = u32, of m n] bit_exp_iff[where 'a = u32, of "m + 1" n]
    by (simp_all add: push_bit_eq_mult possible_bit_word eq_commute[of n])
  then show "bit (push_bit m 3 :: u32) n \<longleftrightarrow> n = m \<or> n = m + 1" unfolding 3 push_bit_or bit_or_iff by simp
qed

lemma flag_write:
  assumes "\<And>n. n < 32 \<Longrightarrow> bit w n = (if n = flag_shift i then d else if n = flag_shift i + 1 then e else bit (f (drop_bit 4 i)) n)"
  shows "ac_isempty (f(drop_bit 4 i := w)) j \<longleftrightarrow> (if i = j then e else ac_isempty f j)"
    "ac_isdel (f(drop_bit 4 i := w)) j \<longleftrightarrow> (if i = j then d else ac_isdel f j)"
  using assms[of "flag_shift j"] assms[of "flag_shift j + 1"] flag_shift_less[of j] other_flag[of i j]
  by (cases "i = j"; cases "drop_bit 4 i = drop_bit 4 j"; simp add: flag_bits)+

lemma set_isempty_false [simp]:
  "ac_isempty (ac_set_isempty_false i f) j \<longleftrightarrow> j \<noteq> i \<and> ac_isempty f j"
  "ac_isdel (ac_set_isempty_false i f) j \<longleftrightarrow> ac_isdel f j"
  unfolding ac_set_isempty_false_def
  by (subst flag_write[where d = "ac_isdel f i" and e = False]; auto simp: bit_and_iff bit_or_iff bit_not_iff flag_mask_bits flag_bits)+

lemma set_isboth_false [simp]:
  "ac_isempty (ac_set_isboth_false i f) j \<longleftrightarrow> j \<noteq> i \<and> ac_isempty f j"
  "ac_isdel (ac_set_isboth_false i f) j \<longleftrightarrow> j \<noteq> i \<and> ac_isdel f j"
  unfolding ac_set_isboth_false_def
  by (subst flag_write[where d = False and e = False]; auto simp: bit_and_iff bit_or_iff bit_not_iff flag_mask_bits flag_bits)+

lemma set_isdel_true [simp]:
  "ac_isempty (ac_set_isdel_true i f) j \<longleftrightarrow> ac_isempty f j"
  "ac_isdel (ac_set_isdel_true i f) j \<longleftrightarrow> j = i \<or> ac_isdel f j"
  unfolding ac_set_isdel_true_def
  by (subst flag_write[where d = True and e = "ac_isempty f i"]; auto simp: bit_or_iff bit_exp_iff possible_bit_word flag_bits)+

lemma unat_exp: "k < 32 \<Longrightarrow> unat (2 ^ k :: u32) = 2 ^ k"
proof -
  assume "k < 32"
  then have "(2 :: nat) ^ k < 2 ^ 32" by (rule power_strict_increasing) simp
  then have "unat (of_nat (2 ^ k) :: u32) = 2 ^ k" unfolding unat_of_nat by simp
  then show ?thesis by simp
qed

lemma unat_u32: "unat (w :: u32) < 2 ^ 32" using unsigned_less[of w] by simp

lemma memset_flags [simp]:
  assumes "i < n" "n = 2 ^ k"
  shows "ac_isempty (memset_flags n f) i" "\<not> ac_isdel (memset_flags n f) i"
proof -
  have "drop_bit 4 i < ac_fsize n"
  proof (cases "n < 16")
    case True
    then have "unat i < 16" using assms(1) by (simp add: word_less_nat_alt)
    then show ?thesis using True by (simp add: ac_fsize_def drop_bit_eq_div unat_div word_less_nat_alt)
  next
    case False
    then have "unat (2 ^ k :: u32) \<ge> 16" by (simp add: assms(2) word_less_nat_alt)
    moreover have k: "k < 32" 
    proof -
      have "(2 ^ k :: u32) \<noteq> 0" using assms by (metis word_not_simps(1))
      then show ?thesis by (simp add: linorder_not_le)
    qed
    ultimately have "(2 :: nat) ^ 4 \<le> 2 ^ k" by (simp add: unat_exp)
    then have "(4 :: nat) \<le> k" using power_le_imp_le_exp[of 2 4 k] by simp
    then obtain d where "k = 4 + d" using le_Suc_ex by blast
    moreover have "unat n = 2 ^ k" using assms(2) k by (simp add: unat_exp)
    ultimately have "unat n = 2 ^ d * 16" "unat i < 2 ^ d * 16" using assms(1) by (simp_all add: word_less_nat_alt power_add)
    then have "unat i div 16 < 2 ^ d" "unat n div 16 = 2 ^ d" by (simp_all add: less_mult_imp_div_less)
    then show ?thesis using False by (simp add: ac_fsize_def drop_bit_eq_div unat_div word_less_nat_alt)
  qed
  then have w: "memset_flags n f (drop_bit 4 i) = 0xaaaaaaaa" by (simp add: memset_flags_def)
  have "\<forall>m < 16. bit (0xaaaaaaaa :: u32) (2 * m + 1) \<and> \<not> bit (0xaaaaaaaa :: u32) (2 * m)" by code_simp
  then show "ac_isempty (memset_flags n f) i" "\<not> ac_isdel (memset_flags n f) i"
    by (simp_all add: flag_bits w flag_shift)
qed

section \<open>Sizes\<close>

definition kroundup32 :: "u32 \<Rightarrow> u32" where
  "kroundup32 x = (let x = x - 1;
     x = or x (drop_bit 1 x);
     x = or x (drop_bit 2 x);
     x = or x (drop_bit 4 x);
     x = or x (drop_bit 8 x);
     x = or x (drop_bit 16 x) in x + 1)"

text \<open>\<^verbatim>\<open>(khint_t)(n * __ac_HASH_UPPER + 0.5)\<close> with the factor 0.77: the double is exact to far less than the hundredth by
  which \<open>0.77 * n + 0.5\<close> misses an integer when \<open>n\<close> is a power of two.\<close>

definition hash_upper :: "khint_t \<Rightarrow> khint_t" where
  "hash_upper n = of_nat ((77 * unat n + 50) div 100)"

lemma ex_less_add: "(\<exists>d<m + n. P d) \<longleftrightarrow> (\<exists>d<m. P d) \<or> (\<exists>d<n. P (m + d))" for m n :: nat
proof
  assume "\<exists>d<m + n. P d"
  then obtain d where d: "d < m + n" "P d" by blast
  show "(\<exists>d<m. P d) \<or> (\<exists>d<n. P (m + d))"
  proof (cases "d < m")
    case False
    then have "d - m < n" "P (m + (d - m))" using d by auto
    then show ?thesis by blast
  qed (use d in blast)
qed (auto intro: trans_less_add1 add_strict_left_mono)

lemma smear:
  fixes y z :: u32
  assumes "\<And>i. bit z i \<longleftrightarrow> (\<exists>d<m. bit y (i + d))" "n = m + m"
  shows "bit (or z (drop_bit m z)) i \<longleftrightarrow> (\<exists>d<n. bit y (i + d))"
  using ex_less_add[of m m "\<lambda>d. bit y (i + d)"] by (simp add: assms bit_or_iff bit_drop_bit_eq ac_simps)

lemma kroundup32_power:
  obtains k where "k \<le> 32" "kroundup32 x = 2 ^ k" "unat (x - 1) < 2 ^ k" "k = 0 \<or> 2 ^ (k - 1) \<le> unat (x - 1)"
proof -
  define y where "y = x - 1"
  define r where "r = kroundup32 x - 1"
  have 1: "bit y i \<longleftrightarrow> (\<exists>d<1. bit y (i + d))" for i by simp
  note 2 = smear[OF 1, where n = 2, simplified] note 4 = smear[OF 2, where n = 4, simplified]
  note 8 = smear[OF 4, where n = 8, simplified] note 16 = smear[OF 8, where n = 16, simplified]
  note 32 = smear[OF 16, where n = 32, simplified]
  have bits: "bit r i \<longleftrightarrow> (\<exists>d<32. bit y (i + d))" for i
    unfolding 32[symmetric] by (simp add: r_def y_def kroundup32_def Let_def)
  obtain k where k: "k \<le> 32" "unat y < 2 ^ k" "k = 0 \<or> 2 ^ (k - 1) \<le> unat y"
  proof (cases "y = 0")
    case True then show ?thesis using that[of 0] by simp
  next
    case False
    then have "1 \<le> unat y" by (simp add: Suc_le_eq unat_gt_0)
    then obtain m where m: "2 ^ m \<le> unat y" "unat y < 2 ^ (m + 1)" using ex_power_ivl1[of 2 "unat y"] by auto
    have "(2 :: nat) ^ m < 2 ^ 32" using m(1) unat_u32[of y] by simp
    then have "m < 32" using power_less_imp_less_exp[of 2 m 32] by simp
    then show ?thesis using that[of "m + 1"] m by simp
  qed
  have "bit r i \<longleftrightarrow> i < k" for i
  proof
    assume "bit r i"
    then obtain d where d: "bit y (i + d)" using bits by blast
    show "i < k"
    proof (rule ccontr)
      assume "\<not> i < k"
      then have "take_bit (i + d) (unat y) = unat y" using k(2)
        by (intro take_bit_nat_eq_self) (meson linorder_not_le less_le_trans one_le_numeral power_increasing trans_le_add1)
      moreover have "bit (unat y) (i + d)" using d by (simp add: bit_unsigned_iff bit_imp_possible_bit)
      ultimately show False by (metis bit_take_bit_iff less_irrefl)
    qed
  next
    assume i: "i < k"
    then have top: "2 ^ (k - 1) \<le> unat y" using k by auto
    have "(2 :: nat) ^ k = 2 * 2 ^ (k - 1)" using i by (cases k) simp_all
    then have "unat y div 2 ^ (k - 1) = 1" using k(2) top by (intro div_nat_eqI) simp_all
    then have "bit (unat y) (k - 1)" by (simp add: bit_iff_odd)
    then show "bit r i" unfolding bits using i k(1) by (intro exI[of _ "k - 1 - i"]) (simp add: bit_unsigned_iff)
  qed
  then have "r = mask k" using k(1) by (auto simp: bit_eq_iff bit_mask_iff possible_bit_word)
  then have "kroundup32 x = 2 ^ k" by (simp add: r_def mask_eq_exp_minus_1)
  then show thesis using that k unfolding y_def by blast
qed

lemma hash_upper:
  assumes "2 \<le> k" "k < 32" "n = 2 ^ k"
  shows "unat (hash_upper n) = (77 * 2 ^ k + 50) div 100" "unat (hash_upper n) < 2 ^ k" "2 ^ k < 2 * unat (hash_upper n)"
proof -
  have k: "(4 :: nat) \<le> 2 ^ k" using power_increasing[of 2 k "2 :: nat"] assms(1) by simp
  have "(2 :: nat) ^ k < 2 ^ 32" by (rule power_strict_increasing) (use assms(2) in simp_all)
  then show 1: "unat (hash_upper n) = (77 * 2 ^ k + 50) div 100"
    using assms(2,3) by (simp add: hash_upper_def unat_exp unat_of_nat)
  show "unat (hash_upper n) < 2 ^ k" "2 ^ k < 2 * unat (hash_upper n)" unfolding 1 using k by linarith+
qed

section \<open>Probing\<close>

text \<open>The bucket looked at after \<open>s\<close> steps of \<^verbatim>\<open>i = (i + (++step)) & mask\<close> in a table of \<open>2 ^ k\<close> buckets.\<close>

definition tri :: "nat \<Rightarrow> nat" where
  "tri s = s * (s + 1) div 2"

definition probe :: "nat \<Rightarrow> u32 \<Rightarrow> nat \<Rightarrow> khint_t" where
  "probe k h s = take_bit k (h + of_nat (tri s))"

lemma tri_Suc: "tri (Suc s) = tri s + Suc s"
  by (simp add: tri_def)

lemma and_mask: "k < 32 \<Longrightarrow> and x ((2 ^ k :: u32) - 1) = take_bit k x"
  by (simp add: take_bit_eq_mask mask_eq_exp_minus_1)

lemma probe_0: "probe k h 0 = take_bit k h" by (simp add: probe_def tri_def)

lemma tri_eq: "2 * tri s = s * (s + 1)"
  by (simp add: tri_def)

text \<open>Triangular numbers are different modulo a power of two.\<close>

lemma tri_inj:
  assumes "s < t" "t < 2 ^ k"
  shows "tri s mod 2 ^ k \<noteq> tri t mod 2 ^ k"
proof
  assume "tri s mod 2 ^ k = tri t mod 2 ^ k"
  have "tri s \<le> tri t" using assms(1) unfolding tri_def by (intro div_le_mono mult_le_mono) simp_all
  then have "2 ^ k dvd tri t - tri s" using \<open>tri s mod 2 ^ k = tri t mod 2 ^ k\<close> by (metis mod_eq_dvd_iff_nat)
  then have "2 ^ Suc k dvd 2 * (tri t - tri s)" by simp
  moreover have "2 * (tri t - tri s) = (t - s) * (t + s + 1)"
  proof -
    obtain d where d: "t = s + d" using assms(1) less_imp_add_positive by metis
    have "2 * (tri t - tri s) = t * (t + 1) - s * (s + 1)" by (simp add: diff_mult_distrib2 tri_eq)
    then show ?thesis unfolding d by (simp add: algebra_simps)
  qed
  ultimately have dvd: "2 ^ Suc k dvd (t - s) * (t + s + 1)" by simp
  show False
  proof (cases "odd (t - s)")
    case True
    then have "coprime (2 ^ Suc k) (t - s)" by simp
    from coprime_dvd_mult_right_iff[OF this] have "2 ^ Suc k dvd t + s + 1" using dvd by blast
    then have "2 ^ Suc k \<le> t + s + 1" by (rule dvd_imp_le) simp
    then show False using assms by simp
  next
    case False
    then have "odd (t + s + 1)" using assms(1) by presburger
    then have "coprime (2 ^ Suc k) (t + s + 1)" by simp
    from coprime_dvd_mult_left_iff[OF this] have "2 ^ Suc k dvd t - s" using dvd by blast
    then have "2 ^ Suc k \<le> t - s" by (rule dvd_imp_le) (use assms in simp)
    then show False using assms by simp
  qed
qed

lemma unat_mod:
  assumes "k < 32"
  shows "unat (take_bit k x :: u32) = unat x mod 2 ^ k" "unat (x + y :: u32) mod 2 ^ k = (unat x + unat y) mod 2 ^ k"
    "unat (of_nat m :: u32) mod 2 ^ k = m mod 2 ^ k"
proof -
  have cut: "m mod 2 ^ 32 mod 2 ^ k = m mod 2 ^ k" for m :: nat
    using assms by (intro mod_mod_cancel le_imp_power_dvd) simp
  show "unat (take_bit k x) = unat x mod 2 ^ k" unfolding unsigned_take_bit_eq by (rule take_bit_eq_mod)
  show "unat (x + y) mod 2 ^ k = (unat x + unat y) mod 2 ^ k" using cut[of "unat x + unat y"] by (simp add: unat_word_ariths)
  show "unat (of_nat m :: u32) mod 2 ^ k = m mod 2 ^ k" using cut[of m] by (simp add: unat_of_nat)
qed

lemma unat_probe: "k < 32 \<Longrightarrow> unat (probe k h s) = (unat h + tri s) mod 2 ^ k"
  by (simp add: probe_def unat_mod mod_add_right_eq[of _ "unat (of_nat (tri s) :: u32)", symmetric]) (simp add: mod_add_right_eq)

lemma probe_Suc:
  assumes "k < 32" shows "take_bit k (probe k h s + of_nat (Suc s)) = probe k h (Suc s)"
proof -
  have "unat (take_bit k (probe k h s + of_nat (Suc s))) = (unat (probe k h s) + unat (of_nat (Suc s) :: u32)) mod 2 ^ k"
    unfolding unat_mod[OF assms] ..
  also have "\<dots> = ((unat h + tri s) mod 2 ^ k + Suc s mod 2 ^ k) mod 2 ^ k"
    by (subst mod_add_right_eq[symmetric]) (simp only: unat_mod[OF assms] unat_probe[OF assms])
  also have "\<dots> = unat (probe k h (Suc s))" by (simp add: unat_probe[OF assms] tri_Suc mod_add_eq add.assoc)
  finally show ?thesis by (simp add: word_unat_eq_iff)
qed

lemma probe_less: "k < 32 \<Longrightarrow> probe k h s < 2 ^ k"
  by (simp add: word_less_nat_alt unat_exp unat_probe)

lemma probe_inj:
  assumes "k < 32" shows "inj_on (probe k h) {..<2 ^ k}"
proof (rule linorder_inj_onI)
  fix s t :: nat
  assume *: "s < t" "t \<in> {..<2 ^ k}"
  show "probe k h s \<noteq> probe k h t"
  proof
    assume "probe k h s = probe k h t"
    then have "(unat h + tri s) mod 2 ^ k = (unat h + tri t) mod 2 ^ k" using unat_probe[OF assms] by metis
    then have "tri s mod 2 ^ k = tri t mod 2 ^ k" by (simp add: nat_mod_eq_iff)
    then show False using tri_inj[of s t k] * by simp
  qed
qed auto

text \<open>Every bucket is probed, so a search for a bucket ends.\<close>

lemma buckets_less: "k < 32 \<Longrightarrow> {i :: khint_t. i < 2 ^ k} = of_nat ` {..<2 ^ k}"
proof (intro equalityI subsetI)
  fix i :: khint_t
  assume k: "k < 32"
  assume "i \<in> {i. i < 2 ^ k}"
  then have "unat i \<in> {..<2 ^ k}" using k by (simp add: word_less_nat_alt unat_exp)
  then show "i \<in> of_nat ` {..<2 ^ k}" by (intro image_eqI[of _ _ "unat i"]) simp
next
  fix i :: khint_t
  assume k: "k < 32"
  assume "i \<in> of_nat ` {..<2 ^ k}"
  then obtain m :: nat where m: "i = of_nat m" "m < 2 ^ k" by auto
  have "(2 :: nat) ^ k < 2 ^ 32" by (rule power_strict_increasing) (use k in simp_all)
  then have "unat i = m" using m by (simp add: unat_of_nat)
  then show "i \<in> {i. i < 2 ^ k}" using m(2) k by (simp add: word_less_nat_alt unat_exp)
qed

lemma card_buckets:
  assumes "k < 32" shows "card {i :: khint_t. i < 2 ^ k} = 2 ^ k"
proof -
  have "(2 :: nat) ^ k < 2 ^ 32" by (rule power_strict_increasing) (use assms in simp_all)
  then have "unat (of_nat m :: u32) = m" if "m < 2 ^ k" for m using that by (simp add: unat_of_nat)
  then have "inj_on (of_nat :: nat \<Rightarrow> u32) {..<2 ^ k}" by (metis inj_onI lessThan_iff)
  then show ?thesis unfolding buckets_less[OF assms] by (simp add: card_image)
qed

lemma probe_onto:
  assumes "k < 32" "i < 2 ^ k"
  obtains s where "s < 2 ^ k" "probe k h s = i"
proof -
  have "probe k h ` {..<2 ^ k} \<subseteq> {i. i < 2 ^ k}" using probe_less[OF assms(1)] by blast
  moreover have "card (probe k h ` {..<2 ^ k}) = 2 ^ k" by (simp add: card_image[OF probe_inj[OF assms(1)]])
  ultimately have "probe k h ` {..<2 ^ k} = {i. i < 2 ^ k}" by (intro card_subset_eq) (simp_all add: card_buckets assms(1))
  then have "i \<in> probe k h ` {..<2 ^ k}" using assms(2) by simp
  then show thesis using that by auto
qed

section \<open>Hash functions\<close>

definition kh_int_hash_func :: "u32 \<Rightarrow> khint_t" where
  "kh_int_hash_func key = key"

definition kh_int_hash_equal :: "u32 \<Rightarrow> u32 \<Rightarrow> bool" where
  "kh_int_hash_equal a b \<longleftrightarrow> a = b"

definition kh_int64_hash_func :: "u64 \<Rightarrow> khint_t" where
  "kh_int64_hash_func key = ucast (xor (xor (drop_bit 33 key) key) (push_bit 11 key))"

definition kh_int64_hash_equal :: "u64 \<Rightarrow> u64 \<Rightarrow> bool" where
  "kh_int64_hash_equal a b \<longleftrightarrow> a = b"

text \<open>A string is the list of its characters before the terminating zero; \<^verbatim>\<open>char\<close> is signed.\<close>

definition ac_X31_hash_string :: "u8 list \<Rightarrow> khint_t" where
  "ac_X31_hash_string s = (case s of [] \<Rightarrow> 0
     | c # s \<Rightarrow> foldl (\<lambda>h c. push_bit 5 h - h + scast c) (scast c) s)"

fun strcmp_0 :: "u8 list \<Rightarrow> u8 list \<Rightarrow> bool" where
  "strcmp_0 [] [] = True"
| "strcmp_0 (a # s) (b # t) = (if a = b then strcmp_0 s t else False)"
| "strcmp_0 _ _ = False"

definition kh_str_hash_func :: "u8 list \<Rightarrow> khint_t" where
  "kh_str_hash_func key = ac_X31_hash_string key"

definition kh_str_hash_equal :: "u8 list \<Rightarrow> u8 list \<Rightarrow> bool" where
  "kh_str_hash_equal a b \<longleftrightarrow> strcmp_0 a b"

definition ac_Wang_hash :: "khint_t \<Rightarrow> khint_t" where
  "ac_Wang_hash key = (let key = key + not (push_bit 15 key);
     key = xor key (drop_bit 10 key);
     key = key + push_bit 3 key;
     key = xor key (drop_bit 6 key);
     key = key + not (push_bit 11 key) in xor key (drop_bit 16 key))"

text \<open>What the table needs of the comparison of keys; the hash function may be any.\<close>

locale khash_key =
  fixes hash_func :: "'k \<Rightarrow> khint_t" and hash_equal :: "'k \<Rightarrow> 'k \<Rightarrow> bool"
  assumes hash_equal: "hash_equal a b \<longleftrightarrow> a = b"

interpretation kh_int: khash_key kh_int_hash_func kh_int_hash_equal
  by unfold_locales (simp add: kh_int_hash_equal_def)

interpretation kh_int2: khash_key ac_Wang_hash kh_int_hash_equal
  by unfold_locales (simp add: kh_int_hash_equal_def)

interpretation kh_int64: khash_key kh_int64_hash_func kh_int64_hash_equal
  by unfold_locales (simp add: kh_int64_hash_equal_def)

interpretation kh_str: khash_key kh_str_hash_func kh_str_hash_equal
proof
  show "kh_str_hash_equal a b \<longleftrightarrow> a = b" for a b
    unfolding kh_str_hash_equal_def by (induction a b rule: strcmp_0.induct) auto
qed

end
