(* ===== verification/Khash.thy ===== *)
theory Khash
  imports Khash_Base
begin

text \<open>
  The hash table of \<^verbatim>\<open>dpdk/include/khash.h\<close>: the functions that \<^verbatim>\<open>__KHASH_IMPL\<close> defines, for a table with values
  (\<^verbatim>\<open>kh_is_map\<close>; a set is a table with values of type \<^verbatim>\<open>unit\<close>).  An array is a function from indices; what lies in
  memory that has not been written is whatever the function has there.  The hash function and the
  comparison of keys are the macro's arguments.  A loop that does not end gives \<open>None\<close>.
\<close>

section \<open>The table\<close>

record ('k, 'v) khash =
  n_buckets :: khint_t
  kh_size :: khint_t
  n_occupied :: khint_t
  upper_bound :: khint_t
  kh_flag :: kh_flags
  kh_key :: "khint_t \<Rightarrow> 'k"
  kh_val :: "khint_t \<Rightarrow> 'v"

text \<open>The outcome of the calls to the allocator in one operation: the new array of flags, whether the arrays could be
  enlarged, and whether they could be cut, which is not checked.\<close>

record kh_alloc =
  kmalloc_flags :: "kh_flags option"
  krealloc_keys :: bool
  krealloc_vals :: bool
  krealloc_shrink :: bool

definition kh_init :: "(khint_t \<Rightarrow> 'k) \<Rightarrow> (khint_t \<Rightarrow> 'v) \<Rightarrow> ('k, 'v) khash" where
  "kh_init ks vs = \<lparr>n_buckets = 0, kh_size = 0, n_occupied = 0, upper_bound = 0, kh_flag = (\<lambda>_. 0), kh_key = ks, kh_val = vs\<rparr>"

text \<open>The flags exist once there are buckets.\<close>

definition kh_clear :: "('k, 'v) khash \<Rightarrow> ('k, 'v) khash" where
  "kh_clear h = (if n_buckets h \<noteq> 0
     then h\<lparr>kh_flag := memset_flags (n_buckets h) (kh_flag h), kh_size := 0, n_occupied := 0\<rparr> else h)"

definition kh_exist :: "('k, 'v) khash \<Rightarrow> khint_t \<Rightarrow> bool" where
  "kh_exist h x \<longleftrightarrow> \<not> ac_iseither (kh_flag h) x"

definition kh_end :: "('k, 'v) khash \<Rightarrow> khint_t" where
  "kh_end h = n_buckets h"

text \<open>\<^verbatim>\<open>kh_foreach\<close>: the entries in the order in which the loop meets them.\<close>

definition kh_foreach :: "('k, 'v) khash \<Rightarrow> ('k \<times> 'v) list" where
  "kh_foreach h = map (\<lambda>i. (kh_key h i, kh_val h i)) (filter (kh_exist h) (map of_nat [0..<unat (kh_end h)]))"

section \<open>Lookup\<close>

partial_function (option) get_loop ::
  "('k \<Rightarrow> 'k \<Rightarrow> bool) \<Rightarrow> ('k, 'v) khash \<Rightarrow> 'k \<Rightarrow> khint_t \<Rightarrow> khint_t \<Rightarrow> khint_t \<Rightarrow> khint_t \<Rightarrow> khint_t option" where
  "get_loop hash_equal h key kmask start i step =
    (if \<not> ac_isempty (kh_flag h) i \<and> (ac_isdel (kh_flag h) i \<or> \<not> hash_equal (kh_key h i) key) then
       let step = step + 1; i = and (i + step) kmask
       in if i = start then Some (n_buckets h) else get_loop hash_equal h key kmask start i step
     else Some (if ac_iseither (kh_flag h) i then n_buckets h else i))"

definition kh_get ::
  "('k \<Rightarrow> khint_t) \<Rightarrow> ('k \<Rightarrow> 'k \<Rightarrow> bool) \<Rightarrow> ('k, 'v) khash \<Rightarrow> 'k \<Rightarrow> khint_t option" where
  "kh_get hash_func hash_equal h key =
    (if n_buckets h \<noteq> 0 then
       let kmask = n_buckets h - 1; k = hash_func key; i = and k kmask
       in get_loop hash_equal h key kmask i i 0
     else Some 0)"

section \<open>Rehashing\<close>

text \<open>The arrays of keys and values, which both tables use, and the flags of the old and of the new one.\<close>

record ('k, 'v) rehash =
  r_key :: "khint_t \<Rightarrow> 'k"
  r_val :: "khint_t \<Rightarrow> 'v"
  r_flag :: kh_flags
  r_new :: kh_flags

partial_function (option) find_empty :: "kh_flags \<Rightarrow> khint_t \<Rightarrow> khint_t \<Rightarrow> khint_t \<Rightarrow> khint_t option" where
  "find_empty new_flags new_mask i step =
    (if \<not> ac_isempty new_flags i then let step = step + 1 in find_empty new_flags new_mask (and (i + step) new_mask) step
     else Some i)"

text \<open>The kick-out process for an entry that has been taken out of the old table.\<close>

partial_function (option) kick ::
  "('k \<Rightarrow> khint_t) \<Rightarrow> khint_t \<Rightarrow> khint_t \<Rightarrow> 'k \<Rightarrow> 'v \<Rightarrow> ('k, 'v) rehash \<Rightarrow> ('k, 'v) rehash option" where
  "kick hash_func n new_mask key val r =
    (case find_empty (r_new r) new_mask (and (hash_func key) new_mask) 0 of
       None \<Rightarrow> None
     | Some i \<Rightarrow>
         let r' = r\<lparr>r_new := ac_set_isempty_false i (r_new r), r_key := (r_key r)(i := key), r_val := (r_val r)(i := val)\<rparr>
         in if i < n \<and> \<not> ac_iseither (r_flag r) i
            then kick hash_func n new_mask (r_key r i) (r_val r i) (r'\<lparr>r_flag := ac_set_isdel_true i (r_flag r)\<rparr>)
            else Some r')"

fun rehash_buckets ::
  "('k \<Rightarrow> khint_t) \<Rightarrow> khint_t \<Rightarrow> khint_t \<Rightarrow> khint_t list \<Rightarrow> ('k, 'v) rehash \<Rightarrow> ('k, 'v) rehash option" where
  "rehash_buckets hash_func n new_mask [] r = Some r"
| "rehash_buckets hash_func n new_mask (j # js) r =
    (if \<not> ac_iseither (r_flag r) j then
       case kick hash_func n new_mask (r_key r j) (r_val r j) (r\<lparr>r_flag := ac_set_isdel_true j (r_flag r)\<rparr>) of
         None \<Rightarrow> None
       | Some r \<Rightarrow> rehash_buckets hash_func n new_mask js r
     else rehash_buckets hash_func n new_mask js r)"

text \<open>\<^verbatim>\<open>kh_resize\<close>: the return value and the table; \<open>None\<close> also when an array that could not be cut is lost.\<close>

definition kh_resize ::
  "('k \<Rightarrow> khint_t) \<Rightarrow> kh_alloc \<Rightarrow> ('k, 'v) khash \<Rightarrow> khint_t \<Rightarrow> (int \<times> ('k, 'v) khash) option" where
  "kh_resize hash_func A h new_n_buckets =
    (let new_n_buckets = kroundup32 new_n_buckets;
         new_n_buckets = (if new_n_buckets < 4 then 4 else new_n_buckets)
     in if hash_upper new_n_buckets \<le> kh_size h then Some (0, h)
        else case kmalloc_flags A of
          None \<Rightarrow> Some (-1, h)
        | Some new_flags \<Rightarrow>
            if n_buckets h < new_n_buckets \<and> \<not> (krealloc_keys A \<and> krealloc_vals A) then Some (-1, h)
            else case rehash_buckets hash_func (n_buckets h) (new_n_buckets - 1) (map of_nat [0..<unat (n_buckets h)])
                \<lparr>r_key = kh_key h, r_val = kh_val h, r_flag = kh_flag h, r_new = memset_flags new_n_buckets new_flags\<rparr> of
              None \<Rightarrow> None
            | Some r \<Rightarrow>
                if new_n_buckets < n_buckets h \<and> \<not> krealloc_shrink A then None
                else Some (0, h\<lparr>kh_key := r_key r, kh_val := r_val r, kh_flag := r_new r, n_buckets := new_n_buckets,
                  n_occupied := kh_size h, upper_bound := hash_upper new_n_buckets\<rparr>))"

section \<open>Insertion and deletion\<close>

text \<open>The loop gives \<^verbatim>\<open>x\<close>, \<^verbatim>\<open>i\<close> and \<^verbatim>\<open>site\<close>.\<close>

partial_function (option) put_loop ::
  "('k \<Rightarrow> 'k \<Rightarrow> bool) \<Rightarrow> ('k, 'v) khash \<Rightarrow> 'k \<Rightarrow> khint_t \<Rightarrow> khint_t \<Rightarrow> khint_t \<Rightarrow> khint_t \<Rightarrow> khint_t
    \<Rightarrow> (khint_t \<times> khint_t \<times> khint_t) option" where
  "put_loop hash_equal h key kmask start site i step =
    (if \<not> ac_isempty (kh_flag h) i \<and> (ac_isdel (kh_flag h) i \<or> \<not> hash_equal (kh_key h i) key) then
       let site = (if ac_isdel (kh_flag h) i then i else site); step = step + 1; i = and (i + step) kmask
       in if i = start then Some (site, i, site) else put_loop hash_equal h key kmask start site i step
     else Some (n_buckets h, i, site))"

definition kh_put_site ::
  "('k \<Rightarrow> khint_t) \<Rightarrow> ('k \<Rightarrow> 'k \<Rightarrow> bool) \<Rightarrow> ('k, 'v) khash \<Rightarrow> 'k \<Rightarrow> khint_t option" where
  "kh_put_site hash_func hash_equal h key =
    (let kmask = n_buckets h - 1; k = hash_func key; i = and k kmask
     in if ac_isempty (kh_flag h) i then Some i
        else map_option (\<lambda>(x, i, site).
            if x = n_buckets h then (if ac_isempty (kh_flag h) i \<and> site \<noteq> n_buckets h then site else i) else x)
          (put_loop hash_equal h key kmask i (n_buckets h) i 0))"

definition kh_put_at :: "('k, 'v) khash \<Rightarrow> 'k \<Rightarrow> khint_t \<Rightarrow> khint_t \<times> int \<times> ('k, 'v) khash" where
  "kh_put_at h key x =
    (if ac_isempty (kh_flag h) x then
       (x, 1, h\<lparr>kh_key := (kh_key h)(x := key), kh_flag := ac_set_isboth_false x (kh_flag h), kh_size := kh_size h + 1,
          n_occupied := n_occupied h + 1\<rparr>)
     else if ac_isdel (kh_flag h) x then
       (x, 2, h\<lparr>kh_key := (kh_key h)(x := key), kh_flag := ac_set_isboth_false x (kh_flag h), kh_size := kh_size h + 1\<rparr>)
     else (x, 0, h))"

definition kh_put_resize ::
  "('k \<Rightarrow> khint_t) \<Rightarrow> kh_alloc \<Rightarrow> ('k, 'v) khash \<Rightarrow> (int \<times> ('k, 'v) khash) option" where
  "kh_put_resize hash_func A h =
    (if upper_bound h \<le> n_occupied h then
       if push_bit 1 (kh_size h) < n_buckets h then kh_resize hash_func A h (n_buckets h - 1)
       else kh_resize hash_func A h (n_buckets h + 1)
     else Some (0, h))"

text \<open>\<^verbatim>\<open>kh_put\<close>: the iterator, \<^verbatim>\<open>*ret\<close> and the table.\<close>

definition kh_put ::
  "('k \<Rightarrow> khint_t) \<Rightarrow> ('k \<Rightarrow> 'k \<Rightarrow> bool) \<Rightarrow> kh_alloc \<Rightarrow> ('k, 'v) khash \<Rightarrow> 'k \<Rightarrow> (khint_t \<times> int \<times> ('k, 'v) khash) option" where
  "kh_put hash_func hash_equal A h key =
    (case kh_put_resize hash_func A h of
       None \<Rightarrow> None
     | Some (rv, h) \<Rightarrow>
         if rv < 0 then Some (n_buckets h, -1, h)
         else map_option (kh_put_at h key) (kh_put_site hash_func hash_equal h key))"

definition kh_del :: "('k, 'v) khash \<Rightarrow> khint_t \<Rightarrow> ('k, 'v) khash" where
  "kh_del h x = (if x \<noteq> n_buckets h \<and> \<not> ac_iseither (kh_flag h) x
     then h\<lparr>kh_flag := ac_set_isdel_true x (kh_flag h), kh_size := kh_size h - 1\<rparr> else h)"

text \<open>\<^verbatim>\<open>kh_value(h, x) = v\<close>.\<close>

definition kh_set_value :: "('k, 'v) khash \<Rightarrow> khint_t \<Rightarrow> 'v \<Rightarrow> ('k, 'v) khash" where
  "kh_set_value h x v = h\<lparr>kh_val := (kh_val h)(x := v)\<rparr>"

section \<open>The invariant and the map\<close>

definition live :: "('k, 'v) khash \<Rightarrow> khint_t set" where
  "live h = {i. i < n_buckets h \<and> kh_exist h i}"

definition used :: "('k, 'v) khash \<Rightarrow> khint_t set" where
  "used h = {i. i < n_buckets h \<and> \<not> ac_isempty (kh_flag h) i}"

text \<open>Bucket \<open>i\<close> is found when its key is looked for: no bucket probed before is empty.\<close>

definition found_at :: "nat \<Rightarrow> ('k \<Rightarrow> khint_t) \<Rightarrow> kh_flags \<Rightarrow> 'k \<Rightarrow> khint_t \<Rightarrow> bool" where
  "found_at k hash_func f key i \<longleftrightarrow>
    (\<exists>s < 2 ^ k. probe k (hash_func key) s = i \<and> (\<forall>s' < s. \<not> ac_isempty f (probe k (hash_func key) s')))"

definition kh_buckets :: "nat \<Rightarrow> ('k \<Rightarrow> khint_t) \<Rightarrow> ('k, 'v) khash \<Rightarrow> bool" where
  "kh_buckets k hash_func h \<longleftrightarrow> 2 \<le> k \<and> k < 32 \<and> n_buckets h = 2 ^ k \<and> upper_bound h = hash_upper (2 ^ k)
     \<and> unat (kh_size h) = card (live h) \<and> unat (n_occupied h) = card (used h) \<and> n_occupied h \<le> upper_bound h
     \<and> inj_on (kh_key h) (live h) \<and> (\<forall>i \<in> live h. found_at k hash_func (kh_flag h) (kh_key h i) i)"

definition kh_inv :: "('k \<Rightarrow> khint_t) \<Rightarrow> ('k, 'v) khash \<Rightarrow> bool" where
  "kh_inv hash_func h \<longleftrightarrow> (n_buckets h = 0 \<and> kh_size h = 0 \<and> n_occupied h = 0 \<and> upper_bound h = 0) \<or> (\<exists>k. kh_buckets k hash_func h)"

definition kh_map :: "('k, 'v) khash \<Rightarrow> 'k \<Rightarrow> 'v option" where
  "kh_map h = map_of (kh_foreach h)"

definition entries :: "('k, 'v) khash \<Rightarrow> ('k \<times> 'v) set" where
  "entries h = (\<lambda>i. (kh_key h i, kh_val h i)) ` live h"

lemma set_buckets: "set (map of_nat [0..<unat n]) = {i :: khint_t. i < n}"
proof (intro equalityI subsetI)
  fix i :: khint_t
  assume "i \<in> set (map of_nat [0..<unat n])"
  then obtain m where m: "i = of_nat m" "m < unat n" by auto
  then have "unat i = m" using unat_u32[of n] by (simp add: unat_of_nat)
  then show "i \<in> {i. i < n}" using m(2) by (simp add: word_less_nat_alt)
next
  fix i :: khint_t
  assume "i \<in> {i. i < n}"
  then have "unat i \<in> set [0..<unat n]" by (simp add: word_less_nat_alt)
  then show "i \<in> set (map of_nat [0..<unat n])" unfolding set_map by (intro image_eqI[of _ _ "unat i"]) simp
qed

lemma set_foreach: "set (kh_foreach h) = entries h"
  unfolding kh_foreach_def kh_end_def set_map entries_def live_def
  using set_buckets[of "n_buckets h"] by (auto simp: image_iff)

lemma distinct_buckets: "distinct (map (of_nat :: nat \<Rightarrow> khint_t) [0..<unat (n :: khint_t)])"
proof -
  have "unat (of_nat m :: khint_t) = m" if "m < unat n" for m using that unat_u32[of n] by (simp add: unat_of_nat)
  then have "inj_on (of_nat :: nat \<Rightarrow> khint_t) {0..<unat n}" by (metis inj_onI atLeastLessThan_iff)
  then show ?thesis by (simp add: distinct_map)
qed

lemma kh_map_entries:
  assumes "inj_on (kh_key h) (live h)"
  shows "kh_map h key = Some v \<longleftrightarrow> (key, v) \<in> entries h" "kh_map h key = None \<longleftrightarrow> key \<notin> kh_key h ` live h"
proof -
  let ?ls = "filter (kh_exist h) (map of_nat [0..<unat (n_buckets h)])"
  have ls: "set ?ls = live h" using set_buckets[of "n_buckets h"] by (auto simp: live_def)
  have "distinct ?ls" using distinct_buckets by (rule distinct_filter)
  then have "distinct (map fst (kh_foreach h))"
    using assms ls by (simp add: kh_foreach_def kh_end_def comp_def distinct_map del: filter_map)
  then show "kh_map h key = Some v \<longleftrightarrow> (key, v) \<in> entries h" unfolding kh_map_def by (simp add: set_foreach)
  show "kh_map h key = None \<longleftrightarrow> key \<notin> kh_key h ` live h"
    unfolding kh_map_def map_of_eq_None_iff set_foreach entries_def by (simp add: image_image)
qed

lemma kh_map_live: "inj_on (kh_key h) (live h) \<Longrightarrow> i \<in> live h \<Longrightarrow> kh_map h (kh_key h i) = Some (kh_val h i)"
  by (simp add: kh_map_entries entries_def)

section \<open>The loops\<close>

lemma probe_step:
  assumes "k < 32" "Suc s < 2 ^ k"
  shows "and (probe k h s + (of_nat s + 1)) (2 ^ k - 1) = probe k h (Suc s)" "probe k h (Suc s) \<noteq> probe k h 0"
proof -
  show "and (probe k h s + (of_nat s + 1)) (2 ^ k - 1) = probe k h (Suc s)"
    using probe_Suc[OF assms(1), of h s] by (simp add: and_mask[OF assms(1)] add.commute)
  show "probe k h (Suc s) \<noteq> probe k h 0" using probe_inj[OF assms(1), of h] assms(2) by (auto dest: inj_onD)
qed

lemma find_empty_at:
  assumes "k < 32" "t < 2 ^ k" "ac_isempty f (probe k h t)" "s \<le> t" "\<forall>s' < t. \<not> ac_isempty f (probe k h s')"
  shows "find_empty f (2 ^ k - 1) (probe k h s) (of_nat s) = Some (probe k h t)"
  using assms(4)
proof (induction rule: inc_induct)
  case base
  then show ?case using assms(3) by (subst find_empty.simps) simp
next
  case (step s)
  have "Suc s < 2 ^ k" using step.hyps assms(2) by simp
  then show ?case using step assms(5) by (subst find_empty.simps) (simp add: Let_def probe_step[OF assms(1)] add.commute[of 1])
qed

text \<open>The first of the buckets probed that satisfies a predicate.\<close>

lemma first_probe:
  assumes "k < 32" "i < 2 ^ k" "P i"
  obtains t where "t < 2 ^ k" "P (probe k h t)" "\<forall>s < t. \<not> P (probe k h s)"
proof -
  obtain s where s: "s < 2 ^ k" "probe k h s = i" by (rule probe_onto[OF assms(1,2)])
  define t where "t = (LEAST s. P (probe k h s))"
  have "P (probe k h s)" using s assms(3) by simp
  then have "P (probe k h t)" "t \<le> s" unfolding t_def by (rule LeastI, rule Least_le)
  moreover have "\<forall>s < t. \<not> P (probe k h s)" unfolding t_def using not_less_Least by blast
  ultimately show thesis using that[of t] s(1) by simp
qed

text \<open>The condition that ends the search for a key.\<close>

definition stops :: "('k, 'v) khash \<Rightarrow> 'k \<Rightarrow> khint_t \<Rightarrow> bool" where
  "stops h key i \<longleftrightarrow> ac_isempty (kh_flag h) i \<or> \<not> ac_isdel (kh_flag h) i \<and> kh_key h i = key"

context khash_key
begin

lemma equal: "hash_equal = (=)" by (intro ext) (simp add: hash_equal)

lemma get_loop_at:
  assumes "k < 32" "t < 2 ^ k" "stops h key (probe k x t)" "s \<le> t" "\<forall>s' < t. \<not> stops h key (probe k x s')"
  shows "get_loop hash_equal h key (2 ^ k - 1) (probe k x 0) (probe k x s) (of_nat s)
    = Some (if ac_iseither (kh_flag h) (probe k x t) then n_buckets h else probe k x t)"
  using assms(4)
proof (induction rule: inc_induct)
  case base
  then show ?case using assms(3) by (subst get_loop.simps) (auto simp: stops_def equal)
next
  case (step s)
  have s: "Suc s < 2 ^ k" "\<not> stops h key (probe k x s)" using step.hyps assms(2,5) by simp_all
  then show ?case using step.IH probe_step[OF assms(1) s(1), of x]
    by (subst get_loop.simps) (simp add: Let_def stops_def equal add.commute[of 1])
qed

lemma put_loop_at:
  assumes "k < 32" "t < 2 ^ k" "stops h key (probe k x t)" "s \<le> t" "\<forall>s' < t. \<not> stops h key (probe k x s')"
  shows "\<exists>site'. put_loop hash_equal h key (2 ^ k - 1) (probe k x 0) site (probe k x s) (of_nat s)
      = Some (n_buckets h, probe k x t, site')
    \<and> (site' = site \<or> (\<exists>s' < t. site' = probe k x s' \<and> ac_isdel (kh_flag h) site'))"
  using assms(4)
proof (induction arbitrary: site rule: inc_induct)
  case base
  then show ?case using assms(3) by (subst put_loop.simps) (auto simp: stops_def equal)
next
  case (step s)
  let ?site = "if ac_isdel (kh_flag h) (probe k x s) then probe k x s else site"
  have s: "Suc s < 2 ^ k" "\<not> stops h key (probe k x s)" using step.hyps assms(2,5) by simp_all
  obtain site' where site': "put_loop hash_equal h key (2 ^ k - 1) (probe k x 0) ?site (probe k x (Suc s)) (of_nat (Suc s))
      = Some (n_buckets h, probe k x t, site')"
    "site' = ?site \<or> (\<exists>s' < t. site' = probe k x s' \<and> ac_isdel (kh_flag h) site')"
    using step.IH[of ?site] by blast
  have "put_loop hash_equal h key (2 ^ k - 1) (probe k x 0) site (probe k x s) (of_nat s)
      = Some (n_buckets h, probe k x t, site')"
    using s(2) site'(1) probe_step[OF assms(1) s(1), of x]
    by (subst put_loop.simps) (simp add: Let_def stops_def equal add.commute[of 1])
  moreover have "site' = site \<or> (\<exists>s' < t. site' = probe k x s' \<and> ac_isdel (kh_flag h) site')"
    using site'(2) step.hyps by (auto split: if_splits)
  ultimately show ?case by blast
qed

end

section \<open>Lookup finds what is there\<close>

lemma kh_bucketsD:
  assumes "kh_buckets k hash_func h"
  shows "2 \<le> k" "k < 32" "n_buckets h = 2 ^ k" "upper_bound h = hash_upper (2 ^ k)" "unat (kh_size h) = card (live h)"
    "unat (n_occupied h) = card (used h)" "n_occupied h \<le> upper_bound h" "inj_on (kh_key h) (live h)"
    "i \<in> live h \<Longrightarrow> found_at k hash_func (kh_flag h) (kh_key h i) i"
  using assms unfolding kh_buckets_def by blast+

lemma empty_bucket:
  assumes "kh_buckets k hash_func h"
  obtains i where "i < 2 ^ k" "ac_isempty (kh_flag h) i"
proof -
  note inv = kh_bucketsD[OF assms]
  have "card (used h) < 2 ^ k"
    using hash_upper(2)[OF inv(1,2) refl] inv(7)[unfolded inv(4) word_le_nat_alt inv(6)] by (rule le_less_trans[rotated])
  then have "{i. i < 2 ^ k} - used h \<noteq> {}" using card_buckets[OF inv(2)] card_mono[of "used h" "{i. i < 2 ^ k}"] by auto
  then obtain i where "i < 2 ^ k" "i \<notin> used h" by auto
  then show thesis using that by (simp add: used_def inv(3))
qed

lemma live_iff: "n_buckets h = 2 ^ k \<Longrightarrow> i \<in> live h \<longleftrightarrow> i < 2 ^ k \<and> \<not> ac_isempty (kh_flag h) i \<and> \<not> ac_isdel (kh_flag h) i"
  by (simp add: live_def kh_exist_def flag_bits)

lemma search_stops:
  assumes inv: "kh_buckets k hash_func h"
  obtains t where "t < 2 ^ k" "stops h key (probe k (hash_func key) t)" "\<forall>s < t. \<not> stops h key (probe k (hash_func key) s)"
    "if key \<in> kh_key h ` live h then probe k (hash_func key) t \<in> live h \<and> kh_key h (probe k (hash_func key) t) = key
     else ac_isempty (kh_flag h) (probe k (hash_func key) t)"
proof -
  let ?p = "probe k (hash_func key)"
  have k: "k < 32" and n: "n_buckets h = 2 ^ k" using kh_bucketsD[OF inv] by blast+
  obtain e where "e < 2 ^ k" "stops h key e" using empty_bucket[OF inv] by (metis stops_def)
  then obtain t where t: "t < 2 ^ k" "stops h key (?p t)" "\<forall>s < t. \<not> stops h key (?p s)"
    using first_probe[OF k, of e "stops h key" "hash_func key"] by metis
  have here: "?p t \<in> live h \<and> kh_key h (?p t) = key" if "\<not> ac_isempty (kh_flag h) (?p t)"
    using that t(2) live_iff[OF n] probe_less[OF k] by (auto simp: stops_def)
  have "\<not> ac_isempty (kh_flag h) (?p t)" if key: "key \<in> kh_key h ` live h"
  proof -
    obtain i where i: "i \<in> live h" "kh_key h i = key" using key by auto
    then have "found_at k hash_func (kh_flag h) key i" using kh_bucketsD(9)[OF inv i(1)] by simp
    then obtain s where s: "s < 2 ^ k" "?p s = i" "\<forall>s' < s. \<not> ac_isempty (kh_flag h) (?p s')" by (auto simp: found_at_def)
    have "stops h key (?p s)" using i s(2) live_iff[OF n] by (simp add: stops_def)
    then have "t \<le> s" using t(3) by (metis linorder_not_less)
    then show ?thesis using s(2,3) i(1) live_iff[OF n, of i] by (cases "t = s") simp_all
  qed
  then show thesis using that[OF t] here by (metis (no_types, lifting) imageI)
qed

context khash_key
begin

lemma get_finds:
  assumes "kh_inv hash_func h"
  obtains x where "kh_get hash_func hash_equal h key = Some x"
    "if key \<in> kh_key h ` live h then x \<in> live h \<and> kh_key h x = key else x = n_buckets h"
proof (cases "n_buckets h = 0")
  case True
  then show thesis using that[of 0] by (simp add: kh_get_def live_def)
next
  case False
  then obtain k where inv: "kh_buckets k hash_func h" using assms by (auto simp: kh_inv_def)
  note k = kh_bucketsD(2)[OF inv] and n = kh_bucketsD(3)[OF inv]
  obtain t where t: "t < 2 ^ k" "stops h key (probe k (hash_func key) t)" "\<forall>s < t. \<not> stops h key (probe k (hash_func key) s)"
    "if key \<in> kh_key h ` live h then probe k (hash_func key) t \<in> live h \<and> kh_key h (probe k (hash_func key) t) = key
     else ac_isempty (kh_flag h) (probe k (hash_func key) t)" by (rule search_stops[OF inv])
  have "kh_get hash_func hash_equal h key
      = Some (if ac_iseither (kh_flag h) (probe k (hash_func key) t) then n_buckets h else probe k (hash_func key) t)"
    using get_loop_at[OF k t(1,2) le0 t(3)] False n k by (simp add: kh_get_def Let_def and_mask probe_0)
  then show thesis using that t(4) live_iff[OF n] by (simp add: flag_bits split: if_splits)
qed

end

end
