(* ===== verification/Khash_Map.thy ===== *)
theory Khash_Map
  imports Khash
begin

text \<open>
  The hash table implements a map: what insertion, deletion, clearing and resizing do to the map that the
  table stands for, and that they keep the invariant.
\<close>

section \<open>Maps of tables\<close>

lemma kh_map_update:
  assumes inj: "inj_on (kh_key h) (live h)" "inj_on (kh_key h') (live h')"
    and live: "live h' = insert x (live h)" "x \<in> live h \<Longrightarrow> kh_key h x = kh_key h' x"
    and same: "\<And>i. i \<in> live h \<Longrightarrow> i \<noteq> x \<Longrightarrow> kh_key h' i = kh_key h i \<and> kh_val h' i = kh_val h i"
  shows "kh_map h' = (kh_map h)(kh_key h' x \<mapsto> kh_val h' x)"
proof
  fix key
  have x: "x \<in> live h'" by (simp add: live(1))
  show "kh_map h' key = ((kh_map h)(kh_key h' x \<mapsto> kh_val h' x)) key"
  proof (cases "key \<in> kh_key h' ` live h'")
    case True
    then obtain i where i: "i \<in> live h'" "key = kh_key h' i" by auto
    then show ?thesis
    proof (cases "i = x")
      case True
      then show ?thesis using kh_map_live[OF inj(2) i(1)] i(2) by simp
    next
      case False
      then have "i \<in> live h" using i(1) live(1) by simp
      moreover have "key \<noteq> kh_key h' x" using False i x inj(2) by (auto dest: inj_onD)
      ultimately show ?thesis using kh_map_live[OF inj(2) i(1)] kh_map_live[OF inj(1), of i] same[of i] False i(2) by simp
    qed
  next
    case False
    have "kh_key h i \<in> kh_key h' ` live h'" if i: "i \<in> live h" for i
    proof -
      have "kh_key h i = kh_key h' i" using i live(2) same[of i] by (cases "i = x") simp_all
      then show ?thesis using i live(1) by simp
    qed
    then have "key \<notin> kh_key h ` live h" using False by blast
    then show ?thesis using False x kh_map_entries(2)[OF inj(1), of key] kh_map_entries(2)[OF inj(2), of key] by auto
  qed
qed

lemma kh_map_remove:
  assumes inj: "inj_on (kh_key h) (live h)" and x: "x \<in> live h"
    and live: "live h' = live h - {x}" and same: "kh_key h' = kh_key h" "kh_val h' = kh_val h"
  shows "kh_map h' = (kh_map h)(kh_key h x := None)"
proof
  fix key
  have inj': "inj_on (kh_key h') (live h')" using inj unfolding live same by (rule inj_on_subset) blast
  show "kh_map h' key = ((kh_map h)(kh_key h x := None)) key"
  proof (cases "key \<in> kh_key h ` (live h - {x})")
    case True
    then obtain i where i: "i \<in> live h" "i \<noteq> x" "key = kh_key h i" by auto
    then have "key \<noteq> kh_key h x" using x inj by (auto dest: inj_onD)
    then show ?thesis using kh_map_live[OF inj i(1)] kh_map_live[OF inj', of i] i by (simp add: live same)
  next
    case False
    then have "kh_map h' key = None" using kh_map_entries(2)[OF inj'] by (simp add: live same)
    moreover have "key = kh_key h x \<or> kh_map h key = None" using False kh_map_entries(2)[OF inj, of key] by auto
    ultimately show ?thesis by auto
  qed
qed

lemma kh_map_same:
  assumes "inj_on (kh_key h) (live h)" "inj_on (kh_key h') (live h')" "entries h' = entries h"
  shows "kh_map h' = kh_map h"
proof
  fix key
  have *: "kh_map h' key = Some v \<longleftrightarrow> kh_map h key = Some v" for v
    by (simp only: kh_map_entries(1)[OF assms(1)] kh_map_entries(1)[OF assms(2)] assms(3))
  show "kh_map h' key = kh_map h key"
  proof (cases "kh_map h key")
    case None
    then show ?thesis using *[of "the (kh_map h' key)"] by (cases "kh_map h' key") simp_all
  next
    case (Some v)
    then show ?thesis using *[of v] by simp
  qed
qed

section \<open>Insertion\<close>

lemma found_at_mono:
  assumes "found_at k hash_func f key i" "\<And>j. ac_isempty f' j \<Longrightarrow> ac_isempty f j"
  shows "found_at k hash_func f' key i"
  using assms unfolding found_at_def by blast

lemma kh_put_at_inserts:
  assumes inv: "kh_buckets k hash_func h" and room: "n_occupied h < upper_bound h"
    and x: "x < 2 ^ k" "x \<notin> live h" "found_at k hash_func (kh_flag h) key x" and key: "key \<notin> kh_key h ` live h"
  obtains r h' where "kh_put_at h key x = (x, r, h')" "r \<in> {1, 2}" "kh_buckets k hash_func h'" "live h' = insert x (live h)"
    "kh_key h' = (kh_key h)(x := key)" "kh_val h' = kh_val h"
proof -
  note i = kh_bucketsD[OF inv]
  let ?o = "if ac_isempty (kh_flag h) x then n_occupied h + 1 else n_occupied h"
  let ?h = "h\<lparr>kh_key := (kh_key h)(x := key), kh_flag := ac_set_isboth_false x (kh_flag h), kh_size := kh_size h + 1, n_occupied := ?o\<rparr>"
  have put: "kh_put_at h key x = (x, if ac_isempty (kh_flag h) x then 1 else 2, ?h)"
    using x(1,2) live_iff[OF i(3), of x] by (auto simp: kh_put_at_def)
  have live: "live ?h = insert x (live h)" using x(1) i(3) by (auto simp: live_def kh_exist_def flag_bits(3))
  have used: "used ?h = insert x (used h)" using x(1) i(3) by (auto simp: used_def)
  have "unat (n_occupied h) < unat (upper_bound h)" using room by (simp add: word_less_nat_alt)
  then have o1: "unat (n_occupied h + 1) = unat (n_occupied h) + 1" using unat_u32[of "upper_bound h"] by (simp add: unat_word_ariths)
  have fin: "finite (live h)" "finite (used h)" "live h \<subseteq> used h" by (auto simp: used_def live_def kh_exist_def flag_bits(3))
  have "card (live h) \<le> card (used h)" by (rule card_mono[OF fin(2,3)])
  then have s1: "unat (kh_size h + 1) = unat (kh_size h) + 1"
    using i(5,6) \<open>unat (n_occupied h) < unat (upper_bound h)\<close> unat_u32[of "upper_bound h"] by (simp add: unat_word_ariths)
  have "card (used ?h) = unat ?o"
    using x(1) i(3,6) fin(2) o1 by (simp add: used card_insert_if) (auto simp: used_def)
  moreover have "?o \<le> upper_bound h" using i(7) room by (simp add: inc_le)
  moreover have "inj_on (kh_key ?h) (live ?h)" using i(8) key x(2) unfolding live by (auto simp: inj_on_def)
  moreover have "found_at k hash_func (kh_flag ?h) (kh_key ?h j) j" if j: "j \<in> live ?h" for j
  proof -
    have "found_at k hash_func (kh_flag h) (kh_key ?h j) j" using j x(2,3) i(9) unfolding live by auto
    then show ?thesis by (rule found_at_mono) simp
  qed
  ultimately have "kh_buckets k hash_func ?h" using i(1-5) s1 x(2) fin(1) unfolding kh_buckets_def by (simp add: live)
  then show thesis using that put live by simp
qed

context khash_key
begin

lemma put_site:
  assumes inv: "kh_buckets k hash_func h"
  obtains x where "kh_put_site hash_func hash_equal h key = Some x" "x < 2 ^ k"
    "if key \<in> kh_key h ` live h then x \<in> live h \<and> kh_key h x = key
     else x \<notin> live h \<and> found_at k hash_func (kh_flag h) key x"
proof -
  let ?p = "probe k (hash_func key)" and ?f = "kh_flag h"
  note i = kh_bucketsD[OF inv]
  obtain t where t: "t < 2 ^ k" "stops h key (?p t)" "\<forall>s < t. \<not> stops h key (?p s)"
    and at: "if key \<in> kh_key h ` live h then ?p t \<in> live h \<and> kh_key h (?p t) = key else ac_isempty ?f (?p t)"
    by (rule search_stops[OF inv])
  have path: "found_at k hash_func ?f key (?p s)" if "s \<le> t" for s
    using that t unfolding found_at_def by (intro exI[of _ s]) (auto simp: stops_def)
  have site: "kh_put_site hash_func hash_equal h key = (if ac_isempty ?f (?p 0) then Some (?p 0)
      else map_option (\<lambda>(x, i, site). if x = n_buckets h then (if ac_isempty ?f i \<and> site \<noteq> n_buckets h then site else i) else x)
        (put_loop hash_equal h key (2 ^ k - 1) (?p 0) (n_buckets h) (?p 0) 0))"
    using i(2,3) by (simp add: kh_put_site_def Let_def and_mask probe_0)
  obtain x where x: "kh_put_site hash_func hash_equal h key = Some x"
    "x = ?p t \<or> ac_isempty ?f (?p t) \<and> (\<exists>s < t. x = ?p s \<and> ac_isdel ?f x)"
  proof (cases "ac_isempty ?f (?p 0)")
    case True
    then have "t = 0" using t(3) by (cases t) (auto simp: stops_def)
    then show ?thesis using that[of "?p t"] site True by simp
  next
    case False
    obtain site' where loop: "put_loop hash_equal h key (2 ^ k - 1) (?p 0) (n_buckets h) (?p 0) 0 = Some (n_buckets h, ?p t, site')"
      and site': "site' = n_buckets h \<or> (\<exists>s < t. site' = ?p s \<and> ac_isdel ?f site')"
      using put_loop_at[OF i(2) t(1,2) le0 t(3), of "n_buckets h"] by auto
    let ?x = "if ac_isempty ?f (?p t) \<and> site' \<noteq> n_buckets h then site' else ?p t"
    show ?thesis
    proof (rule that[of ?x])
      show "kh_put_site hash_func hash_equal h key = Some ?x" using site False loop by simp
      show "?x = ?p t \<or> ac_isempty ?f (?p t) \<and> (\<exists>s < t. ?x = ?p s \<and> ac_isdel ?f ?x)"
        using site' by (cases "ac_isempty ?f (?p t) \<and> site' \<noteq> n_buckets h") auto
    qed
  qed
  have "x < 2 ^ k" using x(2) probe_less[OF i(2)] by auto
  moreover have "x \<notin> live h \<and> found_at k hash_func ?f key x" if "key \<notin> kh_key h ` live h"
    using that at x(2) path live_iff[OF i(3)] by auto
  moreover have "x = ?p t" if "key \<in> kh_key h ` live h" using that at x(2) live_iff[OF i(3), of "?p t"] by auto
  ultimately show thesis using that[OF x(1)] at by auto
qed

text \<open>Insertion when there is room.\<close>

lemma put_room:
  assumes inv: "kh_buckets k hash_func h" and room: "n_occupied h < upper_bound h"
  obtains x r h' where "map_option (kh_put_at h key) (kh_put_site hash_func hash_equal h key) = Some (x, r, h')"
    "kh_buckets k hash_func h'" "x \<in> live h'" "kh_key h' x = key" "r = 0 \<longleftrightarrow> key \<in> kh_key h ` live h" "r \<noteq> - 1"
    "live h' = insert x (live h)" "\<forall>v. kh_map (kh_set_value h' x v) = (kh_map h)(key \<mapsto> v)"
proof -
  note i = kh_bucketsD[OF inv]
  obtain x where x: "kh_put_site hash_func hash_equal h key = Some x" "x < 2 ^ k"
    "if key \<in> kh_key h ` live h then x \<in> live h \<and> kh_key h x = key else x \<notin> live h \<and> found_at k hash_func (kh_flag h) key x"
    by (rule put_site[OF inv])
  obtain r h' where h': "kh_put_at h key x = (x, r, h')" "kh_buckets k hash_func h'" "live h' = insert x (live h)"
    "kh_key h' x = key" "\<forall>j \<in> live h. j \<noteq> x \<longrightarrow> kh_key h' j = kh_key h j \<and> kh_val h' j = kh_val h j"
    "r = 0 \<longleftrightarrow> key \<in> kh_key h ` live h" "r \<noteq> - 1"
  proof (cases "key \<in> kh_key h ` live h")
    case True
    then have "kh_put_at h key x = (x, 0, h)" "live h = insert x (live h)" using x live_iff[OF i(3), of x] by (auto simp: kh_put_at_def)
    then show ?thesis using that[of 0 h] inv x(3) True by simp
  next
    case False
    then obtain r h' where "kh_put_at h key x = (x, r, h')" "r \<in> {1, 2}" "kh_buckets k hash_func h'" "live h' = insert x (live h)"
      "kh_key h' = (kh_key h)(x := key)" "kh_val h' = kh_val h"
      using kh_put_at_inserts[OF inv room x(2) _ _ False] x(3) by auto
    then show ?thesis using that[of r h'] False by auto
  qed
  have live: "live (kh_set_value h' x v) = live h'" "kh_key (kh_set_value h' x v) = kh_key h'" for v
    by (simp_all add: live_def kh_exist_def kh_set_value_def)
  have "kh_map (kh_set_value h' x v) = (kh_map h)(kh_key (kh_set_value h' x v) x \<mapsto> kh_val (kh_set_value h' x v) x)" for v
  proof (rule kh_map_update[OF i(8)])
    show "inj_on (kh_key (kh_set_value h' x v)) (live (kh_set_value h' x v))" unfolding live by (rule kh_bucketsD(8)[OF h'(2)])
    show "live (kh_set_value h' x v) = insert x (live h)" unfolding live by (rule h'(3))
    show "x \<in> live h \<Longrightarrow> kh_key h x = kh_key (kh_set_value h' x v) x"
      unfolding live h'(4) using x(3) by (auto split: if_splits)
    show "kh_key (kh_set_value h' x v) j = kh_key h j \<and> kh_val (kh_set_value h' x v) j = kh_val h j" if "j \<in> live h" "j \<noteq> x" for j
      unfolding live using h'(5) that by (simp add: kh_set_value_def)
  qed
  then show thesis using that[of x r h'] x(1) h' by (simp add: live kh_set_value_def)
qed

end

end
