(* ===== verification/Khash_Rehash.thy ===== *)
theory Khash_Rehash
  imports Khash_Map
begin

text \<open>
  Resizing the hash table in place: the kick-out process ends, loses no entry, and leaves a table in which every entry is
  found again.
\<close>

section \<open>Two tables in one array\<close>

definition old_live :: "khint_t \<Rightarrow> ('k, 'v) rehash \<Rightarrow> khint_t set" where
  "old_live n r = {i. i < n \<and> \<not> ac_iseither (r_flag r) i}"

definition new_live :: "nat \<Rightarrow> ('k, 'v) rehash \<Rightarrow> khint_t set" where
  "new_live k r = {i. i < 2 ^ k \<and> \<not> ac_isempty (r_new r) i}"

definition both :: "khint_t \<Rightarrow> nat \<Rightarrow> ('k, 'v) rehash \<Rightarrow> khint_t set" where
  "both n k r = old_live n r \<union> new_live k r"

text \<open>The entries of both tables and the one in hand, if there is one, are those of the beginning.\<close>

definition rehash_inv :: "khint_t \<Rightarrow> nat \<Rightarrow> ('k \<Rightarrow> khint_t) \<Rightarrow> ('k \<times> 'v) set \<Rightarrow> ('k, 'v) rehash \<Rightarrow> ('k \<times> 'v) set \<Rightarrow> bool" where
  "rehash_inv n k hash_func E r pend \<longleftrightarrow> old_live n r \<inter> new_live k r = {} \<and> inj_on (r_key r) (both n k r)
     \<and> (\<lambda>i. (r_key r i, r_val r i)) ` both n k r \<union> pend = E \<and> (\<forall>(key, val) \<in> pend. key \<notin> r_key r ` both n k r)
     \<and> (\<forall>i \<in> new_live k r. found_at k hash_func (r_new r) (r_key r i) i) \<and> (\<forall>i < 2 ^ k. \<not> ac_isdel (r_new r) i)"

lemma rehash_invD:
  assumes "rehash_inv n k hash_func E r pend"
  shows "old_live n r \<inter> new_live k r = {}" "inj_on (r_key r) (both n k r)"
    "(\<lambda>i. (r_key r i, r_val r i)) ` both n k r \<union> pend = E" "(key, val) \<in> pend \<Longrightarrow> key \<notin> r_key r ` both n k r"
    "i \<in> new_live k r \<Longrightarrow> found_at k hash_func (r_new r) (r_key r i) i" "i < 2 ^ k \<Longrightarrow> \<not> ac_isdel (r_new r) i"
  using assms unfolding rehash_inv_def by blast+

lemma card_both:
  assumes "rehash_inv n k hash_func E r pend" "pend \<inter> (\<lambda>i. (r_key r i, r_val r i)) ` both n k r = {}" "finite pend"
  shows "card E = card (both n k r) + card pend"
proof -
  have "inj_on (\<lambda>i. (r_key r i, r_val r i)) (both n k r)" using rehash_invD(2)[OF assms(1)] by (auto simp: inj_on_def)
  then have "card ((\<lambda>i. (r_key r i, r_val r i)) ` both n k r) = card (both n k r)" by (rule card_image)
  moreover have "finite (both n k r)" by (simp add: both_def)
  moreover have "(\<lambda>i. (r_key r i, r_val r i)) ` both n k r \<inter> pend = {}" using assms(2) by blast
  ultimately show ?thesis unfolding rehash_invD(3)[OF assms(1), symmetric] using assms(3) by (subst card_Un_disjoint) simp_all
qed

text \<open>The place for the entry in hand.\<close>

lemma new_place:
  assumes inv: "rehash_inv n k hash_func E r {(key, val)}" and "k < 32" "card E < 2 ^ k"
  obtains i where "find_empty (r_new r) (2 ^ k - 1) (and (hash_func key) (2 ^ k - 1)) 0 = Some i" "i < 2 ^ k"
    "ac_isempty (r_new r) i" "found_at k hash_func (r_new r) key i"
proof -
  have "key \<notin> r_key r ` both n k r" using rehash_invD(4)[OF inv] by simp
  then have "card E = card (both n k r) + 1" using card_both[OF inv] by auto
  moreover have "card (new_live k r) \<le> card (both n k r)" by (rule card_mono) (auto simp: both_def)
  ultimately have "card (new_live k r) < card {i :: khint_t. i < 2 ^ k}" using assms(3) card_buckets[OF assms(2)] by simp
  then have "\<not> {i. i < 2 ^ k} \<subseteq> new_live k r" using card_mono[of "new_live k r" "{i. i < 2 ^ k}"] by auto
  then obtain e where "e < 2 ^ k" "ac_isempty (r_new r) e" by (auto simp: new_live_def)
  then obtain t where t: "t < 2 ^ k" "ac_isempty (r_new r) (probe k (hash_func key) t)"
    "\<forall>s < t. \<not> ac_isempty (r_new r) (probe k (hash_func key) s)"
    using first_probe[OF assms(2), of e "ac_isempty (r_new r)" "hash_func key"] by metis
  show thesis
  proof (rule that)
    show "find_empty (r_new r) (2 ^ k - 1) (and (hash_func key) (2 ^ k - 1)) 0 = Some (probe k (hash_func key) t)"
      using find_empty_at[OF assms(2) t(1,2) le0 t(3)] by (simp add: and_mask assms(2) probe_0)
    show "found_at k hash_func (r_new r) key (probe k (hash_func key) t)" using t unfolding found_at_def by blast
  qed (use t probe_less[OF assms(2)] in auto)
qed

text \<open>Writing the entry in hand; what was in its place is taken in hand, if the old table had an entry there.\<close>

definition placed :: "khint_t \<Rightarrow> 'k \<Rightarrow> 'v \<Rightarrow> ('k, 'v) rehash \<Rightarrow> ('k, 'v) rehash" where
  "placed i key val r = r\<lparr>r_new := ac_set_isempty_false i (r_new r), r_key := (r_key r)(i := key), r_val := (r_val r)(i := val)\<rparr>"

lemma placed_simps [simp]:
  "r_new (placed i key val r) = ac_set_isempty_false i (r_new r)" "r_flag (placed i key val r) = r_flag r"
  "r_key (placed i key val r) = (r_key r)(i := key)" "r_val (placed i key val r) = (r_val r)(i := val)"
  by (simp_all add: placed_def)

lemma new_live_placed:
  "new_live k (placed i key val r) = (if i < 2 ^ k then insert i (new_live k r) else new_live k r)"
  by (auto simp: new_live_def)

lemma placed_found:
  assumes inv: "rehash_inv n k hash_func E r pend" and i: "i < 2 ^ k" "found_at k hash_func (r_new r) key i" "i \<notin> new_live k r"
    and j: "j \<in> new_live k (placed i key val r)"
  shows "found_at k hash_func (r_new (placed i key val r)) (r_key (placed i key val r) j) j"
proof -
  have "found_at k hash_func (r_new r) (r_key (placed i key val r) j) j"
    using i j rehash_invD(5)[OF inv] by (auto simp: new_live_placed)
  then show ?thesis by (rule found_at_mono) simp
qed

lemma placed_kept:
  assumes inv: "rehash_inv n k hash_func E r {(key, val)}" and i: "i < 2 ^ k" "ac_isempty (r_new r) i"
    "found_at k hash_func (r_new r) key i"
  shows "i \<notin> old_live n r \<Longrightarrow> rehash_inv n k hash_func E (placed i key val r) {}"
    "i \<in> old_live n r \<Longrightarrow> rehash_inv n k hash_func E ((placed i key val r)\<lparr>r_flag := ac_set_isdel_true i (r_flag r)\<rparr>) {(r_key r i, r_val r i)}"
proof -
  note d = rehash_invD[OF inv]
  have i': "i \<notin> new_live k r" using i(2) by (simp add: new_live_def)
  note found = placed_found[OF inv i(1,3) i', of _ val]
  have key: "key \<notin> r_key r ` both n k r" using d(4) by simp
  show "rehash_inv n k hash_func E (placed i key val r) {}" if o: "i \<notin> old_live n r"
  proof -
    have old: "old_live n (placed i key val r) = old_live n r" by (simp add: old_live_def)
    have b: "both n k (placed i key val r) = insert i (both n k r)" "i \<notin> both n k r"
      using i(1) i' o by (auto simp: both_def old new_live_placed)
    have "(\<lambda>j. (r_key (placed i key val r) j, r_val (placed i key val r) j)) ` both n k (placed i key val r) = E"
      using d(3) b by auto
    moreover have "inj_on (r_key (placed i key val r)) (both n k (placed i key val r))"
      using d(2) key b unfolding b(1) by (auto simp: inj_on_def)
    ultimately show ?thesis
      unfolding rehash_inv_def using d(1,6) o found i(1) by (auto simp: old new_live_placed)
  qed
  show "rehash_inv n k hash_func E ((placed i key val r)\<lparr>r_flag := ac_set_isdel_true i (r_flag r)\<rparr>) {(r_key r i, r_val r i)}"
    if o: "i \<in> old_live n r"
  proof -
    let ?r = "(placed i key val r)\<lparr>r_flag := ac_set_isdel_true i (r_flag r)\<rparr>"
    have old: "old_live n ?r = old_live n r - {i}" by (auto simp: old_live_def flag_bits(3))
    have new: "new_live k ?r = insert i (new_live k r)" using i(1) new_live_placed[of k i key val r] by (simp add: new_live_def)
    have b: "both n k ?r = both n k r" "i \<in> both n k r" using o by (auto simp: both_def old new)
    have "(\<lambda>j. (r_key ?r j, r_val ?r j)) ` both n k ?r \<union> {(r_key r i, r_val r i)} = E"
      using d(3) b by auto
    moreover have "inj_on (r_key ?r) (both n k ?r)"
      using d(2) key unfolding b(1) by (auto simp: inj_on_def)
    moreover have "r_key r i \<notin> r_key ?r ` both n k ?r"
      using d(2) key b by (auto simp: inj_on_def)
    ultimately show ?thesis
      unfolding rehash_inv_def using d(1,6) found i(1) by (auto simp: old new new_live_placed)
  qed
qed

section \<open>The kick-out process\<close>

lemma kick_keeps:
  assumes "rehash_inv n k hash_func E r {(key, val)}" "k < 32" "card E < 2 ^ k"
  shows "\<exists>r'. kick hash_func n (2 ^ k - 1) key val r = Some r' \<and> rehash_inv n k hash_func E r' {} \<and> old_live n r' \<subseteq> old_live n r"
  using assms(1)
proof (induction "card (old_live n r)" arbitrary: r key val rule: less_induct)
  case less
  obtain i where i: "find_empty (r_new r) (2 ^ k - 1) (and (hash_func key) (2 ^ k - 1)) 0 = Some i" "i < 2 ^ k"
    "ac_isempty (r_new r) i" "found_at k hash_func (r_new r) key i" by (rule new_place[OF less.prems assms(2,3)])
  show ?case
  proof (cases "i \<in> old_live n r")
    case True
    let ?r = "(placed i key val r)\<lparr>r_flag := ac_set_isdel_true i (r_flag r)\<rparr>"
    have old: "old_live n ?r = old_live n r - {i}" by (auto simp: old_live_def flag_bits(3))
    have "finite (old_live n r)" by simp
    then have "card (old_live n ?r) < card (old_live n r)" unfolding old using True by (rule card_Diff1_less)
    from less.hyps[OF this placed_kept(2)[OF less.prems i(2-4) True]] obtain r' where
      r': "kick hash_func n (2 ^ k - 1) (r_key r i) (r_val r i) ?r = Some r'" "rehash_inv n k hash_func E r' {}"
      "old_live n r' \<subseteq> old_live n r - {i}" unfolding old by blast
    moreover have "kick hash_func n (2 ^ k - 1) key val r = kick hash_func n (2 ^ k - 1) (r_key r i) (r_val r i) ?r"
      using True by (subst kick.simps) (simp add: i(1) old_live_def placed_def Let_def)
    ultimately show ?thesis by auto
  next
    case False
    then have "kick hash_func n (2 ^ k - 1) key val r = Some (placed i key val r)"
      by (subst kick.simps) (auto simp: i(1) old_live_def placed_def Let_def)
    moreover have "old_live n (placed i key val r) = old_live n r" by (simp add: old_live_def)
    ultimately show ?thesis using placed_kept(1)[OF less.prems i(2-4) False] by auto
  qed
qed

lemma taken_out:
  assumes inv: "rehash_inv n k hash_func E r {}" and j: "j \<in> old_live n r"
  shows "rehash_inv n k hash_func E (r\<lparr>r_flag := ac_set_isdel_true j (r_flag r)\<rparr>) {(r_key r j, r_val r j)}"
    "old_live n (r\<lparr>r_flag := ac_set_isdel_true j (r_flag r)\<rparr>) = old_live n r - {j}"
proof -
  let ?r = "r\<lparr>r_flag := ac_set_isdel_true j (r_flag r)\<rparr>"
  note d = rehash_invD[OF inv]
  show old: "old_live n ?r = old_live n r - {j}" by (auto simp: old_live_def flag_bits(3))
  have new: "new_live k ?r = new_live k r" by (simp add: new_live_def)
  have b: "both n k ?r = both n k r - {j}" "j \<in> both n k r" using j d(1) by (auto simp: both_def old new)
  have "(\<lambda>i. (r_key ?r i, r_val ?r i)) ` both n k ?r \<union> {(r_key r j, r_val r j)} = E" using d(3) b by auto
  moreover have "inj_on (r_key ?r) (both n k ?r)" using d(2) unfolding b(1) by (simp add: inj_on_diff)
  moreover have "r_key r j \<notin> r_key ?r ` both n k ?r" using d(2) b by (auto simp: inj_on_def)
  ultimately show "rehash_inv n k hash_func E ?r {(r_key r j, r_val r j)}"
    unfolding rehash_inv_def using d(1,5,6) by (auto simp: old new)
qed

lemma rehash_buckets_keeps:
  assumes "rehash_inv n k hash_func E r {}" "k < 32" "card E < 2 ^ k" "set js \<subseteq> {i. i < n}"
  shows "\<exists>r'. rehash_buckets hash_func n (2 ^ k - 1) js r = Some r' \<and> rehash_inv n k hash_func E r' {}
    \<and> old_live n r' \<subseteq> old_live n r - set js"
  using assms(1,4)
proof (induction js arbitrary: r)
  case (Cons j js)
  show ?case
  proof (cases "j \<in> old_live n r")
    case True
    note out = taken_out[OF Cons.prems(1) True]
    obtain r1 where r1: "kick hash_func n (2 ^ k - 1) (r_key r j) (r_val r j) (r\<lparr>r_flag := ac_set_isdel_true j (r_flag r)\<rparr>) = Some r1"
      "rehash_inv n k hash_func E r1 {}" "old_live n r1 \<subseteq> old_live n r - {j}"
      using kick_keeps[OF out(1) assms(2,3)] unfolding out(2) by blast
    obtain r2 where "rehash_buckets hash_func n (2 ^ k - 1) js r1 = Some r2" "rehash_inv n k hash_func E r2 {}"
      "old_live n r2 \<subseteq> old_live n r1 - set js" using Cons.IH[OF r1(2)] Cons.prems(2) by auto
    moreover have "\<not> ac_iseither (r_flag r) j" using True by (simp add: old_live_def)
    ultimately show ?thesis using r1(1,3) by (intro exI[of _ r2]) auto
  next
    case False
    obtain r2 where r2: "rehash_buckets hash_func n (2 ^ k - 1) js r = Some r2" "rehash_inv n k hash_func E r2 {}"
      "old_live n r2 \<subseteq> old_live n r - set js" using Cons.IH[OF Cons.prems(1)] Cons.prems(2) by auto
    moreover have "ac_iseither (r_flag r) j" using False Cons.prems(2) by (simp add: old_live_def)
    ultimately show ?thesis using False by (intro exI[of _ r2]) auto
  qed
qed simp

section \<open>Resizing\<close>

lemma new_size:
  obtains k where "2 \<le> k" "k < 32" "(if kroundup32 s < 4 then 4 else kroundup32 s) = (2 ^ k :: khint_t)"
    "unat s \<le> 2 ^ 31 \<and> s \<noteq> 0 \<longrightarrow> unat s \<le> 2 ^ k \<and> (k = 2 \<or> 2 ^ (k - 1) < unat s)"
proof -
  obtain j where j: "j \<le> 32" "kroundup32 s = 2 ^ j" "unat (s - 1) < 2 ^ j" "j = 0 \<or> 2 ^ (j - 1) \<le> unat (s - 1)"
    by (rule kroundup32_power)
  have s: "unat (s - 1) = unat s - 1 \<and> 0 < unat s" if "s \<noteq> 0" using that by (simp add: unat_minus_one unat_gt_0)
  consider "j < 2" | "2 \<le> j" "j < 32" | "j = 32" using j(1) by linarith
  then show thesis
  proof cases
    case 1
    then have "j = 0 \<or> j = 1" by auto
    then have small: "kroundup32 s = 1 \<or> kroundup32 s = 2" "unat (s - 1) < 2" using j by auto
    show thesis
    proof (rule that[of 2])
      show "(if kroundup32 s < 4 then 4 else kroundup32 s) = (2 ^ 2 :: khint_t)" using small(1) by auto
      show "unat s \<le> 2 ^ 31 \<and> s \<noteq> 0 \<longrightarrow> unat s \<le> 2 ^ 2 \<and> (2 = 2 \<or> 2 ^ (2 - 1) < unat s)" using s small(2) by auto
    qed simp_all
  next
    case 2
    have "(2 :: nat) ^ 2 \<le> 2 ^ j" by (rule power_increasing) (use 2 in simp_all)
    then have "\<not> (2 ^ j :: khint_t) < 4" using 2 by (simp add: word_less_nat_alt unat_exp)
    then have N: "(if kroundup32 s < 4 then 4 else kroundup32 s) = 2 ^ j" using j(2) by simp
    show thesis
    proof (rule that[OF 2 N])
      show "unat s \<le> 2 ^ 31 \<and> s \<noteq> 0 \<longrightarrow> unat s \<le> 2 ^ j \<and> (j = 2 \<or> 2 ^ (j - 1) < unat s)"
        using s j(3,4) 2 by auto
    qed
  next
    case 3
    have big: "2 ^ 31 \<le> unat (s - 1)" using j(4) 3 by auto
    show thesis
    proof (rule that[of 2])
      show "(if kroundup32 s < 4 then 4 else kroundup32 s) = (2 ^ 2 :: khint_t)" using j(2) 3 by simp
      show "unat s \<le> 2 ^ 31 \<and> s \<noteq> 0 \<longrightarrow> unat s \<le> 2 ^ 2 \<and> (2 = 2 \<or> 2 ^ (2 - 1) < unat s)" using s big by auto
    qed simp_all
  qed
qed

lemma rehash_start:
  assumes "kh_inv hash_func h" "k < 32"
  shows "rehash_inv (n_buckets h) k hash_func (entries h)
    \<lparr>r_key = kh_key h, r_val = kh_val h, r_flag = kh_flag h, r_new = memset_flags (2 ^ k) f\<rparr> {}"
    (is "rehash_inv _ _ _ _ ?r _")
proof -
  have "inj_on (kh_key h) (live h)"
    using assms(1) kh_bucketsD(8) unfolding kh_inv_def by (auto simp: live_def)
  moreover have "old_live (n_buckets h) ?r = live h" by (simp add: old_live_def live_def kh_exist_def)
  moreover have "new_live k ?r = {}" by (auto simp: new_live_def)
  ultimately show ?thesis unfolding rehash_inv_def both_def by (simp add: entries_def)
qed

lemma rehash_end:
  assumes inv: "rehash_inv n k hash_func (entries h) r {}" "old_live n r = {}" and k: "2 \<le> k" "k < 32"
    and size: "unat (kh_size h) = card (entries h)" "kh_size h < hash_upper (2 ^ k)"
    and h': "h' = h\<lparr>kh_key := r_key r, kh_val := r_val r, kh_flag := r_new r, n_buckets := 2 ^ k, n_occupied := kh_size h,
      upper_bound := hash_upper (2 ^ k)\<rparr>"
  shows "kh_buckets k hash_func h'" "entries h' = entries h"
proof -
  note d = rehash_invD[OF inv(1)]
  have b: "both n k r = new_live k r" using inv(2) by (simp add: both_def)
  have live: "live h' = new_live k r" and used: "used h' = new_live k r"
    using d(6) by (auto simp: h' live_def kh_exist_def used_def new_live_def flag_bits(3))
  have "card (new_live k r) = card (entries h)" using card_both[OF inv(1)] b by simp
  then show "kh_buckets k hash_func h'"
    unfolding kh_buckets_def live used using k size d(2,5) b by (simp add: h' less_imp_le)
  show "entries h' = entries h" using d(3) unfolding entries_def live b by (simp add: h')
qed

lemma kh_inv_facts:
  assumes "kh_inv hash_func h"
  shows "inj_on (kh_key h) (live h)" "unat (kh_size h) = card (entries h)"
proof -
  show inj: "inj_on (kh_key h) (live h)" using assms kh_bucketsD(8) unfolding kh_inv_def by (auto simp: live_def)
  then have "inj_on (\<lambda>i. (kh_key h i, kh_val h i)) (live h)" by (auto simp: inj_on_def)
  then have "card (entries h) = card (live h)" unfolding entries_def by (rule card_image)
  then show "unat (kh_size h) = card (entries h)"
    using assms kh_bucketsD(5) unfolding kh_inv_def by (auto simp: live_def)
qed

lemma resize_rehashes:
  assumes inv: "kh_inv hash_func h" and k: "2 \<le> k" "k < 32" "(if kroundup32 s < 4 then 4 else kroundup32 s) = 2 ^ k"
    and size: "kh_size h < hash_upper (2 ^ k)" and A: "kmalloc_flags A = Some f" "n_buckets h < 2 ^ k \<longrightarrow> krealloc_keys A \<and> krealloc_vals A"
      "2 ^ k < n_buckets h \<longrightarrow> krealloc_shrink A"
  obtains h' where "kh_resize hash_func A h s = Some (0, h')" "kh_buckets k hash_func h'" "kh_map h' = kh_map h"
    "kh_size h' = kh_size h" "n_occupied h' = kh_size h"
proof -
  let ?r = "\<lparr>r_key = kh_key h, r_val = kh_val h, r_flag = kh_flag h, r_new = memset_flags (2 ^ k) f\<rparr>"
  let ?js = "map of_nat [0..<unat (n_buckets h)]"
  note facts = kh_inv_facts[OF inv]
  have js: "set ?js = {i :: khint_t. i < n_buckets h}" by (rule set_buckets)
  have "card (entries h) < unat (hash_upper (2 ^ k))" using size facts(2) by (simp add: word_less_nat_alt)
  then have "card (entries h) < 2 ^ k" using hash_upper(2)[OF k(1,2) refl] by simp
  from rehash_buckets_keeps[OF rehash_start[OF inv k(2)] k(2) this, of ?js f] obtain r where
    r: "rehash_buckets hash_func (n_buckets h) (2 ^ k - 1) ?js ?r = Some r" "rehash_inv (n_buckets h) k hash_func (entries h) r {}"
    "old_live (n_buckets h) r \<subseteq> old_live (n_buckets h) ?r - set ?js" unfolding js by blast
  have none: "old_live (n_buckets h) r = {}" using r(3) unfolding js by (auto simp: old_live_def)
  define h' where "h' = h\<lparr>kh_key := r_key r, kh_val := r_val r, kh_flag := r_new r, n_buckets := 2 ^ k, n_occupied := kh_size h,
      upper_bound := hash_upper (2 ^ k)\<rparr>"
  note e = rehash_end[OF r(2) none k(1,2) facts(2) size h'_def]
  have "kh_resize hash_func A h s = Some (0, h')"
    using k(3) size A r(1) unfolding kh_resize_def Let_def by (auto simp: h'_def linorder_not_le[symmetric])
  moreover have "kh_map h' = kh_map h" by (rule kh_map_same[OF facts(1) kh_bucketsD(8)[OF e(1)] e(2)])
  ultimately show thesis using that e(1) by (simp add: h'_def)
qed

definition allocates :: "kh_alloc \<Rightarrow> bool" where
  "allocates A \<longleftrightarrow> kmalloc_flags A \<noteq> None \<and> krealloc_keys A \<and> krealloc_vals A"

lemma resize_outcome:
  assumes inv: "kh_inv hash_func h" and k: "2 \<le> k" "k < 32" "(if kroundup32 s < 4 then 4 else kroundup32 s) = 2 ^ k"
    and size: "kh_size h < hash_upper (2 ^ k)" and shrink: "2 ^ k < n_buckets h \<longrightarrow> krealloc_shrink A"
  obtains "\<not> allocates A" "kh_resize hash_func A h s = Some (- 1, h)"
  | h' where "kh_resize hash_func A h s = Some (0, h')" "kh_buckets k hash_func h'" "kh_map h' = kh_map h"
    "kh_size h' = kh_size h" "n_occupied h' = kh_size h"
proof (cases "kmalloc_flags A = None \<or> n_buckets h < 2 ^ k \<and> \<not> (krealloc_keys A \<and> krealloc_vals A)")
  case True
  have "kh_resize hash_func A h s = Some (- 1, h)"
  proof (cases "kmalloc_flags A")
    case None
    then show ?thesis using size unfolding kh_resize_def Let_def k(3) by (simp add: linorder_not_le)
  next
    case (Some f)
    then have "n_buckets h < 2 ^ k \<and> \<not> (krealloc_keys A \<and> krealloc_vals A)" using True by simp
    then show ?thesis using size Some unfolding kh_resize_def Let_def k(3) by (simp add: linorder_not_le)
  qed
  then show thesis using that(1) True by (auto simp: allocates_def)
next
  case False
  then obtain f where "kmalloc_flags A = Some f" "n_buckets h < 2 ^ k \<longrightarrow> krealloc_keys A \<and> krealloc_vals A" by auto
  then show thesis using resize_rehashes[OF inv k size _ _ shrink] that(2) by metis
qed

text \<open>The size that insertion asks for when the table is full: the same, or twice as much.\<close>

lemma power_bracket:
  assumes "2 \<le> m" "2 \<le> k" "k = 2 \<or> 2 ^ (k - 1) < (b :: nat)"
  shows "b = 2 ^ m - 1 \<Longrightarrow> b \<le> 2 ^ k \<Longrightarrow> k = m" "b = 2 ^ m + 1 \<Longrightarrow> b \<le> 2 ^ k \<Longrightarrow> k = m + 1"
proof -
  define m' k' where "m' = m - 1" and "k' = k - 1"
  then have mk: "m = Suc m'" "1 \<le> m'" "k = Suc k'" "1 \<le> k'" using assms(1,2) by auto
  have less: "x < y" if "(2 :: nat) ^ x < 2 ^ y" for x y using that by simp
  have top: "2 ^ k' < b" if "k \<noteq> 2" using that assms(3) by (simp add: k'_def)
  show "k = m" if b: "b = 2 ^ m - 1" "b \<le> 2 ^ k"
  proof -
    have "(2 :: nat) ^ 1 \<le> 2 ^ m'" by (rule power_increasing) (use mk in simp_all)
    then have "(2 :: nat) ^ m' < 2 ^ k" using b unfolding mk(1) power_Suc power_one_right by linarith
    then have "m' < k" by (rule less)
    moreover have "k' < m" if "k \<noteq> 2" by (rule less) (use top[OF that] b(1) in linarith)
    ultimately show ?thesis using mk(1,3) assms(1) by linarith
  qed
  show "k = m + 1" if b: "b = 2 ^ m + 1" "b \<le> 2 ^ k"
  proof -
    have "m < k" by (rule less) (use b in linarith)
    moreover have "k' \<le> m" if "k \<noteq> 2"
    proof -
      have "(2 :: nat) ^ k' \<le> 2 ^ m" using top[OF that] b(1) by linarith
      then show ?thesis by simp
    qed
    ultimately show ?thesis using mk(3) assms(1) by linarith
  qed
qed

lemma put_request:
  assumes inv: "kh_buckets m hash_func h" and m: "m \<le> 30"
    and s: "s = (if push_bit 1 (kh_size h) < n_buckets h then n_buckets h - 1 else n_buckets h + 1)"
    and k: "2 \<le> k" "k < 32" "unat s \<le> 2 ^ 31 \<and> s \<noteq> 0 \<longrightarrow> unat s \<le> 2 ^ k \<and> (k = 2 \<or> 2 ^ (k - 1) < unat s)"
  shows "kh_size h < hash_upper (2 ^ k)" "n_buckets h \<le> 2 ^ k" "2 ^ k \<le> max (unat (n_buckets h)) (4 * unat (kh_size h))"
proof -
  note i = kh_bucketsD[OF inv]
  have n: "unat (n_buckets h) = 2 ^ m" using i(2,3) by (simp add: unat_exp)
  have m4: "(2 :: nat) ^ 2 \<le> 2 ^ m" "(2 :: nat) ^ m \<le> 2 ^ 30" by (rule power_increasing; use i(1) m in simp)+
  have "card (live h) \<le> card (used h)" by (rule card_mono) (auto simp: used_def live_def kh_exist_def flag_bits(3))
  then have sz: "unat (kh_size h) < 2 ^ m"
    using i(4-7) hash_upper(2)[OF i(1,2) refl] by (simp add: word_le_nat_alt)
  then have twice: "unat (push_bit 1 (kh_size h)) = 2 * unat (kh_size h)"
    using m4(2) by (simp add: push_bit_eq_mult unat_word_ariths)
  note hu = hash_upper(3)[OF k(1,2) refl]
  show "kh_size h < hash_upper (2 ^ k)" "n_buckets h \<le> 2 ^ k" "2 ^ k \<le> max (unat (n_buckets h)) (4 * unat (kh_size h))"
  proof (atomize (full), cases "push_bit 1 (kh_size h) < n_buckets h")
    case True
    have "n_buckets h \<noteq> 0" using n by auto
    then have us: "unat s = 2 ^ m - 1" using True n by (simp add: s unat_minus_one)
    then have "s \<noteq> 0" using m4 by auto
    then have km: "k = m" using power_bracket(1)[OF i(1) k(1) _ us] k(3) us m4(2) by auto
    then show "kh_size h < hash_upper (2 ^ k) \<and> n_buckets h \<le> 2 ^ k \<and> 2 ^ k \<le> max (unat (n_buckets h)) (4 * unat (kh_size h))"
      using True twice n hu i(3) by (simp add: word_less_nat_alt)
  next
    case False
    have us: "unat s = 2 ^ m + 1" using False n m4(2) by (simp add: s unat_word_ariths)
    then have "s \<noteq> 0" by auto
    then have km: "k = m + 1" using power_bracket(2)[OF i(1) k(1) _ us] k(3) us m4(2) by auto
    then show "kh_size h < hash_upper (2 ^ k) \<and> n_buckets h \<le> 2 ^ k \<and> 2 ^ k \<le> max (unat (n_buckets h)) (4 * unat (kh_size h))"
      using False twice n hu sz k(2) unat_exp[of k] by (simp add: word_less_nat_alt word_le_nat_alt)
  qed
qed

text \<open>Insertion first makes room: the table stays as it is, is cleaned of deleted entries, or is doubled.\<close>

lemma put_resize_outcome:
  assumes inv: "kh_inv hash_func h" and n: "unat (n_buckets h) \<le> 2 ^ 30"
  obtains "\<not> allocates A" "kh_put_resize hash_func A h = Some (- 1, h)"
  | k h' where "kh_put_resize hash_func A h = Some (0, h')" "kh_buckets k hash_func h'" "kh_map h' = kh_map h"
    "kh_size h' = kh_size h" "n_occupied h' < upper_bound h'"
    "unat (n_buckets h') \<le> max (unat (n_buckets h)) (max 4 (4 * unat (kh_size h)))"
proof (cases "upper_bound h \<le> n_occupied h")
  case False
  then have "n_buckets h \<noteq> 0" using inv kh_bucketsD(1) by (auto simp: kh_inv_def kh_buckets_def)
  then obtain k where "kh_buckets k hash_func h" using inv by (auto simp: kh_inv_def)
  then show thesis using that(2)[of h k] False by (simp add: kh_put_resize_def)
next
  case True
  note failed = that(1) and ok = that(2)
  define s where "s = (if push_bit 1 (kh_size h) < n_buckets h then n_buckets h - 1 else n_buckets h + 1)"
  have res: "kh_put_resize hash_func A h = kh_resize hash_func A h s" using True by (simp add: kh_put_resize_def s_def)
  obtain k where k: "2 \<le> k" "k < 32" "(if kroundup32 s < 4 then 4 else kroundup32 s) = (2 ^ k :: khint_t)"
    "unat s \<le> 2 ^ 31 \<and> s \<noteq> 0 \<longrightarrow> unat s \<le> 2 ^ k \<and> (k = 2 \<or> 2 ^ (k - 1) < unat s)" by (rule new_size)
  have "kh_size h < hash_upper (2 ^ k) \<and> n_buckets h \<le> 2 ^ k \<and> 2 ^ k \<le> max (unat (n_buckets h)) (max 4 (4 * unat (kh_size h)))"
  proof (cases "n_buckets h = 0")
    case True
    then have z: "kh_size h = 0" "s = 1" using inv kh_bucketsD(2,3) unfolding kh_inv_def s_def by force+
    then have "k = 2" using k(1,4) by (auto simp: less_Suc_eq_0_disj)
    then show ?thesis using z(1) True hash_upper(3)[OF k(1,2) refl] by (simp add: word_less_nat_alt)
  next
    case False
    then obtain m where m: "kh_buckets m hash_func h" using inv by (auto simp: kh_inv_def)
    have "(2 :: nat) ^ m \<le> 2 ^ 30" using n kh_bucketsD(2,3)[OF m] by (simp add: unat_exp)
    then have "m \<le> 30" by (rule power_le_imp_le_exp[rotated]) simp
    from put_request[OF m this s_def k(1,2,4)] show ?thesis by linarith
  qed
  then have size: "kh_size h < hash_upper (2 ^ k)" and grow: "\<not> 2 ^ k < n_buckets h"
    and bound: "2 ^ k \<le> max (unat (n_buckets h)) (max 4 (4 * unat (kh_size h)))" by auto
  have "n_occupied h' < upper_bound h'" if "kh_buckets k hash_func h'" "n_occupied h' = kh_size h" for h' :: "('a, 'b) khash"
    using kh_bucketsD(4)[OF that(1)] that(2) size by simp
  note room = this
  show thesis
  proof (rule resize_outcome[OF inv k(1-3) size, of A])
    show "2 ^ k < n_buckets h \<longrightarrow> krealloc_shrink A" using grow by simp
    show thesis if "\<not> allocates A" "kh_resize hash_func A h s = Some (- 1, h)" using failed[OF that(1)] that(2) res by simp
    fix h'
    assume h': "kh_resize hash_func A h s = Some (0, h')" "kh_buckets k hash_func h'" "kh_map h' = kh_map h"
      "kh_size h' = kh_size h" "n_occupied h' = kh_size h"
    show thesis
      using ok[OF _ h'(2-4) room[OF h'(2,5)]] h'(1) res bound kh_bucketsD(3)[OF h'(2)] unat_exp[OF k(2)] by simp
  qed
qed

end
