(* ===== verification/Khash_Table.thy ===== *)
theory Khash_Table
  imports Khash_Rehash
begin

text \<open>
  The operations of the hash table as its users see them, and runs of them: the table is a map, whatever the hash
  function does, as long as memory can be had.
\<close>

section \<open>Operations\<close>

lemma kh_inv_set_value [simp]: "kh_inv hash_func (kh_set_value h x v) = kh_inv hash_func h"
  by (simp add: kh_inv_def kh_buckets_def kh_set_value_def live_def used_def kh_exist_def)

lemma kh_init_inv: "kh_inv hash_func (kh_init ks vs)" "kh_map (kh_init ks vs) = Map.empty"
  by (simp_all add: kh_inv_def kh_init_def kh_map_def kh_foreach_def kh_end_def)

lemma kh_clear_inv:
  assumes "kh_inv hash_func h"
  shows "kh_inv hash_func (kh_clear h)" "kh_map (kh_clear h) = Map.empty"
proof -
  have "ac_isempty (memset_flags (n_buckets h) (kh_flag h)) i" if i: "i < n_buckets h" for i
  proof -
    obtain k where "kh_buckets k hash_func h" using assms i by (auto simp: kh_inv_def)
    then show ?thesis using memset_flags(1)[OF i kh_bucketsD(3)] by blast
  qed
  then have none: "live (kh_clear h) = {}" "n_buckets h \<noteq> 0 \<Longrightarrow> used (kh_clear h) = {}"
    by (auto simp: kh_clear_def live_def used_def kh_exist_def flag_bits(3))
  show "kh_inv hash_func (kh_clear h)"
    using assms none unfolding kh_inv_def kh_buckets_def by (auto simp: kh_clear_def)
  show "kh_map (kh_clear h) = Map.empty"
    using kh_map_entries(2)[of "kh_clear h"] none(1) by auto
qed

lemma kh_del_inv:
  assumes "kh_inv hash_func h" "x \<in> live h"
  shows "kh_inv hash_func (kh_del h x)" "kh_map (kh_del h x) = (kh_map h)(kh_key h x := None)"
    "n_buckets (kh_del h x) = n_buckets h" "kh_size (kh_del h x) \<le> kh_size h"
proof -
  obtain k where k: "kh_buckets k hash_func h" using assms by (auto simp: kh_inv_def live_def)
  note i = kh_bucketsD[OF k]
  have del: "kh_del h x = h\<lparr>kh_flag := ac_set_isdel_true x (kh_flag h), kh_size := kh_size h - 1\<rparr>"
    using assms(2) by (auto simp: kh_del_def live_def kh_exist_def)
  have live: "live (kh_del h x) = live h - {x}" by (auto simp: del live_def kh_exist_def flag_bits(3))
  have used: "used (kh_del h x) = used h" by (simp add: del used_def)
  have fin: "finite (live h)" by simp
  then have "0 < card (live h)" using assms(2) by (auto simp: card_gt_0_iff)
  then have "kh_size h \<noteq> 0" using i(5) by auto
  then have sz: "unat (kh_size h - 1) = card (live h) - 1" using i(5) by (simp add: unat_minus_one)
  have found: "found_at k hash_func (kh_flag (kh_del h x)) (kh_key h j) j" if "j \<in> live h" for j
    using i(9)[OF that] by (rule found_at_mono) (simp add: del)
  have "inj_on (kh_key h) (live h - {x})" using i(8) by (rule inj_on_diff)
  then have "kh_buckets k hash_func (kh_del h x)"
    using i(1-7) sz found assms(2) fin unfolding kh_buckets_def live used by (simp add: del)
  then show "kh_inv hash_func (kh_del h x)" by (auto simp: kh_inv_def)
  show "kh_map (kh_del h x) = (kh_map h)(kh_key h x := None)"
    by (rule kh_map_remove[OF i(8) assms(2) live]) (simp_all add: del)
  show "n_buckets (kh_del h x) = n_buckets h" by (simp add: del)
  show "kh_size (kh_del h x) \<le> kh_size h" using sz i(5) by (simp add: del word_le_nat_alt)
qed

text \<open>The number of entries.\<close>

lemma kh_size_card: "kh_inv hash_func h \<Longrightarrow> unat (kh_size h) = card (dom (kh_map h))"
proof -
  assume inv: "kh_inv hash_func h"
  note f = kh_inv_facts[OF inv]
  have "dom (kh_map h) = kh_key h ` live h" unfolding dom_def kh_map_entries(2)[OF f(1)] by blast
  moreover have "entries h = (\<lambda>key. (key, the (kh_map h key))) ` kh_key h ` live h"
    using kh_map_live[OF f(1)] by (force simp: entries_def image_image)
  ultimately have "card (entries h) = card (dom (kh_map h))" by (simp add: card_image inj_on_def)
  then show ?thesis using f(2) by simp
qed

context khash_key
begin

lemma put_outcome:
  assumes inv: "kh_inv hash_func h" and n: "unat (n_buckets h) \<le> 2 ^ 30"
  obtains "\<not> allocates A" "kh_put hash_func hash_equal A h key = Some (n_buckets h, - 1, h)"
  | x r h' where "kh_put hash_func hash_equal A h key = Some (x, r, h')" "kh_inv hash_func h'" "x \<in> live h'" "kh_key h' x = key"
    "r = 0 \<longleftrightarrow> key \<in> dom (kh_map h)" "r \<noteq> - 1" "\<forall>v. kh_map (kh_set_value h' x v) = (kh_map h)(key \<mapsto> v)"
    "unat (n_buckets h') \<le> max (unat (n_buckets h)) (max 4 (4 * unat (kh_size h)))"
    "unat (kh_size h') \<le> unat (kh_size h) + 1"
proof -
  note failed = that(1) and ok = that(2)
  show thesis
  proof (rule put_resize_outcome[OF inv n, of A])
    assume "\<not> allocates A" "kh_put_resize hash_func A h = Some (- 1, h)"
    then show thesis by (intro failed) (simp_all add: kh_put_def)
  next
    fix k h1
    assume h1: "kh_put_resize hash_func A h = Some (0, h1)" "kh_buckets k hash_func h1" "kh_map h1 = kh_map h"
      "kh_size h1 = kh_size h" "n_occupied h1 < upper_bound h1"
      "unat (n_buckets h1) \<le> max (unat (n_buckets h)) (max 4 (4 * unat (kh_size h)))"
    obtain x r h' where h': "map_option (kh_put_at h1 key) (kh_put_site hash_func hash_equal h1 key) = Some (x, r, h')"
      "kh_buckets k hash_func h'" "x \<in> live h'" "kh_key h' x = key" "r = 0 \<longleftrightarrow> key \<in> kh_key h1 ` live h1" "r \<noteq> - 1"
      "live h' = insert x (live h1)" "\<forall>v. kh_map (kh_set_value h' x v) = (kh_map h1)(key \<mapsto> v)"
      by (rule put_room[OF h1(2,5)])
    have "n_buckets h' = n_buckets h1" using kh_bucketsD(3)[OF h'(2)] kh_bucketsD(3)[OF h1(2)] by simp
    moreover have "key \<in> kh_key h1 ` live h1 \<longleftrightarrow> key \<in> dom (kh_map h)"
      using kh_map_entries(2)[OF kh_bucketsD(8)[OF h1(2)], of key] h1(3) by (auto simp: domIff)
    moreover have "unat (kh_size h') \<le> unat (kh_size h) + 1"
      using kh_bucketsD(5)[OF h'(2)] kh_bucketsD(5)[OF h1(2)] h'(7) h1(4) card_insert_le_m1[of "card (live h1) + 1" "live h1" x]
      by simp
    ultimately show thesis
      using ok[of x r h'] h1 h' by (auto simp: kh_put_def kh_inv_def)
  qed
qed

lemma get_outcome:
  assumes "kh_inv hash_func h"
  obtains x where "kh_get hash_func hash_equal h key = Some x"
    "case kh_map h key of None \<Rightarrow> x = kh_end h | Some v \<Rightarrow> x \<in> live h \<and> kh_key h x = key \<and> kh_val h x = v"
proof -
  note inj = kh_inv_facts(1)[OF assms]
  obtain x where x: "kh_get hash_func hash_equal h key = Some x"
    "if key \<in> kh_key h ` live h then x \<in> live h \<and> kh_key h x = key else x = n_buckets h"
    by (rule get_finds[OF assms])
  show thesis
  proof (rule that[OF x(1)])
    show "case kh_map h key of None \<Rightarrow> x = kh_end h | Some v \<Rightarrow> x \<in> live h \<and> kh_key h x = key \<and> kh_val h x = v"
      using x(2) kh_map_entries(2)[OF inj, of key] kh_map_live[OF inj, of x]
      by (cases "key \<in> kh_key h ` live h") (auto simp: kh_end_def split: option.split)
  qed
qed

end

section \<open>Runs\<close>

text \<open>What a user does with the table, following the example in the header: set a value with \<^verbatim>\<open>kh_put\<close> and \<^verbatim>\<open>kh_value\<close>,
  delete what \<^verbatim>\<open>kh_get\<close> finds, clear.  \<open>None\<close>: the call does not return, or there is no memory.\<close>

datatype ('k, 'v) kh_op = Op_set 'k 'v | Op_del 'k | Op_clear

fun kh_do :: "('k \<Rightarrow> khint_t) \<Rightarrow> ('k \<Rightarrow> 'k \<Rightarrow> bool) \<Rightarrow> kh_alloc \<Rightarrow> ('k, 'v) kh_op \<Rightarrow> ('k, 'v) khash \<Rightarrow> ('k, 'v) khash option" where
  "kh_do hash_func hash_equal A (Op_set key v) h = (case kh_put hash_func hash_equal A h key of
     None \<Rightarrow> None | Some (x, r, h) \<Rightarrow> if r = - 1 then None else Some (kh_set_value h x v))"
| "kh_do hash_func hash_equal A (Op_del key) h = map_option (kh_del h) (kh_get hash_func hash_equal h key)"
| "kh_do hash_func hash_equal A Op_clear h = Some (kh_clear h)"

fun kh_run ::
  "('k \<Rightarrow> khint_t) \<Rightarrow> ('k \<Rightarrow> 'k \<Rightarrow> bool) \<Rightarrow> (kh_alloc \<times> ('k, 'v) kh_op) list \<Rightarrow> ('k, 'v) khash \<Rightarrow> ('k, 'v) khash option" where
  "kh_run hash_func hash_equal [] h = Some h"
| "kh_run hash_func hash_equal ((A, c) # ops) h = (case kh_do hash_func hash_equal A c h of
     None \<Rightarrow> None | Some h \<Rightarrow> kh_run hash_func hash_equal ops h)"

text \<open>The same on a map.\<close>

fun map_do :: "('k, 'v) kh_op \<Rightarrow> ('k \<rightharpoonup> 'v) \<Rightarrow> ('k \<rightharpoonup> 'v)" where
  "map_do (Op_set key v) m = m(key \<mapsto> v)"
| "map_do (Op_del key) m = m(key := None)"
| "map_do Op_clear m = Map.empty"

context khash_key
begin

lemma do_simulates:
  assumes inv: "kh_inv hash_func h" and n: "unat (n_buckets h) \<le> 2 ^ 30" and A: "allocates A"
  obtains h' where "kh_do hash_func hash_equal A c h = Some h'" "kh_inv hash_func h'" "kh_map h' = map_do c (kh_map h)"
    "unat (n_buckets h') \<le> max (unat (n_buckets h)) (max 4 (4 * unat (kh_size h)))" "unat (kh_size h') \<le> unat (kh_size h) + 1"
proof (cases c)
  case (Op_set key v)
  note ok = that
  show thesis
  proof (rule put_outcome[OF inv n, of A key])
    fix x r h'
    assume h': "kh_put hash_func hash_equal A h key = Some (x, r, h')" "kh_inv hash_func h'" "r \<noteq> - 1"
      "\<forall>v. kh_map (kh_set_value h' x v) = (kh_map h)(key \<mapsto> v)"
      "unat (n_buckets h') \<le> max (unat (n_buckets h)) (max 4 (4 * unat (kh_size h)))" "unat (kh_size h') \<le> unat (kh_size h) + 1"
    show thesis using ok[of "kh_set_value h' x v"] h' by (simp add: Op_set) (simp add: kh_set_value_def)
  qed (use A in simp)
next
  case (Op_del key)
  obtain x where x: "kh_get hash_func hash_equal h key = Some x"
    "case kh_map h key of None \<Rightarrow> x = kh_end h | Some v \<Rightarrow> x \<in> live h \<and> kh_key h x = key \<and> kh_val h x = v"
    by (rule get_outcome[OF inv])
  show thesis
  proof (cases "kh_map h key")
    case None
    then have "kh_del h x = h" using x(2) by (simp add: kh_del_def kh_end_def)
    then show thesis using that[of h] x(1) inv None by (simp add: Op_del fun_upd_idem)
  next
    case (Some v)
    then have "x \<in> live h" "kh_key h x = key" using x(2) by simp_all
    then show thesis
      using that[of "kh_del h x"] x(1) kh_del_inv[OF inv, of x] by (simp add: Op_del word_le_nat_alt)
  qed
next
  case Op_clear
  then show thesis using that[of "kh_clear h"] kh_clear_inv[OF inv] by (simp add: kh_clear_def split: if_splits)
qed

lemma run_simulates:
  assumes "kh_inv hash_func h" "\<forall>(A, c) \<in> set ops. allocates A" "unat (kh_size h) + length ops \<le> B" "B \<le> 2 ^ 28"
    "unat (n_buckets h) \<le> max 4 (4 * B)"
  shows "\<exists>h'. kh_run hash_func hash_equal ops h = Some h' \<and> kh_inv hash_func h' \<and> kh_map h' = fold map_do (map snd ops) (kh_map h)"
  using assms
proof (induction ops arbitrary: h)
  case (Cons op ops)
  obtain A c where op: "op = (A, c)" by (cases op)
  have A: "allocates A" using Cons.prems(2) by (simp add: op)
  have n: "unat (n_buckets h) \<le> 2 ^ 30" using Cons.prems(4,5) by simp
  obtain h1 where h1: "kh_do hash_func hash_equal A c h = Some h1" "kh_inv hash_func h1" "kh_map h1 = map_do c (kh_map h)"
    and bound: "unat (n_buckets h1) \<le> max (unat (n_buckets h)) (max 4 (4 * unat (kh_size h)))" "unat (kh_size h1) \<le> unat (kh_size h) + 1"
    by (rule do_simulates[OF Cons.prems(1) n A])
  have ops: "\<forall>(A, c) \<in> set ops. allocates A" using Cons.prems(2) by simp
  have "unat (kh_size h1) + length ops \<le> B" "unat (n_buckets h1) \<le> max 4 (4 * B)" using Cons.prems(3,5) bound by auto
  then obtain h' where "kh_run hash_func hash_equal ops h1 = Some h' \<and> kh_inv hash_func h'
      \<and> kh_map h' = fold map_do (map snd ops) (kh_map h1)" using Cons.IH[OF h1(2) ops _ Cons.prems(4)] by blast
  then show ?case using h1 by (simp add: op)
qed simp

end

section \<open>Theorems\<close>

text \<open>C12: The hash table is a map: after any sequence of at most \<open>2 ^ 28\<close> insertions, deletions and clearings, all of which return, it
  holds exactly the entries a map would; its size is their number, and every lookup returns,
  at the entry of the key or at the end.  The hash function may be any, memory must not run out.\<close>

theorem khash_is_map:
  assumes "\<forall>a b. hash_equal a b \<longleftrightarrow> a = b" "\<forall>(A, c) \<in> set ops. allocates A" "length ops \<le> 2 ^ 28"
  shows "\<exists>h. kh_run hash_func hash_equal ops (kh_init ks vs) = Some h \<and> kh_map h = fold map_do (map snd ops) Map.empty
    \<and> unat (kh_size h) = card (dom (kh_map h))
    \<and> (\<forall>key. \<exists>x. kh_get hash_func hash_equal h key = Some x \<and> (case kh_map h key of
          None \<Rightarrow> x = kh_end h | Some v \<Rightarrow> x < kh_end h \<and> kh_exist h x \<and> kh_key h x = key \<and> kh_val h x = v))"
proof -
  have K: "khash_key hash_equal" using assms(1) by (simp add: khash_key_def)
  obtain h where h: "kh_run hash_func hash_equal ops (kh_init ks vs) = Some h" "kh_inv hash_func h"
    "kh_map h = fold map_do (map snd ops) Map.empty"
  proof -
    have "unat (kh_size (kh_init ks vs)) + length ops \<le> length ops" "unat (n_buckets (kh_init ks vs)) \<le> max 4 (4 * length ops)"
      by (simp_all add: kh_init_def)
    from khash_key.run_simulates[OF K kh_init_inv(1)[of hash_func] assms(2) this(1) assms(3) this(2)]
    show ?thesis using that unfolding kh_init_inv(2) by blast
  qed
  have "\<exists>x. kh_get hash_func hash_equal h key = Some x \<and> (case kh_map h key of
          None \<Rightarrow> x = kh_end h | Some v \<Rightarrow> x < kh_end h \<and> kh_exist h x \<and> kh_key h x = key \<and> kh_val h x = v)" for key
    by (rule khash_key.get_outcome[OF K h(2), of key]) (auto simp: live_def kh_end_def split: option.splits)
  then show ?thesis using h kh_size_card[OF h(2)] by blast
qed

definition example_alloc :: kh_alloc where
  "example_alloc = \<lparr>kmalloc_flags = Some (\<lambda>_. 0), krealloc_keys = True, krealloc_vals = True, krealloc_shrink = True\<rparr>"

theorem khash_is_map_witness:
  "\<exists>h x. kh_run kh_str_hash_func kh_str_hash_equal
      (map (Pair example_alloc) [Op_set [97] 1, Op_set [98, 99] 2, Op_set [97] 3, Op_del [98, 99]]) (kh_init (\<lambda>_. []) (\<lambda>_. 0 :: nat)) = Some h
    \<and> kh_map h = [[97] \<mapsto> 3] \<and> kh_get kh_str_hash_func kh_str_hash_equal h [97] = Some x \<and> kh_val h x = 3
    \<and> kh_get kh_str_hash_func kh_str_hash_equal h [98, 99] = Some (kh_end h)"
proof -
  let ?ops = "map (Pair example_alloc) [Op_set [97] 1, Op_set [98, 99] 2, Op_set [97] 3, Op_del [98, 99]] :: (kh_alloc \<times> (u8 list, nat) kh_op) list"
  obtain h where h: "kh_run kh_str_hash_func kh_str_hash_equal ?ops (kh_init (\<lambda>_. []) (\<lambda>_. 0)) = Some h"
    "kh_map h = fold map_do (map snd ?ops) Map.empty"
    and get: "\<forall>key. \<exists>x. kh_get kh_str_hash_func kh_str_hash_equal h key = Some x \<and> (case kh_map h key of
          None \<Rightarrow> x = kh_end h | Some v \<Rightarrow> x < kh_end h \<and> kh_exist h x \<and> kh_key h x = key \<and> kh_val h x = v)"
    using khash_is_map[of kh_str_hash_equal ?ops kh_str_hash_func "\<lambda>_. []" "\<lambda>_. 0"] kh_str.hash_equal
    by (auto simp: allocates_def example_alloc_def)
  have m: "kh_map h = [[97] \<mapsto> 3]" using h(2) by auto
  then show ?thesis using h(1) get[THEN spec, of "[97]"] get[THEN spec, of "[98, 99]"] by auto
qed

text \<open>The bucket count a request stands for, and the resizing that ends with a call to \<^verbatim>\<open>krealloc\<close> that fails to cut an array.\<close>

definition resized :: "khint_t \<Rightarrow> khint_t" where
  "resized s = (if kroundup32 s < 4 then 4 else kroundup32 s)"

definition cut_fails :: "kh_alloc \<Rightarrow> ('k, 'v) khash \<Rightarrow> khint_t \<Rightarrow> bool" where
  "cut_fails A h s \<longleftrightarrow> kh_size h < hash_upper (resized s) \<and> kmalloc_flags A \<noteq> None \<and> resized s < n_buckets h \<and> \<not> krealloc_shrink A"

text \<open>C13: Resizing to any size keeps the table well formed and keeps its entries, whether it grows, shrinks, is rehashed in place or stays as
  it is because the request is too small; when there is no memory for the new flags or for growing it fails and changes nothing.
  The one exception, and the only way for the call not to return a table, is a table that is made smaller
  while \<^verbatim>\<open>krealloc\<close> fails to cut its arrays: the code takes the null pointer for the array, and the entries are lost.  The
  loops of the kick-out process all end.\<close>

theorem kh_resize_keeps:
  assumes "kh_inv hash_func h"
  shows "(kh_resize hash_func A h s = None \<longleftrightarrow> cut_fails A h s)
    \<and> (\<forall>rv h'. kh_resize hash_func A h s = Some (rv, h') \<longrightarrow>
        kh_inv hash_func h' \<and> kh_map h' = kh_map h \<and> kh_size h' = kh_size h \<and> (rv = 0 \<or> rv = - 1 \<and> h' = h \<and> \<not> allocates A))"
proof -
  obtain k where k: "2 \<le> k" "k < 32" "(if kroundup32 s < 4 then 4 else kroundup32 s) = (2 ^ k :: khint_t)" by (rule new_size)
  have r: "resized s = 2 ^ k" using k(3) by (simp add: resized_def)
  consider (small) "hash_upper (2 ^ k) \<le> kh_size h"
    | (flags) "kh_size h < hash_upper (2 ^ k)" "kmalloc_flags A = None"
    | (cut) "cut_fails A h s"
    | (works) "kh_size h < hash_upper (2 ^ k)" "2 ^ k < n_buckets h \<longrightarrow> krealloc_shrink A"
    unfolding cut_fails_def r by fastforce
  then show ?thesis
  proof cases
    case small
    then have "kh_resize hash_func A h s = Some (0, h)" unfolding kh_resize_def Let_def k(3) by simp
    moreover have "\<not> cut_fails A h s" using small by (auto simp: cut_fails_def r)
    ultimately show ?thesis using assms by simp
  next
    case flags
    then have "kh_resize hash_func A h s = Some (- 1, h)" unfolding kh_resize_def Let_def k(3) by (simp add: linorder_not_le)
    moreover have "\<not> cut_fails A h s" using flags by (simp add: cut_fails_def)
    ultimately show ?thesis using assms flags(2) by (simp add: allocates_def)
  next
    case cut
    then have "kh_resize hash_func A h s = None"
      unfolding kh_resize_def Let_def k(3) cut_fails_def r by (auto split: option.split)
    then show ?thesis using cut by simp
  next
    case works
    have "\<not> cut_fails A h s" using works(2) by (auto simp: cut_fails_def r)
    moreover have "\<exists>rv h'. kh_resize hash_func A h s = Some (rv, h') \<and> kh_inv hash_func h' \<and> kh_map h' = kh_map h
        \<and> kh_size h' = kh_size h \<and> (rv = 0 \<or> rv = - 1 \<and> h' = h \<and> \<not> allocates A)"
      by (rule resize_outcome[OF assms k works]) (use assms in \<open>auto simp: kh_inv_def\<close>)
    ultimately show ?thesis by auto
  qed
qed

theorem kh_resize_keeps_witness:
  "\<exists>rv h'. kh_resize kh_int_hash_func example_alloc (kh_init (\<lambda>_. 0) (\<lambda>_. 0 :: nat)) 100 = Some (rv, h') \<and> kh_inv kh_int_hash_func h'
    \<and> kh_map h' = Map.empty"
proof -
  have "\<not> cut_fails example_alloc (kh_init (\<lambda>_. 0) (\<lambda>_. 0 :: nat) :: (u32, nat) khash) 100" by (simp add: cut_fails_def example_alloc_def)
  with kh_resize_keeps[where A = example_alloc and s = 100, OF kh_init_inv(1)[of kh_int_hash_func "\<lambda>_. 0" "\<lambda>_. 0 :: nat"]] show ?thesis
    by (auto simp: kh_init_inv)
qed

text \<open>C31: A request for more than \<open>2 ^ 31\<close> buckets rounds up to zero and then to four: a table with three or more entries stays as it is
  and the call reports success.  So insertion into a full table of \<open>2 ^ 31\<close> buckets goes on without having made room.\<close>

theorem kh_resize_overflow:
  assumes "2 ^ 31 < unat s" "3 \<le> unat (kh_size h)"
  shows "kroundup32 s = 0 \<and> kh_resize hash_func A h s = Some (0, h)"
proof -
  have z: "kroundup32 s = 0"
  proof -
    obtain j where j: "j \<le> 32" "kroundup32 s = 2 ^ j" "unat (s - 1) < 2 ^ j" by (rule kroundup32_power)
    have "s \<noteq> 0" using assms(1) by auto
    then have "(2 :: nat) ^ 31 < 2 ^ j" using j(3) assms(1) by (simp add: unat_minus_one)
    then have "31 < j" by (rule power_less_imp_less_exp[rotated]) simp
    then show ?thesis using j(1,2) by simp
  qed
  have "hash_upper 4 = 3" by (simp add: hash_upper_def)
  then have "hash_upper 4 \<le> kh_size h" using assms(2) by (simp add: word_le_nat_alt)
  then show ?thesis using z by (simp add: kh_resize_def)
qed

theorem kh_resize_overflow_witness:
  "kh_resize kh_int_hash_func example_alloc ((kh_init (\<lambda>_. 0) (\<lambda>_. 0 :: nat))\<lparr>kh_size := 3\<rparr>) 0x80000001
    = Some (0, (kh_init (\<lambda>_. 0) (\<lambda>_. 0))\<lparr>kh_size := 3\<rparr>)"
  using kh_resize_overflow[of "0x80000001" "(kh_init (\<lambda>_. 0) (\<lambda>_. 0 :: nat))\<lparr>kh_size := 3\<rparr>" kh_int_hash_func example_alloc] by simp

end
