(* ===== verification/Dpdk_Proposer.thy ===== *)
theory Dpdk_Proposer
  imports Dpdk_Host
begin

text \<open>
  \<^verbatim>\<open>dpdk/proposer\<close>: the proposer process around libpaxos's proposer: it keeps \<^verbatim>\<open>BURST_SIZE\<close> instances
  prepared, proposes the values clients send and repeats what has timed out.
\<close>

section \<open>State and environment\<close>

text \<open>
  libpaxos's proposer on its state \<open>'p\<close>, and the iterator \<open>'t\<close> over its timed-out instances, which
  works on the proposer and leaves it behind when it is freed.
\<close>

record ('p, 't) proposer_api =
  proposer_prepared_count :: "'p \<Rightarrow> int"
  proposer_propose :: "'p \<Rightarrow> paxos_value \<Rightarrow> 'p"
  proposer_prepare :: "'p \<Rightarrow> 'p \<times> paxos_prepare"
  proposer_receive_promise :: "'p \<Rightarrow> paxos_promise \<Rightarrow> 'p \<times> int \<times> paxos_prepare"
  proposer_accept :: "'p \<Rightarrow> 'p \<times> int \<times> paxos_accept"
  proposer_receive_accepted :: "'p \<Rightarrow> paxos_accepted \<Rightarrow> 'p \<times> int"
  proposer_timeout_iterator :: "'p \<Rightarrow> 't"
  timeout_iterator_prepare :: "'t \<Rightarrow> 't \<times> int \<times> paxos_prepare"
  timeout_iterator_accept :: "'t \<Rightarrow> 't \<times> int \<times> paxos_accept"
  timeout_iterator_free :: "'t \<Rightarrow> 'p"

text \<open>
  The environment: \<open>tx_burst\<close> is \<^verbatim>\<open>rte_eth_tx_burst\<close> of one packet, \<open>fresh\<close> the packet
  \<^verbatim>\<open>rte_pktmbuf_alloc\<close> gives, the same at every call, since each packet is given back before the next is asked for;
  \<open>pktmbuf_adj\<close> is \<^verbatim>\<open>rte_pktmbuf_adj\<close>.
\<close>

record ('p, 't, 'd) proposer_env =
  rte :: rte_env
  lib :: "('p, 't) proposer_api"
  tx_burst :: "'d \<Rightarrow> mbuf \<Rightarrow> 'd \<times> u16"
  fresh :: "mbuf option"
  pktmbuf_adj :: "mbuf \<Rightarrow> u16 \<Rightarrow> mbuf"

text \<open>The process; \<open>sent\<close> are the packets the device took, \<open>freed\<close> those given back to the pool.\<close>

record ('p, 'd) proposer_proc =
  proposer :: 'p
  dev :: 'd
  first_time :: bool
  stat :: u32
  sent :: "mbuf list"
  freed :: "mbuf list"

section \<open>Sending\<close>

text \<open>The packet a message goes out in.\<close>

definition message_packet :: "rte_env \<Rightarrow> paxos_message \<Rightarrow> mbuf \<Rightarrow> mbuf" where
  "message_packet E pm created_pkt =
    (let b = body pm; v = body_value b;
         pkt = craft_new_packet E
           (created_pkt\<lparr>l2_len := of_nat sizeof_ether_hdr, l3_len := of_nat sizeof_ipv4_hdr,
              l4_len := of_nat (sizeof_udp_hdr + sizeof_paxos_message)\<rparr>)
           (IPv4 192 168 4 99) ACCEPTOR_ADDR PROPOSER_PORT ACCEPTOR_PORT (of_nat sizeof_paxos_message) 0;
         m = buf pkt;
         m = st16 (PXH + px_msgtype) (bswap16 (ucast (mtype pm))) m;
         m = st32 (PXH + px_inst) (bswap32 (iid b)) m;
         m = st32 (PXH + px_inst) (bswap32 (iid b)) m;
         m = st16 (PXH + px_rnd) (bswap16 (ballot b)) m;
         m = st16 (PXH + px_vrnd) (bswap16 (value_ballot b)) m;
         m = st16 (PXH + px_acptid) 0 m;
         m = memcpy (PXH + px_paxosval) (paxos_value_val v) 0 (unat (scast (paxos_value_len v) :: u64)) m
     in pkt\<lparr>buf := m, ol_flags := tx_offload E\<rparr>)"

text \<open>
  \<^verbatim>\<open>send_paxos_message\<close>: \<open>None\<close> is the null dereference when the pool is empty.  The packet is freed
  whether or not the device took it.
\<close>

definition send_paxos_message ::
  "('p, 't, 'd) proposer_env \<Rightarrow> paxos_message \<Rightarrow> ('p, 'd) proposer_proc \<Rightarrow> ('p, 'd) proposer_proc option" where
  "send_paxos_message S pm s = (case fresh S of None \<Rightarrow> None | Some created_pkt \<Rightarrow>
     let pkt = message_packet (rte S) pm created_pkt in
     case tx_burst S (dev s) pkt of (d, nb_tx) \<Rightarrow>
       Some (s\<lparr>dev := d, sent := (if nb_tx \<noteq> 0 then sent s @ [pkt] else sent s), freed := freed s @ [pkt]\<rparr>))"

definition prepare_msg :: "paxos_prepare \<Rightarrow> paxos_message" where
  "prepare_msg b = \<lparr>mtype = of_nat (msg_code PAXOS_PREPARE), body = b\<rparr>"

definition accept_msg :: "paxos_accept \<Rightarrow> paxos_message" where
  "accept_msg b = \<lparr>mtype = of_nat (msg_code PAXOS_ACCEPT), body = b\<rparr>"

fun prepare_loop ::
  "('p, 't, 'd) proposer_env \<Rightarrow> nat \<Rightarrow> ('p, 'd) proposer_proc \<Rightarrow> ('p, 'd) proposer_proc option" where
  "prepare_loop S 0 s = Some s"
| "prepare_loop S (Suc n) s =
    (case proposer_prepare (lib S) (proposer s) of (p, b) \<Rightarrow>
      Option.bind (send_paxos_message S (prepare_msg b) (s\<lparr>proposer := p\<rparr>)) (prepare_loop S n))"

definition proposer_preexecute ::
  "('p, 't, 'd) proposer_env \<Rightarrow> ('p, 'd) proposer_proc \<Rightarrow> ('p, 'd) proposer_proc option" where
  "proposer_preexecute S s =
    (let count = int BURST_SIZE - proposer_prepared_count (lib S) (proposer s) in
     if count \<le> 0 then Some s else prepare_loop S (nat count) s)"

text \<open>The loop of \<^verbatim>\<open>try_accept\<close> runs as long as libpaxos has something to send; \<open>None\<close> when it never stops.\<close>

partial_function (option) accept_loop ::
  "('p, 't, 'd) proposer_env \<Rightarrow> ('p, 'd) proposer_proc \<Rightarrow> ('p, 'd) proposer_proc option" where
  "accept_loop S s =
    (case proposer_accept (lib S) (proposer s) of (p, r, b) \<Rightarrow>
      if r = 0 then Some (s\<lparr>proposer := p\<rparr>)
      else Option.bind (send_paxos_message S (accept_msg b) (s\<lparr>proposer := p\<rparr>)) (accept_loop S))"

definition try_accept ::
  "('p, 't, 'd) proposer_env \<Rightarrow> ('p, 'd) proposer_proc \<Rightarrow> ('p, 'd) proposer_proc option" where
  "try_accept S s = Option.bind (accept_loop S s) (proposer_preexecute S)"

section \<open>The packet handler\<close>

definition proposer_handle_promise ::
  "('p, 't, 'd) proposer_env \<Rightarrow> paxos_promise \<Rightarrow> ('p, 'd) proposer_proc \<Rightarrow> ('p, 'd) proposer_proc option" where
  "proposer_handle_promise S promise s =
    (case proposer_receive_promise (lib S) (proposer s) promise of (p, preempted, b) \<Rightarrow>
      let s = s\<lparr>proposer := p\<rparr> in
      Option.bind (if preempted \<noteq> 0 then send_paxos_message S (prepare_msg b) s else Some s) (try_accept S))"

definition proposer_handle_accept ::
  "('p, 't, 'd) proposer_env \<Rightarrow> paxos_accept \<Rightarrow> ('p, 'd) proposer_proc \<Rightarrow> ('p, 'd) proposer_proc option" where
  "proposer_handle_accept S ack s = try_accept S (s\<lparr>proposer := proposer_propose (lib S) (proposer s) (body_value ack)\<rparr>)"

definition proposer_handle_accepted ::
  "('p, 't, 'd) proposer_env \<Rightarrow> paxos_accepted \<Rightarrow> ('p, 'd) proposer_proc \<Rightarrow> ('p, 'd) proposer_proc option" where
  "proposer_handle_accepted S ack s =
    (case proposer_receive_accepted (lib S) (proposer s) ack of (p, r) \<Rightarrow>
      let s = s\<lparr>proposer := p\<rparr> in
      if r \<noteq> 0 then try_accept S (s\<lparr>stat := stat s + 1\<rparr>) else Some s)"

text \<open>
  The value as the proposer reads it: the 32-bit length field goes through the 16-bit byte swap, so
  its argument is cut to the field's first two bytes.
\<close>

definition rx_value :: "nat \<Rightarrow> mem \<Rightarrow> paxos_value" where
  "rx_value h m = \<lparr>paxos_value_len = ucast (bswap16 (ucast (ld32 (h + px_value_len) m))),
     paxos_value_val = from_offset (h + px_paxosval) m\<rparr>"

definition paxos_rx_process ::
  "('p, 't, 'd) proposer_env \<Rightarrow> mbuf \<Rightarrow> ('p, 'd) proposer_proc \<Rightarrow> (mbuf \<times> int \<times> ('p, 'd) proposer_proc) option" where
  "paxos_rx_process S pkt s =
    (case parse_ethernet (buf pkt) \<lparr>outer_l2_len = 0, outer_l3_len = 0\<rparr> of (info, l4_proto) \<Rightarrow>
      let m = buf pkt;
          u = unat (outer_l2_len info) + unat (outer_l3_len info);
          h = u + sizeof_udp_hdr;
          dst_port = ld16 (u + udp_dst_port) m;
          msgtype = unat (hdr_msgtype h m);
          v = rx_value h m;
          outer_header_len = of_nat (u + sizeof_udp_hdr + sizeof_paxos_hdr)
      in if l4_proto \<noteq> IPPROTO_UDP then Some (pkt, -1, s)
         else if \<not> (dst_port = bswap16 PROPOSER_PORT \<or> dst_port = bswap16 LEARNER_PORT)
           \<and> packet_type pkt AND PTYPE_TUNNEL_MASK (rte S) = 0 then Some (pkt, -1, s)
         else map_option (\<lambda>s. (pktmbuf_adj S pkt outer_header_len, 0, s))
           (if msgtype = msg_code PAXOS_PROMISE then proposer_handle_promise S (hdr_body h m v) s
            else if msgtype = msg_code PAXOS_ACCEPT then
              Option.bind (if first_time s then map_option (\<lambda>s. s\<lparr>first_time := False\<rparr>) (proposer_preexecute S s) else Some s)
                (proposer_handle_accept S (hdr_body h m v))
            else if msgtype = msg_code PAXOS_ACCEPTED then proposer_handle_accepted S (hdr_body h m v) s
            else Some s))"

fun add_timestamps ::
  "('p, 't, 'd) proposer_env \<Rightarrow> u64 \<Rightarrow> mbuf list \<Rightarrow> ('p, 'd) proposer_proc \<Rightarrow> (mbuf list \<times> ('p, 'd) proposer_proc) option" where
  "add_timestamps S now [] s = Some ([], s)"
| "add_timestamps S now (pkt # pkts) s =
    (case paxos_rx_process S (pkt\<lparr>udata64 := now\<rparr>) s of
       None \<Rightarrow> None
     | Some (pkt, _, s) \<Rightarrow> map_option (\<lambda>(pkts, s). (pkt # pkts, s)) (add_timestamps S now pkts s))"

section \<open>The loops and timers\<close>

text \<open>The packet loop over the bursts it receives; the packets of a burst are freed after the callback.\<close>

fun rx_loop ::
  "('p, 't, 'd) proposer_env \<Rightarrow> (u64 \<times> mbuf list) list \<Rightarrow> ('p, 'd) proposer_proc \<Rightarrow> ('p, 'd) proposer_proc option" where
  "rx_loop S [] s = Some s"
| "rx_loop S ((now, burst) # bursts) s =
    (case add_timestamps S now burst s of
       None \<Rightarrow> None
     | Some (pkts, s) \<Rightarrow> rx_loop S bursts (s\<lparr>freed := freed s @ pkts\<rparr>))"

definition lcore_main ::
  "('p, 't, 'd) proposer_env \<Rightarrow> (u64 \<times> mbuf list) list \<Rightarrow> ('p, 'd) proposer_proc \<Rightarrow> ('p, 'd) proposer_proc option" where
  "lcore_main S bursts s = Option.bind (proposer_preexecute S s) (rx_loop S bursts)"

fun lcore_mainloop :: "u64 \<Rightarrow> u64 \<Rightarrow> u64 list \<Rightarrow> u64 list" where
  "lcore_mainloop resolution prev_tsc [] = []"
| "lcore_mainloop resolution prev_tsc (cur_tsc # tscs) =
     (if resolution < cur_tsc - prev_tsc
      then cur_tsc # lcore_mainloop resolution cur_tsc tscs
      else lcore_mainloop resolution prev_tsc tscs)"

definition report_stat :: "('p, 'd) proposer_proc \<Rightarrow> u32 \<times> ('p, 'd) proposer_proc" where
  "report_stat s = (stat s, s\<lparr>stat := 0\<rparr>)"

partial_function (option) timeout_prepares ::
  "('p, 't, 'd) proposer_env \<Rightarrow> 't \<Rightarrow> ('p, 'd) proposer_proc \<Rightarrow> ('t \<times> ('p, 'd) proposer_proc) option" where
  "timeout_prepares S iter s =
    (case timeout_iterator_prepare (lib S) iter of (iter, r, b) \<Rightarrow>
      if r = 0 then Some (iter, s)
      else Option.bind (send_paxos_message S (prepare_msg b) s) (timeout_prepares S iter))"

partial_function (option) timeout_accepts ::
  "('p, 't, 'd) proposer_env \<Rightarrow> 't \<Rightarrow> ('p, 'd) proposer_proc \<Rightarrow> ('t \<times> ('p, 'd) proposer_proc) option" where
  "timeout_accepts S iter s =
    (case timeout_iterator_accept (lib S) iter of (iter, r, b) \<Rightarrow>
      if r = 0 then Some (iter, s)
      else Option.bind (send_paxos_message S (accept_msg b) s) (timeout_accepts S iter))"

definition check_timeout ::
  "('p, 't, 'd) proposer_env \<Rightarrow> ('p, 'd) proposer_proc \<Rightarrow> ('p, 'd) proposer_proc option" where
  "check_timeout S s =
    Option.bind (timeout_prepares S (proposer_timeout_iterator (lib S) (proposer s)) s)
      (\<lambda>(iter, s). map_option (\<lambda>(iter, s). s\<lparr>proposer := timeout_iterator_free (lib S) iter\<rparr>) (timeout_accepts S iter s))"


section \<open>What is sent\<close>

text \<open>The length of the value is never written into a message the proposer sends: the acceptor reads whatever
  was in the packet buffer there.\<close>

theorem message_value_len_unset:
  "unat (paxos_value_len (body_value (body pm))) < 2 ^ 31 \<Longrightarrow>
   hdr_value_len PXH (buf (message_packet E pm pkt)) = hdr_value_len PXH (buf pkt)
   \<and> hdr_msgtype PXH (buf (message_packet E pm pkt)) = ucast (mtype pm)
   \<and> iid (hdr_body PXH (buf (message_packet E pm pkt)) v) = iid (body pm)
   \<and> ballot (hdr_body PXH (buf (message_packet E pm pkt)) v) = ballot (body pm)"
  by (simp add: message_packet_def craft_new_packet_def Let_def hdr_defs mem_simps value_len_size_t)

theorem message_value_len_unset_witness:
  "hdr_value_len PXH (buf (message_packet example_env example_message example_mbuf)) = 0xaaaaaaaa"
proof -
  have "hdr_value_len PXH (buf example_mbuf) = 0xaaaaaaaa"
    by (simp add: hdr_value_len_def example_mbuf_def ld32_def ld16_def bswap32_def bswap16_def)
  then show ?thesis
    using message_value_len_unset[of example_message example_env example_mbuf] by (simp add: example_message_def)
qed

text \<open>A packet the device took, and now owns, is given back to the pool all the same.\<close>

theorem sent_packet_freed:
  assumes "fresh S = Some pkt" "snd (tx_burst S (dev s) (message_packet (rte S) pm pkt)) \<noteq> 0"
  shows "\<exists>s' p. send_paxos_message S pm s = Some s' \<and> sent s' = sent s @ [p] \<and> freed s' = freed s @ [p]"
  using assms by (auto simp: send_paxos_message_def Let_def split: prod.splits)

text \<open>A concrete proposer: its state counts the prepared instances and the accept messages left to send.\<close>

definition example_proposer_api :: "(nat \<times> nat, nat) proposer_api" where
  "example_proposer_api = (let b = \<lparr>iid = 1, ballot = 1, value_ballot = 0, aid = 0, body_value = NULL_value\<rparr> in \<lparr>
     proposer_prepared_count = (\<lambda>p. int (fst p)),
     proposer_propose = (\<lambda>(n, k) v. (n, k + 1)),
     proposer_prepare = (\<lambda>(n, k). ((n + 1, k), b\<lparr>iid := of_nat n\<rparr>)),
     proposer_receive_promise = (\<lambda>p x. (p, 0, b)),
     proposer_accept = (\<lambda>(n, k). if k = 0 then ((n, k), 0, b) else ((n, k - 1), 1, b\<lparr>iid := of_nat k\<rparr>)),
     proposer_receive_accepted = (\<lambda>p x. (p, 1)),
     proposer_timeout_iterator = snd,
     timeout_iterator_prepare = (\<lambda>t. (t, 0, b)),
     timeout_iterator_accept = (\<lambda>t. (t, 0, b)),
     timeout_iterator_free = (\<lambda>t. (0, t))\<rparr>)"

definition example_proposer_env :: "(nat \<times> nat, nat, nat) proposer_env" where
  "example_proposer_env = \<lparr>rte = example_env, lib = example_proposer_api, tx_burst = (\<lambda>d p. (d + 1, 1)),
     fresh = Some example_mbuf, pktmbuf_adj = (\<lambda>p _. p)\<rparr>"

definition example_proposer :: "nat \<Rightarrow> nat \<Rightarrow> (nat \<times> nat, nat) proposer_proc" where
  "example_proposer n k = \<lparr>proposer = (n, k), dev = 0, first_time = True, stat = 0, sent = [], freed = []\<rparr>"

theorem sent_packet_freed_witness:
  "\<exists>s' p. send_paxos_message example_proposer_env example_message (example_proposer 0 0) = Some s'
    \<and> sent s' = [p] \<and> freed s' = [p]"
  using sent_packet_freed[of example_proposer_env example_mbuf "example_proposer 0 0" example_message]
  by (simp add: example_proposer_env_def example_proposer_def)

section \<open>What is read\<close>

lemma bswap16_low_half: "bswap16 (ucast (bswap32 n)) = ucast (drop_bit 16 n)"
  by (simp add: ucast_bswap32_lo)

text \<open>The proposer reads the length of a value through a 16-bit byte swap of the 32-bit field: it gets the upper half
  of the length, so every value shorter than 64 KiB is proposed as empty.\<close>

theorem proposer_loses_value:
  assumes "unat (paxos_value_len (body_value (body pm))) < 2 ^ 16"
  shows "paxos_value_len (rx_value PXH (buf (add_paxos_message E pm pkt sport dport dst))) = 0"
proof -
  let ?n = "paxos_value_len (body_value (body pm))"
  have "bswap32 (ld32 (PXH + px_value_len) (buf (add_paxos_message E pm pkt sport dport dst))) = ?n"
    using sent_hdr(3)[of pm] assms by (simp add: hdr_value_len_def)
  then have "ld32 (PXH + px_value_len) (buf (add_paxos_message E pm pkt sport dport dst)) = bswap32 ?n"
    by (metis bswap32_bswap32)
  moreover have "unat (drop_bit 16 ?n) = unat ?n div 2 ^ 16"
    unfolding unat_drop_bit_eq by (rule drop_bit_eq_div)
  then have "drop_bit 16 ?n = 0"
    using assms by (simp only: div_less unat_eq_zero)
  ultimately show ?thesis by (simp add: rx_value_def bswap16_low_half)
qed

theorem proposer_loses_value_witness:
  "paxos_value_len (body_value (body example_message)) = 3 \<and> paxos_value_len (rx_value PXH (buf example_sent)) = 0"
  using proposer_loses_value[of example_message example_env example_mbuf PROPOSER_PORT ACCEPTOR_PORT ACCEPTOR_ADDR]
  by (simp add: example_sent_def) (simp add: example_message_def)

section \<open>Preparing and proposing\<close>

text \<open>A device that is handed packets one after the other: its state at the end and the packets it took.\<close>

primrec transmit :: "('d \<Rightarrow> mbuf \<Rightarrow> 'd \<times> u16) \<Rightarrow> mbuf list \<Rightarrow> 'd \<Rightarrow> 'd \<times> mbuf list" where
  "transmit tx [] d = (d, [])"
| "transmit tx (p # ps) d = (case tx d p of (d, n) \<Rightarrow>
     case transmit tx ps d of (d, qs) \<Rightarrow> (d, if n \<noteq> 0 then p # qs else qs))"

lemma transmit_append:
  "transmit tx (ps @ qs) d = (case transmit tx ps d of (d, a) \<Rightarrow> case transmit tx qs d of (d, b) \<Rightarrow> (d, a @ b))"
  by (induction ps arbitrary: d) (auto split: prod.splits)

text \<open>The process after it has handed the device a packet for each message, made from the pool's packet \<open>q\<close>.\<close>

definition packets_of :: "('p, 't, 'd) proposer_env \<Rightarrow> mbuf \<Rightarrow> paxos_message list \<Rightarrow> mbuf list" where
  "packets_of S q pms = map (\<lambda>pm. message_packet (rte S) pm q) pms"

definition after_sending ::
  "('p, 't, 'd) proposer_env \<Rightarrow> mbuf \<Rightarrow> paxos_message list \<Rightarrow> ('p, 'd) proposer_proc \<Rightarrow> ('p, 'd) proposer_proc" where
  "after_sending S q pms s = (case transmit (tx_burst S) (packets_of S q pms) (dev s) of (d, taken) \<Rightarrow>
     s\<lparr>dev := d, sent := sent s @ taken, freed := freed s @ packets_of S q pms\<rparr>)"

lemma after_sending_Nil: "after_sending S q [] s = s"
  by (simp add: after_sending_def packets_of_def)

lemma after_sending_append: "after_sending S q (ms @ ns) s = after_sending S q ns (after_sending S q ms s)"
  by (auto simp: after_sending_def packets_of_def transmit_append split: prod.splits)

lemma after_sending_proposer:
  "proposer (after_sending S q ms s) = proposer s"
  "(after_sending S q ms s)\<lparr>proposer := p\<rparr> = after_sending S q ms (s\<lparr>proposer := p\<rparr>)"
  by (auto simp: after_sending_def split: prod.splits)

lemma send_message:
  "fresh S = Some q \<Longrightarrow> send_paxos_message S pm s = Some (after_sending S q [pm] s)"
  by (auto simp: send_paxos_message_def after_sending_def packets_of_def Let_def split: prod.splits)

text \<open>The prepares libpaxos gives in \<open>n\<close> calls, and the accepts it gives until it has none.\<close>

primrec prepares :: "('p, 't) proposer_api \<Rightarrow> nat \<Rightarrow> 'p \<Rightarrow> 'p \<times> paxos_prepare list" where
  "prepares A 0 p = (p, [])"
| "prepares A (Suc n) p = (case proposer_prepare A p of (p, b) \<Rightarrow> case prepares A n p of (p, bs) \<Rightarrow> (p, b # bs))"

primrec hands_out :: "('p, 't) proposer_api \<Rightarrow> paxos_accept list \<Rightarrow> 'p \<Rightarrow> 'p \<Rightarrow> bool" where
  "hands_out A [] p p' \<longleftrightarrow> (\<exists>b. proposer_accept A p = (p', 0, b))"
| "hands_out A (b # bs) p p' \<longleftrightarrow> (\<exists>p1 r. proposer_accept A p = (p1, r, b) \<and> r \<noteq> 0 \<and> hands_out A bs p1 p')"

lemma prepare_loop_sends:
  assumes "fresh S = Some q" "prepares (lib S) n (proposer s) = (p, bs)"
  shows "prepare_loop S n s = Some (after_sending S q (map prepare_msg bs) (s\<lparr>proposer := p\<rparr>))"
  using assms(2)
proof (induction n arbitrary: s bs)
  case 0
  then show ?case by (auto simp: after_sending_Nil)
next
  case (Suc n)
  obtain p1 b where p1: "proposer_prepare (lib S) (proposer s) = (p1, b)" by fastforce
  obtain cs where cs: "prepares (lib S) n p1 = (p, cs)" "bs = b # cs" using Suc.prems p1 by (auto split: prod.splits)
  let ?s = "after_sending S q [prepare_msg b] (s\<lparr>proposer := p1\<rparr>)"
  have "prepare_loop S n ?s = Some (after_sending S q (map prepare_msg cs) (?s\<lparr>proposer := p\<rparr>))"
    by (rule Suc.IH) (simp add: after_sending_proposer cs)
  then show ?case
    using p1 cs(2) after_sending_append[of S q "[prepare_msg b]" "map prepare_msg cs"]
    by (simp add: send_message[OF assms(1)] after_sending_proposer)
qed

lemma preexecute_sends:
  assumes "fresh S = Some q"
    and "prepares (lib S) (nat (int BURST_SIZE - proposer_prepared_count (lib S) (proposer s))) (proposer s) = (p, bs)"
  shows "proposer_preexecute S s = Some (after_sending S q (map prepare_msg bs) (s\<lparr>proposer := p\<rparr>))"
proof (cases "int BURST_SIZE \<le> proposer_prepared_count (lib S) (proposer s)")
  case True
  then have "p = proposer s" "bs = []" using assms(2) by auto
  then show ?thesis using True by (simp add: proposer_preexecute_def after_sending_Nil)
next
  case False
  then show ?thesis using prepare_loop_sends[OF assms] by (simp add: proposer_preexecute_def Let_def)
qed

text \<open>What libpaxos documents: a prepare adds one to the prepared instances.\<close>

definition counts_prepared :: "('p, 't, 'd) proposer_env \<Rightarrow> bool" where
  "counts_prepared S \<longleftrightarrow> (\<forall>p. proposer_prepared_count (lib S) (fst (proposer_prepare (lib S) p))
     = proposer_prepared_count (lib S) p + 1)"

lemma prepares_counts:
  assumes "counts_prepared S" "prepares (lib S) n p = (p', bs)"
  shows "length bs = n \<and> proposer_prepared_count (lib S) p' = proposer_prepared_count (lib S) p + int n"
  using assms(2)
proof (induction n arbitrary: p bs)
  case (Suc n)
  obtain p1 b where p1: "proposer_prepare (lib S) p = (p1, b)" by fastforce
  have "proposer_prepared_count (lib S) p1 = proposer_prepared_count (lib S) p + 1"
    using assms(1) p1 unfolding counts_prepared_def by (metis fst_conv)
  then show ?case using Suc.IH[of p1] Suc.prems p1 by (auto split: prod.splits)
qed simp

text \<open>What the acceptors read of a message packet, and where it goes.\<close>

definition wire :: "mbuf \<Rightarrow> u16 \<times> u32 \<times> u16 \<times> u16 \<times> u32" where
  "wire p = (hdr_msgtype PXH (buf p), iid (hdr_body PXH (buf p) NULL_value), ballot (hdr_body PXH (buf p) NULL_value),
     bswap16 (ld16 (UDPH + udp_dst_port) (buf p)), bswap32 (ld32 (IPH + ip_dst_addr) (buf p)))"

lemma wire_message: "wire (message_packet E pm q) = (ucast (mtype pm), iid (body pm), ballot (body pm), ACCEPTOR_PORT, ACCEPTOR_ADDR)"
  by (simp add: wire_def message_packet_def craft_new_packet_def Let_def hdr_defs mem_simps)

text \<open>C26: \<^verbatim>\<open>proposer_preexecute\<close> tops up the prepared instances to \<^verbatim>\<open>BURST_SIZE\<close>: it asks libpaxos for one prepare for
  each instance that is missing, and hands the device, in the order libpaxos gave them, one packet for
  each, addressed to the acceptors and with the instance and the ballot of the prepare, and nothing else.\<close>

theorem preexecute_fills:
  assumes "fresh S = Some q" "counts_prepared S"
    and k: "k = proposer_prepared_count (lib S) (proposer s)"
  shows "\<exists>p bs pkts taken s'. prepares (lib S) (nat (int BURST_SIZE - k)) (proposer s) = (p, bs)
    \<and> proposer_preexecute S s = Some s' \<and> proposer s' = p \<and> proposer_prepared_count (lib S) p = max k (int BURST_SIZE)
    \<and> length pkts = nat (int BURST_SIZE - k)
    \<and> map wire pkts = map (\<lambda>b. (of_nat (msg_code PAXOS_PREPARE), iid b, ballot b, ACCEPTOR_PORT, ACCEPTOR_ADDR)) bs
    \<and> transmit (tx_burst S) pkts (dev s) = (dev s', taken) \<and> sent s' = sent s @ taken"
proof -
  obtain p bs where p: "prepares (lib S) (nat (int BURST_SIZE - k)) (proposer s) = (p, bs)" by fastforce
  define pkts where "pkts = packets_of S q (map prepare_msg bs)"
  define s' where "s' = after_sending S q (map prepare_msg bs) (s\<lparr>proposer := p\<rparr>)"
  obtain d taken where t: "transmit (tx_burst S) pkts (dev s) = (d, taken)" by fastforce
  note c = prepares_counts[OF assms(2) p]
  have count: "length pkts = nat (int BURST_SIZE - k)" "proposer_prepared_count (lib S) p = max k (int BURST_SIZE)"
    using c k by (auto simp: pkts_def packets_of_def max_def)
  have "map wire pkts = map (\<lambda>b. (of_nat (msg_code PAXOS_PREPARE), iid b, ballot b, ACCEPTOR_PORT, ACCEPTOR_ADDR)) bs"
    by (simp add: pkts_def packets_of_def wire_message prepare_msg_def)
  moreover have "proposer_preexecute S s = Some s'" unfolding s'_def by (rule preexecute_sends[OF assms(1) p[unfolded k]])
  moreover have "proposer s' = p" "dev s' = d" "sent s' = sent s @ taken"
    using t by (simp_all add: s'_def after_sending_def pkts_def)
  ultimately show ?thesis using p count t by blast
qed

lemma accept_loop_sends:
  assumes "fresh S = Some q" "hands_out (lib S) bs (proposer s) p"
  shows "accept_loop S s = Some (after_sending S q (map accept_msg bs) (s\<lparr>proposer := p\<rparr>))"
  using assms(2)
proof (induction bs arbitrary: s)
  case Nil
  then show ?case by (subst accept_loop.simps) (auto simp: after_sending_Nil)
next
  case (Cons b bs)
  then obtain p1 r where p1: "proposer_accept (lib S) (proposer s) = (p1, r, b)" "r \<noteq> 0" "hands_out (lib S) bs p1 p" by auto
  let ?s = "after_sending S q [accept_msg b] (s\<lparr>proposer := p1\<rparr>)"
  have "accept_loop S ?s = Some (after_sending S q (map accept_msg bs) (?s\<lparr>proposer := p\<rparr>))"
    by (rule Cons.IH) (simp add: after_sending_proposer p1)
  then show ?case
    using p1 after_sending_append[of S q "[accept_msg b]" "map accept_msg bs"]
    by (subst accept_loop.simps) (simp add: send_message[OF assms(1)] after_sending_proposer)
qed

lemma accept_loop_returned:
  assumes "accept_loop S s = Some s'"
  shows "\<exists>bs p. hands_out (lib S) bs (proposer s) p"
proof (rule accept_loop.raw_induct[where P = "\<lambda>S s _. \<exists>bs p. hands_out (lib S) bs (proposer s) p", OF _ assms], goal_cases)
  case (1 loop S s s')
  note IH = 1(1) and run = 1(2)
  obtain p r b where p: "proposer_accept (lib S) (proposer s) = (p, r, b)" by (metis prod_cases3)
  show ?case
  proof (cases "r = 0")
    case True
    then have "hands_out (lib S) [] (proposer s) p" using p by simp
    then show ?thesis by blast
  next
    case False
    then obtain s1 where s1: "send_paxos_message S (accept_msg b) (s\<lparr>proposer := p\<rparr>) = Some s1" "loop S s1 = Some s'"
      using run p by (auto simp: bind_eq_Some_conv)
    then have "proposer s1 = p" by (auto simp: send_paxos_message_def Let_def split: option.splits prod.splits)
    then obtain bs p' where "hands_out (lib S) bs p p'" using IH[OF s1(2)] by blast
    then have "hands_out (lib S) (b # bs) (proposer s) p'" using p False by simp
    then show ?thesis by blast
  qed
qed

text \<open>C27: \<^verbatim>\<open>try_accept\<close> returns exactly when libpaxos at some call has no accept left, and then it has handed the device,
  in this order, one packet for each accept libpaxos gave before, one for each prepare of the instances missing
  to \<^verbatim>\<open>BURST_SIZE\<close> afterwards, and nothing else.\<close>

theorem try_accept_returns:
  assumes "fresh S = Some q"
  shows "try_accept S s = Some s' \<longleftrightarrow> (\<exists>bs p1 p2 cs. hands_out (lib S) bs (proposer s) p1
    \<and> prepares (lib S) (nat (int BURST_SIZE - proposer_prepared_count (lib S) p1)) p1 = (p2, cs)
    \<and> s' = after_sending S q (map accept_msg bs @ map prepare_msg cs) (s\<lparr>proposer := p2\<rparr>))"
    (is "?run \<longleftrightarrow> ?sent")
proof
  assume ?sent
  then obtain bs p1 p2 cs where b: "hands_out (lib S) bs (proposer s) p1"
    "prepares (lib S) (nat (int BURST_SIZE - proposer_prepared_count (lib S) p1)) p1 = (p2, cs)"
    "s' = after_sending S q (map accept_msg bs @ map prepare_msg cs) (s\<lparr>proposer := p2\<rparr>)" by blast
  let ?s = "after_sending S q (map accept_msg bs) (s\<lparr>proposer := p1\<rparr>)"
  have "accept_loop S s = Some ?s" by (rule accept_loop_sends[OF assms b(1)])
  moreover have "proposer_preexecute S ?s = Some (after_sending S q (map prepare_msg cs) (?s\<lparr>proposer := p2\<rparr>))"
    by (rule preexecute_sends[OF assms]) (simp add: after_sending_proposer b(2))
  ultimately show ?run using b(3) by (simp add: try_accept_def after_sending_proposer after_sending_append)
next
  assume run: ?run
  then obtain s1 where s1: "accept_loop S s = Some s1" "proposer_preexecute S s1 = Some s'"
    by (auto simp: try_accept_def bind_eq_Some_conv)
  obtain bs p1 where b: "hands_out (lib S) bs (proposer s) p1" using accept_loop_returned[OF s1(1)] by blast
  have s1': "s1 = after_sending S q (map accept_msg bs) (s\<lparr>proposer := p1\<rparr>)" using accept_loop_sends[OF assms b] s1(1) by simp
  obtain p2 cs where cs: "prepares (lib S) (nat (int BURST_SIZE - proposer_prepared_count (lib S) p1)) p1 = (p2, cs)" by fastforce
  have "proposer_preexecute S s1 = Some (after_sending S q (map prepare_msg cs) (s1\<lparr>proposer := p2\<rparr>))"
    by (rule preexecute_sends[OF assms]) (simp add: s1' after_sending_proposer cs)
  then have "s' = after_sending S q (map accept_msg bs @ map prepare_msg cs) (s\<lparr>proposer := p2\<rparr>)"
    using s1(2) by (simp add: s1' after_sending_proposer after_sending_append)
  then show ?sent using b cs by blast
qed

lemma example_proposer_ok: "fresh example_proposer_env = Some example_mbuf" "counts_prepared example_proposer_env"
  by (auto simp: example_proposer_env_def counts_prepared_def example_proposer_api_def Let_def)

theorem preexecute_fills_witness:
  "\<exists>s'. proposer_preexecute example_proposer_env (example_proposer 30 0) = Some s' \<and> dev s' = 2 \<and> length (sent s') = 2"
proof -
  have dev: "transmit (tx_burst example_proposer_env) ps d = (d + length ps, ps)" for ps d
    by (induction ps arbitrary: d) (simp_all add: example_proposer_env_def)
  show ?thesis
    using preexecute_fills[OF example_proposer_ok refl, of "example_proposer 30 0"] unfolding dev
    by (auto simp: example_proposer_env_def example_proposer_api_def example_proposer_def BURST_SIZE_def Let_def)
qed

theorem try_accept_returns_witness:
  "\<exists>s'. try_accept example_proposer_env (example_proposer 32 2) = Some s' \<and> dev s' = 2"
proof -
  let ?b = "\<lparr>iid = 1, ballot = 1, value_ballot = 0, aid = 0, body_value = NULL_value\<rparr>"
  let ?s = "after_sending example_proposer_env example_mbuf (map accept_msg [?b\<lparr>iid := 2\<rparr>, ?b] @ map prepare_msg [])
      ((example_proposer 32 2)\<lparr>proposer := (32, 0)\<rparr>)"
  have "hands_out (lib example_proposer_env) [?b\<lparr>iid := 2\<rparr>, ?b] (proposer (example_proposer 32 2)) (32, 0)"
    by (simp add: example_proposer_env_def example_proposer_api_def example_proposer_def Let_def)
  moreover have "prepares (lib example_proposer_env)
      (nat (int BURST_SIZE - proposer_prepared_count (lib example_proposer_env) (32, 0))) (32, 0) = ((32, 0), [])"
    by (simp add: example_proposer_env_def example_proposer_api_def BURST_SIZE_def Let_def)
  ultimately have "try_accept example_proposer_env (example_proposer 32 2) = Some ?s"
    unfolding try_accept_returns[OF example_proposer_ok(1)] by blast
  moreover have "dev ?s = 2" by (simp add: after_sending_def packets_of_def example_proposer_env_def example_proposer_def)
  ultimately show ?thesis by blast
qed

section \<open>Start-up\<close>

definition port_init :: "api \<Rightarrow> u8 \<Rightarrow> int host" where
  "port_init api port = do {
     calls [dev_info_get port];
     n \<leftarrow> ask api dev_count;
     if uint port \<ge> n then State_Monad.return (-1)
     else do {
       retval \<leftarrow> ask api (dev_configure port 1 1);
       if retval \<noteq> 0 then State_Monad.return retval
       else do {
         retval \<leftarrow> ask api (rx_queue_setup port 0);
         if retval < 0 then State_Monad.return retval
         else do {
           retval \<leftarrow> ask api (tx_queue_setup port 0);
           if retval < 0 then State_Monad.return retval
           else do {
             retval \<leftarrow> ask api (dev_start port);
             if retval < 0 then State_Monad.return retval
             else do {
               calls [macaddr_get port, promiscuous_enable port];
               calls [add_rx_callback port ''add_timestamps'', add_tx_callback port ''calc_latency''];
               State_Monad.return 0
             }
           }
         }
       }
     }
   }"

definition callbacks :: "u8 \<Rightarrow> call list" where
  "callbacks port = [add_rx_callback port ''add_timestamps'', add_tx_callback port ''calc_latency'']"

definition main :: "api \<Rightarrow> outcome host" where
  "main api = do {
     calls [signal 15, signal 2, log_level, paxos_new ''proposer''];
     ret \<leftarrow> ask api eal_init;
     if ret < 0 then State_Monad.return (Exit_failure ''Error with EAL initialization'')
     else do {
       calls [timer_init ''timer'', timer_init ''stat_timer'', timer_hz, next_lcore, timer_reset ''timer'' ''check_timeout'',
              remote_launch ''lcore_mainloop'', next_lcore, timer_reset ''stat_timer'' ''report_stat'', timer_subsystem_init];
       mbuf_pool \<leftarrow> ask api (pool_create ''MBUF_POOL'');
       if mbuf_pool = 0 then State_Monad.return (Exit_failure ''Cannot create mbuf_pool'')
       else do {
         calls [remote_launch ''lcore_mainloop''];
         r \<leftarrow> port_init api 0;
         if r \<noteq> 0 then State_Monad.return (Exit_failure ''Cannot init port'')
         else do {
           calls [lcore_loop 0];
           calls [paxos_free ''proposer''];
           State_Monad.return (Returned 0)
         }
       }
     }
   }"

interpretation proposer_port: port_initialiser port_init callbacks
proof
  show "\<exists>pre mid. log' = log @ pre @ [dev_start p] @ mid @ callbacks p
      \<and> (\<forall>c \<in> set (pre @ mid). \<not> is_callback c \<and> \<not> is_loop c)"
    if "run_state (port_init api p) log = (0, log')" for api p log log'
    using that
    by (intro exI[of _ "[dev_info_get p, dev_count, dev_configure p 1 1, rx_queue_setup p 0, tx_queue_setup p 0]"]
        exI[of _ "[macaddr_get p, promiscuous_enable p]"])
      (auto simp: port_init_def callbacks_def trace_simps Let_def split: if_splits)
  show "\<exists>suf. log' = log @ suf \<and> (\<forall>c \<in> set suf. \<not> is_callback c \<and> \<not> is_loop c)"
    if "run_state (port_init api p) log = (r, log')" "r \<noteq> 0" for api p log r log'
    using that by (auto simp: port_init_def trace_simps Let_def split: if_splits)
qed

abbreviation (input) startup :: "call list" where
  "startup \<equiv> [signal 15, signal 2, log_level, paxos_new ''proposer'', eal_init, timer_init ''timer'', timer_init ''stat_timer'',
     timer_hz, next_lcore, timer_reset ''timer'' ''check_timeout'', remote_launch ''lcore_mainloop'', next_lcore,
     timer_reset ''stat_timer'' ''report_stat'', timer_subsystem_init, pool_create ''MBUF_POOL'', remote_launch ''lcore_mainloop'']"

lemma proposer_main_run:
  "run_state (main api) [] = (Returned v, log) \<Longrightarrow> \<exists>l1. run_state (port_init api 0) startup = (0, l1)
    \<and> log = l1 @ [] @ [lcore_loop 0] @ [paxos_free ''proposer'']"
  by (simp add: main_def guard_returned split: prod.splits)

interpretation proposer_main: dpdk_program port_init callbacks main
proof
  show "\<exists>l0 l1 mid post. run_state (port_init api 0) l0 = (0, l1) \<and> log = l1 @ mid @ [lcore_loop 0] @ post
      \<and> (\<forall>c \<in> set (l0 @ mid @ post). \<not> is_callback c \<and> \<not> is_loop c)"
    if run: "run_state (main api) [] = (Returned v, log)" for api v log
  proof -
    obtain l1 where "run_state (port_init api 0) startup = (0, l1)"
      "log = l1 @ [] @ [lcore_loop 0] @ [paxos_free ''proposer'']"
      using proposer_main_run[OF run] by blast
    then show ?thesis
      by (intro exI[of _ startup] exI[of _ l1] exI[of _ "[]"] exI[of _ "[paxos_free ''proposer'']"])
        (simp add: trace_simps)
  qed
  show "\<forall>c \<in> set log. \<not> is_loop c" if run: "run_state (main api) [] = (Exit_failure msg, log)" for api msg log
  proof -
    have "exits_early (main api) []"
      by (simp add: main_def is_loop_def proposer_port.exits_early_init split: sum.split)
    then show ?thesis using run by (simp add: exits_early_def quiet_def)
  qed
qed

end
