(* ===== verification/Dpdk_Client.thy ===== *)
theory Dpdk_Client
  imports Dpdk_Host
begin

text \<open>
  \<^verbatim>\<open>dpdk/client\<close>: the load generator.  It sends a first burst of messages of the kind the tested role
  takes, and one new message for every packet that comes back.
\<close>

section \<open>Messages\<close>

text \<open>\<^verbatim>\<open>"Hello World"\<close> with its terminating zero.\<close>

definition hello :: paxos_value where
  "hello = \<lparr>paxos_value_len = 12,
     paxos_value_val = (\<lambda>i. if i < 12 then [72, 101, 108, 108, 111, 32, 87, 111, 114, 108, 100, 0] ! i else 0)\<rparr>"

definition acpt :: paxos_accept where
  "acpt = \<lparr>iid = 1, ballot = 1, value_ballot = 1, aid = 0, body_value = hello\<rparr>"

definition accepted :: paxos_accepted where
  "accepted = \<lparr>iid = 1, ballot = 1, value_ballot = 1, aid = 0, body_value = hello\<rparr>"

datatype PAXOS_TEST = PROPOSER | COORDINATOR | ACCEPTOR | LEARNER

text \<open>The value of the enumeration, and its other values for the default case.\<close>

definition test_of :: "int \<Rightarrow> PAXOS_TEST option" where
  "test_of t = (if t = 0 then Some PROPOSER else if t = 1 then Some COORDINATOR
     else if t = 2 then Some ACCEPTOR else if t = 3 then Some LEARNER else None)"

text \<open>
  The port, address and message of a role.  For the proposer, and for no role, the message is not
  initialised: \<open>uninit\<close>.
\<close>

fun test_message :: "paxos_message \<Rightarrow> PAXOS_TEST option \<Rightarrow> u16 \<times> u32 \<times> paxos_message" where
  "test_message uninit (Some PROPOSER) = (PROPOSER_PORT, 0, uninit)"
| "test_message uninit (Some COORDINATOR) = (COORDINATOR_PORT, COORDINATOR_ADDR, \<lparr>mtype = of_nat (msg_code PAXOS_ACCEPT), body = acpt\<rparr>)"
| "test_message uninit (Some ACCEPTOR) = (ACCEPTOR_PORT, ACCEPTOR_ADDR, \<lparr>mtype = of_nat (msg_code PAXOS_ACCEPT), body = acpt\<rparr>)"
| "test_message uninit (Some LEARNER) = (LEARNER_PORT, LEARNER_ADDR, \<lparr>mtype = of_nat (msg_code PAXOS_ACCEPTED), body = accepted\<rparr>)"
| "test_message uninit None = (11111, 0, uninit)"

section \<open>Sending and receiving\<close>

record 'd client =
  test :: int
  cur_inst :: u32
  dev :: 'd
  tx_counter :: u32
  rx_counter :: u32
  dropped :: u32
  queued :: "mbuf list"
  freed :: "mbuf list"

record 'd client_env =
  rte :: rte_env
  tx :: "'d tx_api"
  alloc_bulk :: "nat \<Rightarrow> mbuf list option"
  uninit_message :: paxos_message

fun generate_loop :: "'d client_env \<Rightarrow> u16 \<Rightarrow> u32 \<Rightarrow> paxos_message \<Rightarrow> mbuf list \<Rightarrow> 'd client \<Rightarrow> 'd client" where
  "generate_loop S dport dstIP pm [] c = c"
| "generate_loop S dport dstIP pm (pkt # pkts) c =
    (let pm = pm\<lparr>body := (body pm)\<lparr>iid := cur_inst c\<rparr>\<rparr>;
         pkt = add_paxos_message (rte S) pm pkt 12345 dport dstIP
     in case tx_buffer (tx S) (dev c) pkt of (d, nb_tx) \<Rightarrow>
       generate_loop S dport dstIP pm pkts
         (c\<lparr>dev := d, queued := queued c @ [pkt],
            tx_counter := (if nb_tx \<noteq> 0 then tx_counter c + ucast nb_tx else tx_counter c),
            cur_inst := cur_inst c + 1\<rparr>))"

definition generate_packets :: "'d client_env \<Rightarrow> mbuf list \<Rightarrow> 'd client \<Rightarrow> 'd client" where
  "generate_packets S pkts_burst c = (case test_message (uninit_message S) (test_of (test c)) of (dport, dstIP, pm) \<Rightarrow>
     generate_loop S dport dstIP pm pkts_burst c)"

text \<open>
  The result of the allocation is not looked at: \<open>None\<close> is the use of the pointers it did not set.
\<close>

definition send_packets :: "'d client_env \<Rightarrow> nat \<Rightarrow> 'd client \<Rightarrow> 'd client option" where
  "send_packets S nb_tx c = (case alloc_bulk S nb_tx of None \<Rightarrow> None | Some bufs \<Rightarrow> Some (generate_packets S bufs c))"

definition check_return :: "u64 \<Rightarrow> mbuf list \<Rightarrow> mbuf list" where
  "check_return now pkts = map (\<lambda>pkt. pkt\<lparr>udata64 := now\<rparr>) pkts"

text \<open>A transmit callback that is not registered: it notes the time of the packets of a burst.\<close>

definition add_timestamp :: "u64 list \<Rightarrow> u64 list \<Rightarrow> u64 list" where
  "add_timestamp nows prev = nows @ drop (length nows) prev"

fun rx_rounds :: "'d client_env \<Rightarrow> u64 \<Rightarrow> u64 \<Rightarrow> (u64 \<times> u64 \<times> mbuf list) list \<Rightarrow> 'd client \<Rightarrow> 'd client option" where
  "rx_rounds S drain prev_tsc [] c = Some c"
| "rx_rounds S drain prev_tsc ((cur_tsc, now, burst) # rounds) c =
    (let c = (if drain < cur_tsc - prev_tsc
              then case tx_buffer_flush (tx S) (dev c) of (d, nb_tx) \<Rightarrow> c\<lparr>dev := d, tx_counter := tx_counter c + ucast nb_tx\<rparr>
              else c);
         c = c\<lparr>rx_counter := rx_counter c + of_nat (length burst), freed := freed c @ check_return now burst\<rparr>
     in Option.bind (if burst = [] then Some c else send_packets S (length burst) c) (rx_rounds S drain cur_tsc rounds))"

definition lcore_main :: "'d client_env \<Rightarrow> u64 \<Rightarrow> (u64 \<times> u64 \<times> mbuf list) list \<Rightarrow> 'd client \<Rightarrow> 'd client option" where
  "lcore_main S drain rounds c = Option.bind (send_packets S BURST_SIZE c) (rx_rounds S drain 0 rounds)"

definition report_stat :: "'d client \<Rightarrow> (u32 \<times> u32 \<times> u32) \<times> 'd client" where
  "report_stat c = ((tx_counter c, rx_counter c, dropped c), c\<lparr>tx_counter := 0, rx_counter := 0, dropped := 0\<rparr>)"

section \<open>The closed loop\<close>

definition iid_of :: "mbuf \<Rightarrow> u32" where
  "iid_of pkt = iid (hdr_body PXH (buf pkt) NULL_value)"

lemma generate_loop_iids:
  assumes "unat (paxos_value_len (body_value (body pm))) < 2 ^ 31"
  shows "map iid_of (queued (generate_loop S dport dst pm pkts c)) =
      map iid_of (queued c) @ map (\<lambda>i. cur_inst c + of_nat i) [0..<length pkts]
    \<and> cur_inst (generate_loop S dport dst pm pkts c) = cur_inst c + of_nat (length pkts)"
  using assms
proof (induction pkts arbitrary: pm c)
  case (Cons pkt pkts)
  let ?pm = "pm\<lparr>body := (body pm)\<lparr>iid := cur_inst c\<rparr>\<rparr>"
  let ?pkt = "add_paxos_message (rte S) ?pm pkt 12345 dport dst"
  obtain d n where d: "tx_buffer (tx S) (dev c) ?pkt = (d, n)" by fastforce
  have "iid_of ?pkt = cur_inst c" using Cons.prems by (simp add: iid_of_def sent_hdr)
  then show ?case
    using Cons.IH[of ?pm] Cons.prems d
    by (simp add: Let_def upt_conv_Cons map_Suc_upt[symmetric] add_ac del: upt_Suc)
qed simp

text \<open>The role has a message of its own, and the pool never runs dry.\<close>

definition client_ok :: "'d client_env \<Rightarrow> 'd client \<Rightarrow> bool" where
  "client_ok S c \<longleftrightarrow> test c \<in> {1, 2, 3} \<and> (\<forall>n. \<exists>bs. alloc_bulk S n = Some bs \<and> length bs = n)"

lemma generate_loop_keeps:
  "test (generate_loop S dport dst pm pkts c) = test c" "freed (generate_loop S dport dst pm pkts c) = freed c"
  by (induction S dport dst pm pkts c rule: generate_loop.induct) (auto simp: Let_def split: prod.split)

lemma test_message_short:
  "t \<in> {1, 2, 3} \<Longrightarrow> test_message u (test_of t) = (dport, dst, pm) \<Longrightarrow> unat (paxos_value_len (body_value (body pm))) < 2 ^ 31"
  by (auto simp: test_of_def acpt_def accepted_def hello_def)

lemma send_packets_iids:
  assumes "client_ok S c"
  shows "\<exists>c'. send_packets S n c = Some c' \<and> client_ok S c'
    \<and> map iid_of (queued c') = map iid_of (queued c) @ map (\<lambda>i. cur_inst c + of_nat i) [0..<n]
    \<and> cur_inst c' = cur_inst c + of_nat n \<and> freed c' = freed c"
proof -
  obtain bs where bs: "alloc_bulk S n = Some bs" "length bs = n" using assms unfolding client_ok_def by blast
  obtain dport dst pm where t: "test_message (uninit_message S) (test_of (test c)) = (dport, dst, pm)" by (metis prod_cases3)
  then have "unat (paxos_value_len (body_value (body pm))) < 2 ^ 31"
    using assms test_message_short unfolding client_ok_def by blast
  from generate_loop_iids[OF this, of S dport dst bs c] show ?thesis
    using assms by (simp add: send_packets_def generate_packets_def t bs client_ok_def generate_loop_keeps)
qed

lemma rx_rounds_iids:
  assumes "client_ok S c"
  shows "\<exists>c' k. rx_rounds S drain prev rounds c = Some c' \<and> length (freed c') = length (freed c) + k
    \<and> map iid_of (queued c') = map iid_of (queued c) @ map (\<lambda>i. cur_inst c + of_nat i) [0..<k]"
  using assms
proof (induction rounds arbitrary: prev c)
  case (Cons r rounds)
  obtain cur now burst where r: "r = (cur, now, burst)" by (metis prod_cases3)
  obtain d n where d: "tx_buffer_flush (tx S) (dev c) = (d, n)" by fastforce
  define c1 where "c1 = (if drain < cur - prev then c\<lparr>dev := d, tx_counter := tx_counter c + ucast n\<rparr> else c)"
  define c2 where "c2 = c1\<lparr>rx_counter := rx_counter c1 + of_nat (length burst), freed := freed c1 @ check_return now burst\<rparr>"
  have c2: "client_ok S c2" "queued c2 = queued c" "cur_inst c2 = cur_inst c" "length (freed c2) = length (freed c) + length burst"
    using Cons.prems by (simp_all add: c2_def c1_def client_ok_def check_return_def)
  have step: "rx_rounds S drain prev (r # rounds) c =
      Option.bind (if burst = [] then Some c2 else send_packets S (length burst) c2) (rx_rounds S drain cur rounds)"
    by (simp add: r d Let_def c2_def c1_def)
  obtain c3 where c3: "(if burst = [] then Some c2 else send_packets S (length burst) c2) = Some c3" "client_ok S c3"
    "map iid_of (queued c3) = map iid_of (queued c) @ map (\<lambda>i. cur_inst c + of_nat i) [0..<length burst]"
    "cur_inst c3 = cur_inst c + of_nat (length burst)" "freed c3 = freed c2"
    using send_packets_iids[OF c2(1), of "length burst"] c2 by (cases "burst = []") auto
  obtain c4 k where c4: "rx_rounds S drain cur rounds c3 = Some c4" "length (freed c4) = length (freed c3) + k"
    "map iid_of (queued c4) = map iid_of (queued c3) @ map (\<lambda>i. cur_inst c3 + of_nat i) [0..<k]"
    using Cons.IH[OF c3(2)] by blast
  have "map (\<lambda>i. cur_inst c + of_nat i) [0..<length burst] @ map (\<lambda>i. cur_inst c3 + of_nat i) [0..<k]
      = map (\<lambda>i. cur_inst c + of_nat i) [0..<length burst + k]"
    unfolding c3(4) by (rule map_count_append)
  then show ?case
    using step c3 c4 c2(4) by (intro exI[of _ c4] exI[of _ "length burst + k"]) simp
qed (auto intro!: exI[of _ 0])

text \<open>The client is a closed loop: it has sent as many messages as the first burst of 32 and one for each packet that
  came back, with consecutive instances from its counter on, and it frees every packet it receives.\<close>

theorem client_closed_loop:
  assumes "client_ok S c" "queued c = []" "freed c = []"
  shows "\<exists>c'. lcore_main S drain rounds c = Some c'
    \<and> map iid_of (queued c') = map (\<lambda>i. cur_inst c + of_nat i) [0..<BURST_SIZE + length (freed c')]"
proof -
  obtain c1 where c1: "send_packets S BURST_SIZE c = Some c1" "client_ok S c1" "freed c1 = freed c"
    "map iid_of (queued c1) = map (\<lambda>i. cur_inst c + of_nat i) [0..<BURST_SIZE]" "cur_inst c1 = cur_inst c + of_nat BURST_SIZE"
    using send_packets_iids[OF assms(1), of BURST_SIZE] assms(2) by auto
  obtain c2 k where c2: "rx_rounds S drain 0 rounds c1 = Some c2" "length (freed c2) = length (freed c1) + k"
    "map iid_of (queued c2) = map iid_of (queued c1) @ map (\<lambda>i. cur_inst c1 + of_nat i) [0..<k]"
    using rx_rounds_iids[OF c1(2)] by blast
  have "map (\<lambda>i. cur_inst c + of_nat i) [0..<BURST_SIZE] @ map (\<lambda>i. cur_inst c1 + of_nat i) [0..<k]
      = map (\<lambda>i. cur_inst c + of_nat i) [0..<BURST_SIZE + k]"
    unfolding c1(5) by (rule map_count_append)
  then show ?thesis using c1 c2 assms(3) by (simp add: lcore_main_def)
qed


definition example_client_env :: "nat client_env" where
  "example_client_env = \<lparr>rte = example_env, tx = counting_buffer, alloc_bulk = (\<lambda>n. Some (replicate n example_mbuf)),
     uninit_message = example_message\<rparr>"

definition example_client :: "nat client" where
  "example_client = \<lparr>test = 2, cur_inst = 1, dev = 0, tx_counter = 0, rx_counter = 0, dropped = 0, queued = [], freed = []\<rparr>"

theorem client_closed_loop_witness:
  "\<exists>c'. lcore_main example_client_env 100 [(500, 501, [example_mbuf, example_mbuf])] example_client = Some c'
    \<and> map iid_of (queued c') = map (\<lambda>i. 1 + of_nat i) [0..<32 + length (freed c')]"
  using client_closed_loop[of example_client_env example_client 100 "[(500, 501, [example_mbuf, example_mbuf])]"]
  by (simp add: client_ok_def BURST_SIZE_def) (simp add: example_client_env_def example_client_def)

section \<open>Start-up\<close>

text \<open>The options; a role that is not given is that of the zero-initialised configuration.\<close>

record client_config =
  cfg_test :: int
  cfg_period :: int

fun parse_opts :: "getopt \<Rightarrow> client_config \<Rightarrow> client_config parsed" where
  "parse_opts [] cfg = Inr cfg"
| "parse_opts ((opt, optarg) # opts) cfg =
    (if opt = CHR ''t'' then parse_opts opts (cfg\<lparr>cfg_test := atoi optarg\<rparr>)
     else if opt = CHR ''p'' then parse_opts opts (cfg\<lparr>cfg_period := atoi optarg\<rparr>)
     else Inl ''Invalid option specified'')"

definition parse_args :: "getopt \<Rightarrow> client_config parsed" where
  "parse_args opts =
    (case parse_opts opts \<lparr>cfg_test = 0, cfg_period = 5\<rparr> of
       Inl e \<Rightarrow> Inl e
     | Inr cfg \<Rightarrow> if cfg_test cfg < 0 \<or> 3 < cfg_test cfg then Inl ''TEST_ROLE is invalid'' else Inr cfg)"

definition port_init :: "api \<Rightarrow> u8 \<Rightarrow> int host" where
  "port_init api port = do {
     n \<leftarrow> ask api dev_count;
     if uint port \<ge> n then State_Monad.return (-1)
     else do {
       calls [dev_info_get port];
       retval \<leftarrow> ask api (dev_configure port 1 1);
       if retval \<noteq> 0 then State_Monad.return retval
       else do {
         retval \<leftarrow> ask api (rx_queue_setup port 0);
         if retval < 0 then State_Monad.return retval
         else do {
           retval \<leftarrow> ask api (tx_queue_setup port 0);
           if retval < 0 then State_Monad.return retval
           else do {
             retval \<leftarrow> ask api (dev_start port);
             if retval < 0 then State_Monad.return retval
             else do {
               calls [promiscuous_enable port];
               calls [add_rx_callback port ''check_return'', add_tx_callback port ''calc_latency''];
               State_Monad.return 0
             }
           }
         }
       }
     }
   }"

definition callbacks :: "u8 \<Rightarrow> call list" where
  "callbacks port = [add_rx_callback port ''check_return'', add_tx_callback port ''calc_latency'']"

text \<open>The result of setting the error callback is not looked at.\<close>

definition main :: "getopt \<Rightarrow> api \<Rightarrow> outcome host" where
  "main opts api = do {
     ret \<leftarrow> ask api eal_init;
     if ret < 0 then State_Monad.return (Exit_failure ''Error with EAL initialization'')
     else case parse_args opts of Inl e \<Rightarrow> State_Monad.return (Exit_failure e) | Inr cfg \<Rightarrow> do {
       calls [timer_init ''timer'', timer_hz, dev_info_get 0, signal 2, signal 15];
       mbuf_pool \<leftarrow> ask api (pool_create ''MBUF_POOL'');
       if mbuf_pool = 0 then State_Monad.return (Exit_failure ''Cannot create mbuf pool'')
       else do {
         tx_buffer \<leftarrow> ask api zmalloc_tx_buffer;
         if tx_buffer = 0 then State_Monad.return (Exit_failure ''Cannot allocate buffer for tx'')
         else do {
           calls [tx_buffer_init BURST_SIZE, set_err_callback];
           r \<leftarrow> port_init api 0;
           if r \<noteq> 0 then State_Monad.return (Exit_failure ''Cannot init port'')
           else do {
             calls [next_lcore, timer_reset ''timer'' ''report_stat'',
                    remote_launch ''check_timer_expiration'', timer_subsystem_init];
             calls [lcore_loop 0];
             State_Monad.return (Returned 0)
           }
         }
       }
     }
   }"

interpretation client_port: port_initialiser port_init callbacks
proof
  show "\<exists>pre mid. log' = log @ pre @ [dev_start p] @ mid @ callbacks p
      \<and> (\<forall>c \<in> set (pre @ mid). \<not> is_callback c \<and> \<not> is_loop c)"
    if "run_state (port_init api p) log = (0, log')" for api p log log'
    using that
    by (intro exI[of _ "[dev_count, dev_info_get p, dev_configure p 1 1, rx_queue_setup p 0, tx_queue_setup p 0]"]
        exI[of _ "[promiscuous_enable p]"])
      (auto simp: port_init_def callbacks_def trace_simps Let_def split: if_splits)
  show "\<exists>suf. log' = log @ suf \<and> (\<forall>c \<in> set suf. \<not> is_callback c \<and> \<not> is_loop c)"
    if "run_state (port_init api p) log = (r, log')" "r \<noteq> 0" for api p log r log'
    using that by (auto simp: port_init_def trace_simps Let_def split: if_splits)
qed

abbreviation (input) startup :: "call list" where
  "startup \<equiv> [eal_init, timer_init ''timer'', timer_hz, dev_info_get 0, signal 2, signal 15, pool_create ''MBUF_POOL'',
     zmalloc_tx_buffer, tx_buffer_init BURST_SIZE, set_err_callback]"

lemma client_main_run:
  "run_state (main opts api) [] = (Returned v, log) \<Longrightarrow> \<exists>l1. run_state (port_init api 0) startup = (0, l1)
    \<and> log = l1 @ [next_lcore, timer_reset ''timer'' ''report_stat'',
      remote_launch ''check_timer_expiration'', timer_subsystem_init] @ [lcore_loop 0] @ []"
  by (simp add: main_def guard_returned split: prod.splits sum.splits)

interpretation client_main: dpdk_program port_init callbacks "main opts" for opts
proof
  show "\<exists>l0 l1 mid post. run_state (port_init api 0) l0 = (0, l1) \<and> log = l1 @ mid @ [lcore_loop 0] @ post
      \<and> (\<forall>c \<in> set (l0 @ mid @ post). \<not> is_callback c \<and> \<not> is_loop c)"
    if run: "run_state (main opts api) [] = (Returned v, log)" for api v log
  proof -
    obtain l1 where "run_state (port_init api 0) startup = (0, l1)"
      "log = l1 @ [next_lcore, timer_reset ''timer'' ''report_stat'',
      remote_launch ''check_timer_expiration'', timer_subsystem_init] @ [lcore_loop 0] @ []"
      using client_main_run[OF run] by blast
    then show ?thesis
      by (intro exI[of _ startup] exI[of _ l1] exI[of _ "[next_lcore, timer_reset ''timer'' ''report_stat'',
      remote_launch ''check_timer_expiration'', timer_subsystem_init]"] exI[of _ "[]"])
        (simp add: trace_simps)
  qed
  show "\<forall>c \<in> set log. \<not> is_loop c" if run: "run_state (main opts api) [] = (Exit_failure msg, log)" for api msg log
  proof -
    have "exits_early (main opts api) []"
      by (simp add: main_def is_loop_def client_port.exits_early_init split: sum.split)
    then show ?thesis using run by (simp add: exits_early_def quiet_def)
  qed
qed

end
