(* ===== verification/Dpdk_Gen_Packet.thy ===== *)
theory Dpdk_Gen_Packet
  imports Dpdk_Client
begin

text \<open>
  \<^verbatim>\<open>dpdk/gen_packet\<close>: the second load generator, which sends its messages from the receive callback.
  Its message and the roles it tests are those of the client.
\<close>

section \<open>Generating packets\<close>

record 'd generator =
  test :: int
  cur_inst :: u32
  dev :: 'd
  counter :: u32
  queued :: "mbuf list"
  freed :: "mbuf list"

record 'd generator_env =
  rte :: rte_env
  tx :: "'d tx_api"
  alloc_bulk :: "nat \<Rightarrow> mbuf list option"

fun role_port :: "PAXOS_TEST option \<Rightarrow> u16" where
  "role_port (Some PROPOSER) = PROPOSER_PORT"
| "role_port (Some COORDINATOR) = COORDINATOR_PORT"
| "role_port (Some ACCEPTOR) = ACCEPTOR_PORT"
| "role_port (Some LEARNER) = LEARNER_PORT"
| "role_port None = 11111"

fun generate_loop :: "'d generator_env \<Rightarrow> u16 \<Rightarrow> paxos_message \<Rightarrow> mbuf list \<Rightarrow> 'd generator \<Rightarrow> 'd generator" where
  "generate_loop S dport pm [] c = c"
| "generate_loop S dport pm (pkt # pkts) c =
    (let pm = pm\<lparr>body := (body pm)\<lparr>iid := cur_inst c\<rparr>\<rparr>;
         pkt = add_paxos_message (rte S) pm pkt 12345 dport LEARNER_ADDR
     in case tx_buffer (tx S) (dev c) pkt of (d, _) \<Rightarrow>
       generate_loop S dport pm pkts (c\<lparr>dev := d, queued := queued c @ [pkt], cur_inst := cur_inst c + 1\<rparr>))"

definition generate_packets :: "'d generator_env \<Rightarrow> mbuf list \<Rightarrow> 'd generator \<Rightarrow> 'd generator" where
  "generate_packets S pkts_burst c = generate_loop S (role_port (test_of (test c)))
     \<lparr>mtype = of_nat (msg_code PAXOS_ACCEPT), body = acpt\<rparr> pkts_burst c"

definition send_packets :: "'d generator_env \<Rightarrow> nat \<Rightarrow> 'd generator \<Rightarrow> 'd generator option" where
  "send_packets S nb_tx c = (case alloc_bulk S nb_tx of None \<Rightarrow> None | Some bufs \<Rightarrow> Some (generate_packets S bufs c))"

text \<open>The receive callback: for each packet of the burst it sends as many packets as the burst has.\<close>

fun check_return_loop :: "'d generator_env \<Rightarrow> nat \<Rightarrow> nat \<Rightarrow> 'd generator \<Rightarrow> 'd generator option" where
  "check_return_loop S nb_pkts 0 c = Some c"
| "check_return_loop S nb_pkts (Suc i) c = Option.bind (send_packets S nb_pkts c) (check_return_loop S nb_pkts i)"

definition check_return :: "'d generator_env \<Rightarrow> mbuf list \<Rightarrow> 'd generator \<Rightarrow> 'd generator option" where
  "check_return S pkts c = check_return_loop S (length pkts) (length pkts) c"

fun rx_rounds :: "'d generator_env \<Rightarrow> u64 \<Rightarrow> u64 \<Rightarrow> (u64 \<times> mbuf list) list \<Rightarrow> 'd generator \<Rightarrow> 'd generator option" where
  "rx_rounds S drain prev_tsc [] c = Some c"
| "rx_rounds S drain prev_tsc ((cur_tsc, burst) # rounds) c =
    (let c = (if drain < cur_tsc - prev_tsc then c\<lparr>dev := fst (tx_buffer_flush (tx S) (dev c))\<rparr> else c) in
     Option.bind (check_return S burst c) (\<lambda>c.
       rx_rounds S drain cur_tsc rounds
         (c\<lparr>counter := counter c + of_nat (length burst), freed := freed c @ burst\<rparr>)))"

definition lcore_main :: "'d generator_env \<Rightarrow> u64 \<Rightarrow> nat \<Rightarrow> (u64 \<times> mbuf list) list \<Rightarrow> 'd generator \<Rightarrow> 'd generator option" where
  "lcore_main S drain outstanding rounds c = Option.bind (send_packets S outstanding c) (rx_rounds S drain 0 rounds)"

text \<open>\<^verbatim>\<open>report_stat\<close>: the count over the period (signed division), \<open>None\<close> for a period of zero.\<close>

definition report_stat :: "int \<Rightarrow> 'd generator \<Rightarrow> int option \<times> 'd generator" where
  "report_stat period c = ((if period = 0 then None else Some (sgn period * sgn (sint (counter c)) * (\<bar>sint (counter c)\<bar> div \<bar>period\<bar>))),
     c\<lparr>counter := 0\<rparr>)"

section \<open>How much it sends\<close>

lemma generate_loop_count: "length (queued (generate_loop S dport pm pkts c)) = length (queued c) + length pkts"
  by (induction S dport pm pkts c rule: generate_loop.induct) (auto simp: Let_def split: prod.split)

lemma send_packets_count:
  assumes "\<And>n. \<exists>bs. alloc_bulk S n = Some bs \<and> length bs = n"
  shows "\<exists>c'. send_packets S n c = Some c' \<and> length (queued c') = length (queued c) + n"
proof -
  obtain bs where "alloc_bulk S n = Some bs" "length bs = n" using assms by blast
  then show ?thesis by (simp add: send_packets_def generate_packets_def generate_loop_count)
qed

lemma check_return_loop_count:
  assumes "\<And>n. \<exists>bs. alloc_bulk S n = Some bs \<and> length bs = n"
  shows "\<exists>c'. check_return_loop S n i c = Some c' \<and> length (queued c') = length (queued c) + i * n"
proof (induction i arbitrary: c)
  case (Suc i)
  obtain c1 where "send_packets S n c = Some c1" "length (queued c1) = length (queued c) + n"
    using send_packets_count[OF assms] by blast
  then show ?case using Suc.IH[of c1] by auto
qed simp

text \<open>The generator does not keep the number of outstanding packets constant: a burst of \<open>n\<close> packets that come back
  makes it send \<open>n\<^sup>2\<close> new ones.\<close>

theorem generator_amplifies:
  assumes "\<And>n. \<exists>bs. alloc_bulk S n = Some bs \<and> length bs = n"
  shows "\<exists>c'. check_return S pkts c = Some c' \<and> length (queued c') = length (queued c) + (length pkts)\<^sup>2"
  using check_return_loop_count[OF assms] by (simp add: check_return_def power2_eq_square)

definition example_generator_env :: "nat generator_env" where
  "example_generator_env = \<lparr>rte = example_env, tx = counting_buffer, alloc_bulk = (\<lambda>n. Some (replicate n example_mbuf))\<rparr>"

theorem generator_amplifies_witness:
  "\<exists>c'. check_return example_generator_env [example_mbuf, example_mbuf, example_mbuf]
     \<lparr>test = 2, cur_inst = 1, dev = 0, counter = 0, queued = [], freed = []\<rparr> = Some c' \<and> length (queued c') = 9"
  using generator_amplifies[of example_generator_env "[example_mbuf, example_mbuf, example_mbuf]"
      "\<lparr>test = 2, cur_inst = 1, dev = 0, counter = 0, queued = [], freed = []\<rparr>"]
  by (simp add: example_generator_env_def power2_eq_square eval_nat_numeral)

section \<open>Start-up\<close>

record generator_config =
  cfg_test :: int
  cfg_period :: int
  cfg_outstanding :: int

fun parse_opts :: "getopt \<Rightarrow> generator_config \<Rightarrow> generator_config parsed" where
  "parse_opts [] cfg = Inr cfg"
| "parse_opts ((opt, optarg) # opts) cfg =
    (if opt = CHR ''t'' then parse_opts opts (cfg\<lparr>cfg_test := atoi optarg\<rparr>)
     else if opt = CHR ''p'' then parse_opts opts (cfg\<lparr>cfg_period := atoi optarg\<rparr>)
     else if opt = CHR ''o'' then parse_opts opts (cfg\<lparr>cfg_outstanding := atoi optarg\<rparr>)
     else Inl ''Invalid option specified'')"

definition parse_args :: "getopt \<Rightarrow> generator_config parsed" where
  "parse_args opts =
    (case parse_opts opts \<lparr>cfg_test = 0, cfg_period = 5, cfg_outstanding = 1\<rparr> of
       Inl e \<Rightarrow> Inl e
     | Inr cfg \<Rightarrow> if cfg_test cfg < 0 \<or> 3 < cfg_test cfg then Inl ''TEST_ROLE is invalid'' else Inr cfg)"

definition port_init :: "api \<Rightarrow> u8 \<Rightarrow> int host" where
  "port_init api port = do {
     n \<leftarrow> ask api dev_count;
     if uint port \<ge> n then State_Monad.return (-1)
     else do {
       calls [dev_info_get port];
       retval \<leftarrow> ask api (dev_configure port 1 1);
       if retval \<noteq> 0 then State_Monad.return retval
       else do {
         retval \<leftarrow> ask api (rx_queue_setup port 0);
         if retval < 0 then State_Monad.return retval
         else do {
           retval \<leftarrow> ask api (tx_queue_setup port 0);
           if retval < 0 then State_Monad.return retval
           else do {
             retval \<leftarrow> ask api (dev_start port);
             if retval < 0 then State_Monad.return retval
             else do {
               calls [promiscuous_enable port];
               calls [add_rx_callback port ''check_return''];
               State_Monad.return 0
             }
           }
         }
       }
     }
   }"

definition callbacks :: "u8 \<Rightarrow> call list" where
  "callbacks port = [add_rx_callback port ''check_return'']"

definition main :: "getopt \<Rightarrow> api \<Rightarrow> outcome host" where
  "main opts api = do {
     ret \<leftarrow> ask api eal_init;
     if ret < 0 then State_Monad.return (Exit_failure ''Error with EAL initialization'')
     else case parse_args opts of Inl e \<Rightarrow> State_Monad.return (Exit_failure e) | Inr cfg \<Rightarrow> do {
       calls [timer_init ''timer'', timer_init ''gen_timer'', timer_hz, dev_info_get 0, signal 2, signal 15];
       mbuf_pool \<leftarrow> ask api (pool_create ''MBUF_POOL'');
       if mbuf_pool = 0 then State_Monad.return (Exit_failure ''Cannot create mbuf pool'')
       else do {
         tx_buffer \<leftarrow> ask api zmalloc_tx_buffer;
         if tx_buffer = 0 then State_Monad.return (Exit_failure ''Cannot allocate buffer for tx'')
         else do {
           calls [tx_buffer_init BURST_SIZE];
           r \<leftarrow> port_init api 0;
           if r \<noteq> 0 then State_Monad.return (Exit_failure ''Cannot init port'')
           else do {
             calls [next_lcore, timer_reset ''timer'' ''report_stat'',
                    remote_launch ''check_timer_expiration'', timer_subsystem_init];
             calls [lcore_loop 0];
             State_Monad.return (Returned 0)
           }
         }
       }
     }
   }"

interpretation gen_packet_port: port_initialiser port_init callbacks
proof
  show "\<exists>pre mid. log' = log @ pre @ [dev_start p] @ mid @ callbacks p
      \<and> (\<forall>c \<in> set (pre @ mid). \<not> is_callback c \<and> \<not> is_loop c)"
    if "run_state (port_init api p) log = (0, log')" for api p log log'
    using that
    by (intro exI[of _ "[dev_count, dev_info_get p, dev_configure p 1 1, rx_queue_setup p 0, tx_queue_setup p 0]"]
        exI[of _ "[promiscuous_enable p]"])
      (auto simp: port_init_def callbacks_def trace_simps Let_def split: if_splits)
  show "\<exists>suf. log' = log @ suf \<and> (\<forall>c \<in> set suf. \<not> is_callback c \<and> \<not> is_loop c)"
    if "run_state (port_init api p) log = (r, log')" "r \<noteq> 0" for api p log r log'
    using that by (auto simp: port_init_def trace_simps Let_def split: if_splits)
qed

abbreviation (input) startup :: "call list" where
  "startup \<equiv> [eal_init, timer_init ''timer'', timer_init ''gen_timer'', timer_hz, dev_info_get 0, signal 2, signal 15,
     pool_create ''MBUF_POOL'', zmalloc_tx_buffer, tx_buffer_init BURST_SIZE]"

lemma gen_packet_main_run:
  "run_state (main opts api) [] = (Returned v, log) \<Longrightarrow> \<exists>l1. run_state (port_init api 0) startup = (0, l1)
    \<and> log = l1 @ [next_lcore, timer_reset ''timer'' ''report_stat'',
      remote_launch ''check_timer_expiration'', timer_subsystem_init] @ [lcore_loop 0] @ []"
  by (simp add: main_def guard_returned split: prod.splits sum.splits)

interpretation gen_packet_main: dpdk_program port_init callbacks "main opts" for opts
proof
  show "\<exists>l0 l1 mid post. run_state (port_init api 0) l0 = (0, l1) \<and> log = l1 @ mid @ [lcore_loop 0] @ post
      \<and> (\<forall>c \<in> set (l0 @ mid @ post). \<not> is_callback c \<and> \<not> is_loop c)"
    if run: "run_state (main opts api) [] = (Returned v, log)" for api v log
  proof -
    obtain l1 where "run_state (port_init api 0) startup = (0, l1)"
      "log = l1 @ [next_lcore, timer_reset ''timer'' ''report_stat'',
      remote_launch ''check_timer_expiration'', timer_subsystem_init] @ [lcore_loop 0] @ []"
      using gen_packet_main_run[OF run] by blast
    then show ?thesis
      by (intro exI[of _ startup] exI[of _ l1] exI[of _ "[next_lcore, timer_reset ''timer'' ''report_stat'',
      remote_launch ''check_timer_expiration'', timer_subsystem_init]"] exI[of _ "[]"])
        (simp add: trace_simps)
  qed
  show "\<forall>c \<in> set log. \<not> is_loop c" if run: "run_state (main opts api) [] = (Exit_failure msg, log)" for api msg log
  proof -
    have "exits_early (main opts api) []"
      by (simp add: main_def is_loop_def gen_packet_port.exits_early_init split: sum.split)
    then show ?thesis using run by (simp add: exits_early_def quiet_def)
  qed
qed

end
