(* ===== verification/Dpdk_Pktgen.thy ===== *)
theory Dpdk_Pktgen
  imports Dpdk_Host Client_Message
begin

text \<open>
  \<^verbatim>\<open>dpdk/pktgen4learner\<close>: the load generator for the learner.  It sends accepted messages whose values
  are commands with the time of sending, and measures the latency of the commands that come back.
\<close>

section \<open>Sending commands\<close>

text \<open>Times as \<^verbatim>\<open>struct timespec\<close> has them, of which the fields are 64-bit signed integers.\<close>

record timespec =
  tv_sec :: int
  tv_nsec :: int

text \<open>\<open>latency\<close> is the sum of the latencies in nanoseconds: the source adds integers to a \<^verbatim>\<open>double\<close>.\<close>

record 'd pktgen =
  cur_inst :: u32
  op :: Operation
  dev :: 'd
  tx_counter :: u32
  rx_counter :: u32
  latency :: int
  sent :: "mbuf list"

text \<open>
  The environment: \<open>tx_burst\<close> is \<^verbatim>\<open>rte_eth_tx_burst\<close> of one packet, \<open>fresh\<close> the packet
  \<^verbatim>\<open>rte_pktmbuf_alloc\<close> gives; the command lives on the stack and the request in allocated memory,
  neither of which is initialised.
\<close>

record 'd pktgen_env =
  rte :: rte_env
  tx_burst :: "'d \<Rightarrow> mbuf \<Rightarrow> 'd \<times> u16"
  fresh :: "mbuf option"
  stack :: mem
  heap :: mem

definition client_addr :: sockaddr_in where
  "client_addr = \<lparr>sin_port = 3490, s_addr = bswap32 (IPv4 192 168 4 97)\<rparr>"

definition command_bytes :: "mem \<Rightarrow> timespec \<Rightarrow> Operation \<Rightarrow> mem" where
  "command_bytes uninit ts opn =
    (let m = st64 cmd_tv_sec (word_of_int (tv_sec ts)) uninit;
         m = st64 cmd_tv_nsec (word_of_int (tv_nsec ts)) m;
         m = st32 cmd_op (op_code opn) m;
         m = memset cmd_content 107 15 m;
         m = st8 (cmd_content + 15) 0 m;
         m = memset (cmd_content + 16) 118 15 m
     in st8 (cmd_content + 31) 0 m)"

text \<open>\<open>now\<close> is what \<^verbatim>\<open>clock_gettime\<close> returned; \<open>None\<close> is the null dereference when the pool is empty.\<close>

definition generate_packet :: "'d pktgen_env \<Rightarrow> timespec \<Rightarrow> 'd pktgen \<Rightarrow> 'd pktgen option" where
  "generate_packet S now c = (case fresh S of None \<Rightarrow> None | Some pkt \<Rightarrow>
    let cmd = command_bytes (stack S) now (op c);
        req = set_cliaddr client_addr (create_client_request (heap S) cmd (of_nat sizeof_command));
        phase2b = \<lparr>iid = cur_inst c, ballot = 1, value_ballot = 1, aid = 0,
          body_value = \<lparr>paxos_value_len = ucast (message_length req), paxos_value_val = req\<rparr>\<rparr>;
        pkt = add_paxos_message (rte S) \<lparr>mtype = of_nat (msg_code PAXOS_ACCEPTED), body = phase2b\<rparr> pkt
          12345 LEARNER_PORT LEARNER_ADDR
    in case tx_burst S (dev c) pkt of (d, nb_tx) \<Rightarrow>
      Some (c\<lparr>cur_inst := cur_inst c + 1, dev := d, sent := sent c @ [pkt],
        tx_counter := (if nb_tx \<noteq> 0 then tx_counter c + ucast nb_tx else tx_counter c)\<rparr>))"

section \<open>Measuring latency\<close>

abbreviation (input) NS_PER_S :: int where "NS_PER_S \<equiv> 1000000000"

definition timespec_diff :: "timespec \<Rightarrow> timespec \<Rightarrow> timespec \<times> bool" where
  "timespec_diff end_time start =
    ((if tv_nsec end_time < tv_nsec start
      then \<lparr>tv_sec = tv_sec end_time - tv_sec start - 1, tv_nsec = NS_PER_S + tv_nsec end_time - tv_nsec start\<rparr>
      else \<lparr>tv_sec = tv_sec end_time - tv_sec start, tv_nsec = tv_nsec end_time - tv_nsec start\<rparr>),
     tv_sec end_time < tv_sec start)"

text \<open>The time in a command that came back.\<close>

definition command_time :: "mem \<Rightarrow> timespec" where
  "command_time m = \<lparr>tv_sec = sint (ld64 (PXH + cmd_tv_sec) m), tv_nsec = sint (ld64 (PXH + cmd_tv_nsec) m)\<rparr>"

definition compute_latency :: "timespec \<Rightarrow> mbuf \<Rightarrow> 'd pktgen \<Rightarrow> 'd pktgen" where
  "compute_latency now pkt c =
    (if buf pkt (IPH + ip_next_proto_id) \<noteq> IPPROTO_UDP then c
     else (case timespec_diff now (command_time (buf pkt)) of (result, negative) \<Rightarrow>
       if \<not> negative then c\<lparr>latency := latency c + (tv_sec result * NS_PER_S + tv_nsec result), rx_counter := rx_counter c + 1\<rparr>
       else c))"

text \<open>The receive callback; for each packet the two clock readings it makes are given.\<close>

fun on_receive :: "'d pktgen_env \<Rightarrow> (timespec \<times> timespec \<times> mbuf) list \<Rightarrow> 'd pktgen \<Rightarrow> 'd pktgen option" where
  "on_receive S [] c = Some c"
| "on_receive S ((t1, t2, pkt) # pkts) c =
    Option.bind (generate_packet S t2 (compute_latency t1 pkt c)) (on_receive S pkts)"

fun send_outstanding :: "'d pktgen_env \<Rightarrow> timespec list \<Rightarrow> 'd pktgen \<Rightarrow> 'd pktgen option" where
  "send_outstanding S [] c = Some c"
| "send_outstanding S (now # nows) c = Option.bind (generate_packet S now c) (send_outstanding S nows)"

fun rx_bursts :: "'d pktgen_env \<Rightarrow> (timespec \<times> timespec \<times> mbuf) list list \<Rightarrow> 'd pktgen \<Rightarrow> 'd pktgen option" where
  "rx_bursts S [] c = Some c"
| "rx_bursts S (burst # bursts) c = Option.bind (on_receive S burst c) (rx_bursts S bursts)"

definition lcore_main ::
  "'d pktgen_env \<Rightarrow> timespec list \<Rightarrow> (timespec \<times> timespec \<times> mbuf) list list \<Rightarrow> 'd pktgen \<Rightarrow> 'd pktgen option" where
  "lcore_main S nows bursts c = Option.bind (send_outstanding S nows c) (rx_bursts S bursts)"

text \<open>\<^verbatim>\<open>report_stat\<close>: the counters and the sum it divides by the count (when that is not zero).\<close>

definition report_stat :: "'d pktgen \<Rightarrow> (u32 \<times> u32 \<times> int) \<times> 'd pktgen" where
  "report_stat c = ((tx_counter c, rx_counter c, if rx_counter c = 0 then 0 else latency c),
     c\<lparr>tx_counter := 0, rx_counter := 0, latency := 0\<rparr>)"

section \<open>Properties of the difference\<close>

definition ns :: "timespec \<Rightarrow> int" where
  "ns t = tv_sec t * NS_PER_S + tv_nsec t"

definition normalised :: "timespec \<Rightarrow> bool" where
  "normalised t \<longleftrightarrow> 0 \<le> tv_nsec t \<and> tv_nsec t < NS_PER_S"

text \<open>The difference of two times is normalised and is their difference in nanoseconds; the result flag is set for
  differences of more than a second, but a difference that is negative within the same second is not
  flagged, against the comment \<open>return 1 if result is negative\<close>.\<close>

theorem timespec_diff_correct:
  assumes "normalised e" "normalised s" "timespec_diff e s = (r, negative)"
  shows "normalised r \<and> ns r = ns e - ns s
    \<and> (negative \<longleftrightarrow> tv_sec e < tv_sec s)
    \<and> (tv_sec e = tv_sec s \<and> tv_nsec e < tv_nsec s \<longrightarrow> ns r < 0 \<and> \<not> negative)"
  using assms by (auto simp: timespec_diff_def normalised_def ns_def algebra_simps)

theorem timespec_diff_correct_witness:
  "ns (fst (timespec_diff \<lparr>tv_sec = 5, tv_nsec = 3\<rparr> \<lparr>tv_sec = 5, tv_nsec = 10\<rparr>)) = -7
   \<and> \<not> snd (timespec_diff \<lparr>tv_sec = 5, tv_nsec = 3\<rparr> \<lparr>tv_sec = 5, tv_nsec = 10\<rparr>)"
  using timespec_diff_correct[of "\<lparr>tv_sec = 5, tv_nsec = 3\<rparr>" "\<lparr>tv_sec = 5, tv_nsec = 10\<rparr>"
      "fst (timespec_diff \<lparr>tv_sec = 5, tv_nsec = 3\<rparr> \<lparr>tv_sec = 5, tv_nsec = 10\<rparr>)"
      "snd (timespec_diff \<lparr>tv_sec = 5, tv_nsec = 3\<rparr> \<lparr>tv_sec = 5, tv_nsec = 10\<rparr>)"]
  by (simp add: normalised_def ns_def)

section \<open>The command in the packet\<close>

lemma command_bytes_time:
  "ld64 cmd_tv_sec (command_bytes m ts opn) = word_of_int (tv_sec ts)"
  "ld64 cmd_tv_nsec (command_bytes m ts opn) = word_of_int (tv_nsec ts)"
  by (simp_all add: command_bytes_def Let_def mem_simps)

section \<open>Start-up\<close>

record pktgen_config =
  cfg_test :: int
  cfg_period :: int
  cfg_outstanding :: int
  cfg_write_op :: int

fun parse_opts :: "getopt \<Rightarrow> pktgen_config \<Rightarrow> pktgen_config parsed" where
  "parse_opts [] cfg = Inr cfg"
| "parse_opts ((opt, optarg) # opts) cfg =
    (if opt = CHR ''t'' then parse_opts opts (cfg\<lparr>cfg_test := atoi optarg\<rparr>)
     else if opt = CHR ''p'' then parse_opts opts (cfg\<lparr>cfg_period := atoi optarg\<rparr>)
     else if opt = CHR ''o'' then parse_opts opts (cfg\<lparr>cfg_outstanding := atoi optarg\<rparr>)
     else if opt = CHR ''w'' then parse_opts opts (cfg\<lparr>cfg_write_op := 1\<rparr>)
     else Inl ''Invalid option specified'')"

definition parse_args :: "getopt \<Rightarrow> pktgen_config parsed" where
  "parse_args opts =
    (case parse_opts opts \<lparr>cfg_test = 0, cfg_period = 5, cfg_outstanding = 1, cfg_write_op = 0\<rparr> of
       Inl e \<Rightarrow> Inl e
     | Inr cfg \<Rightarrow> if cfg_test cfg < 0 \<or> 3 < cfg_test cfg then Inl ''TEST_ROLE is invalid'' else Inr cfg)"

definition port_init :: "api \<Rightarrow> u8 \<Rightarrow> int host" where
  "port_init api port = do {
     n \<leftarrow> ask api dev_count;
     if uint port \<ge> n then State_Monad.return (-1)
     else do {
       calls [dev_info_get port];
       retval \<leftarrow> ask api (dev_configure port 1 1);
       if retval \<noteq> 0 then State_Monad.return retval
       else do {
         retval \<leftarrow> ask api (rx_queue_setup port 0);
         if retval < 0 then State_Monad.return retval
         else do {
           retval \<leftarrow> ask api (tx_queue_setup port 0);
           if retval < 0 then State_Monad.return retval
           else do {
             retval \<leftarrow> ask api (dev_start port);
             if retval < 0 then State_Monad.return retval
             else do {
               calls [promiscuous_enable port];
               calls [add_rx_callback port ''on_receive''];
               State_Monad.return 0
             }
           }
         }
       }
     }
   }"

definition callbacks :: "u8 \<Rightarrow> call list" where
  "callbacks port = [add_rx_callback port ''on_receive'']"

definition main :: "getopt \<Rightarrow> api \<Rightarrow> outcome host" where
  "main opts api = do {
     ret \<leftarrow> ask api eal_init;
     if ret < 0 then State_Monad.return (Exit_failure ''Error with EAL initialization'')
     else case parse_args opts of Inl e \<Rightarrow> State_Monad.return (Exit_failure e) | Inr cfg \<Rightarrow> do {
       calls [timer_init ''timer'', timer_hz, dev_info_get 0, signal 2, signal 15];
       mbuf_pool \<leftarrow> ask api (pool_create ''MBUF_POOL'');
       if mbuf_pool = 0 then State_Monad.return (Exit_failure ''Cannot create mbuf pool'')
       else do {
         r \<leftarrow> port_init api 0;
         if r \<noteq> 0 then State_Monad.return (Exit_failure ''Cannot init port'')
         else do {
           calls [next_lcore, timer_reset ''timer'' ''report_stat'',
                  remote_launch ''check_timer_expiration'', timer_subsystem_init];
           calls [lcore_loop 0];
           State_Monad.return (Returned 0)
         }
       }
     }
   }"

interpretation pktgen_port: port_initialiser port_init callbacks
proof
  show "\<exists>pre mid. log' = log @ pre @ [dev_start p] @ mid @ callbacks p
      \<and> (\<forall>c \<in> set (pre @ mid). \<not> is_callback c \<and> \<not> is_loop c)"
    if "run_state (port_init api p) log = (0, log')" for api p log log'
    using that
    by (intro exI[of _ "[dev_count, dev_info_get p, dev_configure p 1 1, rx_queue_setup p 0, tx_queue_setup p 0]"]
        exI[of _ "[promiscuous_enable p]"])
      (auto simp: port_init_def callbacks_def trace_simps Let_def split: if_splits)
  show "\<exists>suf. log' = log @ suf \<and> (\<forall>c \<in> set suf. \<not> is_callback c \<and> \<not> is_loop c)"
    if "run_state (port_init api p) log = (r, log')" "r \<noteq> 0" for api p log r log'
    using that by (auto simp: port_init_def trace_simps Let_def split: if_splits)
qed

abbreviation (input) startup :: "call list" where
  "startup \<equiv> [eal_init, timer_init ''timer'', timer_hz, dev_info_get 0, signal 2, signal 15, pool_create ''MBUF_POOL'']"

lemma pktgen_main_run:
  "run_state (main opts api) [] = (Returned v, log) \<Longrightarrow> \<exists>l1. run_state (port_init api 0) startup = (0, l1)
    \<and> log = l1 @ [next_lcore, timer_reset ''timer'' ''report_stat'',
      remote_launch ''check_timer_expiration'', timer_subsystem_init] @ [lcore_loop 0] @ []"
  by (simp add: main_def guard_returned split: prod.splits sum.splits)

interpretation pktgen_main: dpdk_program port_init callbacks "main opts" for opts
proof
  show "\<exists>l0 l1 mid post. run_state (port_init api 0) l0 = (0, l1) \<and> log = l1 @ mid @ [lcore_loop 0] @ post
      \<and> (\<forall>c \<in> set (l0 @ mid @ post). \<not> is_callback c \<and> \<not> is_loop c)"
    if run: "run_state (main opts api) [] = (Returned v, log)" for api v log
  proof -
    obtain l1 where "run_state (port_init api 0) startup = (0, l1)"
      "log = l1 @ [next_lcore, timer_reset ''timer'' ''report_stat'',
      remote_launch ''check_timer_expiration'', timer_subsystem_init] @ [lcore_loop 0] @ []"
      using pktgen_main_run[OF run] by blast
    then show ?thesis
      by (intro exI[of _ startup] exI[of _ l1] exI[of _ "[next_lcore, timer_reset ''timer'' ''report_stat'',
      remote_launch ''check_timer_expiration'', timer_subsystem_init]"] exI[of _ "[]"])
        (simp add: trace_simps)
  qed
  show "\<forall>c \<in> set log. \<not> is_loop c" if run: "run_state (main opts api) [] = (Exit_failure msg, log)" for api msg log
  proof -
    have "exits_early (main opts api) []"
      by (simp add: main_def is_loop_def pktgen_port.exits_early_init split: sum.split)
    then show ?thesis using run by (simp add: exits_early_def quiet_def)
  qed
qed

end
