(* ===== verification/Spec2Isabelle.thy ===== *)
theory Spec2Isabelle
  imports P4_16_Paxos P4_14_Recovery Netro_Pipeline Dpdk_Progress Netro_System Dpdk_Replication Dpdk_Recovery Netro_Threads Elte_Controller Switch_Control Bmv2_Driver Bluespec_Paxos Khash_Table Dpdk_Acceptor Dpdk_Coordinator Dpdk_Learner Dpdk_Backup Dpdk_Proposer
    Dpdk_Gen_Packet Dpdk_Pktgen
begin

text \<open>
  P4xos is consensus as a network service: the roles of the Paxos protocol run on network devices.
  The repository holds several implementations of the roles; this development models those written
  in C, with the P4 tables they are called from where these decide what is called, the two sets of P4
  programs, and the Bluespec module.

  \<^bold>\<open>The parts and how they interact.\<close>  A client (\<^verbatim>\<open>dpdk/client\<close>, \<^verbatim>\<open>dpdk/gen_packet\<close>,
  \<^verbatim>\<open>dpdk/pktgen4learner\<close>) sends a value in an accept message to the coordinator
  (\<^verbatim>\<open>dpdk/coordinator\<close>), which numbers it with an instance and sends it on to the acceptors' multicast
  group; acceptors (\<^verbatim>\<open>dpdk/acceptor\<close>) vote and send accepted messages to the learners
  (\<^verbatim>\<open>dpdk/learner\<close>), which deliver the values, execute the commands in them on LevelDB and answer the
  clients.  A backup coordinator (\<^verbatim>\<open>dpdk/backup\<close>) takes over with phase 1 when the primary has failed;
  a proposer (\<^verbatim>\<open>dpdk/proposer\<close>) runs both phases itself.  All of them build their packets with
  \<^verbatim>\<open>dpdk/lib\<close>.  \<^verbatim>\<open>netrodemo/paxos.c\<close> is coordinator and acceptor together, as plugin functions
  of a Netronome switch, called from the tables of \<^verbatim>\<open>netrodemo/cans.p4\<close>.  \<^verbatim>\<open>p4src\<close> and
  \<^verbatim>\<open>p4-16/p4src\<close> are the roles as programs of a P4 switch.
  \<^verbatim>\<open>dpdk_p4@elte\<close> is a controller that fills the tables of a software switch, \<^verbatim>\<open>main.c\<close> the program that runs
  the P4 version of the roles on a simulated one.

  \<^bold>\<open>Theories.\<close>
  \<^item> \<open>Prelude\<close>: words, memory as a function from addresses to bytes, loads and stores, byte swaps;
    the simplification sets \<open>mem_simps\<close> and \<open>frame_simps\<close> that the packet proofs run on.
  \<^item> \<open>Netro_Paxos\<close>: \<^verbatim>\<open>netrodemo/paxos.c\<close>, one definition for each \<^verbatim>\<open>pif_plugin_*\<close> function; the globals
    are the record \<open>plugin_state\<close>, and \<open>paxos_tbl\<close> is the dispatch of \<^verbatim>\<open>commands.rules\<close>.  \<open>Netro_Pipeline\<close>: \<^verbatim>\<open>netrodemo/cans.p4\<close>,
    the parser, actions, tables and control around the functions, which never reach them.
  \<^item> \<open>Paxos_Voting\<close>, \<open>Paxos_Spec\<close>: majorities and the voting contract as locales; one instance of Paxos as an abstract
    machine, its invariant and agreement; the locale \<open>paxos_implementation\<close>, what a system has to show to
    inherit them.
  \<^item> \<open>Netro_System\<close>: a network of switches that run the plugin, as a step relation in which packets are
    lost, duplicated and reordered; it refines the abstract machine, instance by instance.  Its switches apply \<open>paxos_tbl\<close>
    to phase 1A and phase 2A packets, as the entries mean it, and are never reset.
  \<^item> \<open>Dpdk_System\<close>: a network of the DPDK coordinator and DPDK acceptors, over the packet handlers of their
    theories and the contract of libpaxos's acceptor; it refines the same machine.
  \<^item> \<open>Dpdk_Replication\<close>: learners on such a network, with the contract of libpaxos's learner: one order of
    delivery for all of them, hence equal databases.
  \<^item> \<open>Dpdk_Progress\<close>: a client's request on such a network is voted for and delivered.
  \<^item> \<open>Dpdk_Recovery\<close>: the backup coordinator on such a network: its accept message after phase 1 is a legal
    step; what is lost of the values when promises are cut off.
  \<^item> \<open>Paxos_Network\<close>: a leader and acceptors on switches, over any programs that keep the contract of the locale
    \<open>paxos_switches\<close>: agreement when the leader is the only proposer; its extension \<open>paxos_network\<close>, with one round for all requests,
    is a sublocale of \<open>paxos_implementation\<close>.  \<open>P4_16_Paxos\<close>, \<open>P4_14_Paxos\<close>: the P4 programs, one
    definition for each action, table and control, the registers as records; leader and acceptors of the first and the
    acceptors of the second interpret the locales.  \<open>P4_14_Recovery\<close>: the recovery of an instance by
    \<^verbatim>\<open>bmv2/scripts/paxoscore/learner.py\<close>, and the value it loses.
  \<^item> \<open>Netro_Threads\<close>: the acceptor functions statement by statement under interleaved contexts: a serial
    schedule gives the functions of \<open>Netro_Paxos\<close>; two races of the shared memory.
  \<^item> \<open>Elte_Controller\<close>: the messages of \<^verbatim>\<open>netpaxos_controller_ex.c\<close> as sequences of library calls,
    and what its \<^verbatim>\<open>init\<close> asks of the switch.
  \<^item> \<open>Switch_Driver\<close>, \<open>Switch_Control\<close>: \<^verbatim>\<open>main.c\<close>, the program around a simulated switch: options and ports; the
    control connection, packet handler and clean-up.  \<open>Bmv2_Driver\<close>: the same for \<^verbatim>\<open>bmv2/main.c\<close>.
  \<^item> \<open>Bluespec_Paxos\<close>: the methods of the Bluespec module \<^verbatim>\<open>mkPaxos\<close> and the test bench \<^verbatim>\<open>testpaxos.cpp\<close> that calls them.
  \<^item> \<open>Dpdk_Base\<close>, \<open>Rte_Paxos\<close>: constants, message types and header layout (\<^verbatim>\<open>dpdk/include\<close>); packet building and
    the other functions of \<^verbatim>\<open>dpdk/lib/rte_paxos.c\<close> and \<^verbatim>\<open>utils.c\<close>, with the round trip of messages.
  \<^item> \<open>Dpdk_Host\<close>: what the programs share: start-up as a trace of calls in a state monad, whose results come
    from an environment; the locales \<open>port_initialiser\<close> and \<open>dpdk_program\<close> with the contract of
    \<^verbatim>\<open>port_init\<close> and \<^verbatim>\<open>main\<close>, interpreted for every program; the transmit buffer; options.
  \<^item> \<open>Dpdk_Acceptor\<close>, \<open>Dpdk_Coordinator\<close>, \<open>Dpdk_Learner\<close> (with \<open>Client_Message\<close>, \<open>Leveldb_Context\<close>,
    \<open>Client_Reply\<close>, \<open>Learner_Args\<close>), \<open>Dpdk_Backup\<close>, \<open>Dpdk_Proposer\<close>, \<open>Dpdk_Client\<close>, \<open>Dpdk_Gen_Packet\<close>,
    \<open>Dpdk_Pktgen\<close>: one theory for each program, its globals as a record, its functions under their names.
  \<^item> \<open>Khash_Base\<close>, \<open>Khash\<close>: the hash table \<^verbatim>\<open>dpdk/include/khash.h\<close> that libpaxos is built on: flag bits, sizes, probing and
    hash functions; the table and its operations.  \<open>Khash_Map\<close>, \<open>Khash_Rehash\<close>, \<open>Khash_Table\<close>: insertion and deletion, resizing
    in place, and runs of operations, against the map a table stands for.  The locale \<open>khash_key\<close> is what the table
    needs of its keys, interpreted for integers and strings.
  \<^item> this theory: the properties that span programs.

  \<^bold>\<open>State and effects.\<close>  Machine integers keep their width.  A packet buffer is a function from offsets to bytes,
  so a field of a header is what lies at its offset in network order; the function goes on behind the data room of a buffer, so that a
  write past it is visible, and the round trips ask for what fits (\<open>RTE_MBUF_DEFAULT_DATAROOM\<close>); a write outside an array of
  pointers, or through a null pointer, is the value \<open>None\<close>.  An access outside a register array of a switch is an error value;
  the arrays of the P4_14 programs have an entry for every instance.  The lists \<open>queued\<close>, \<open>sent\<close> and \<open>freed\<close> in the
  records record the packets handed to the device and given back to the pool, in order.  libpaxos
  (acceptor, learner, proposer), LevelDB, DPDK's transmit functions and its packet pool are not in
  the repository: they are record parameters (\<open>acceptor_api\<close>, \<open>learner_api\<close>, \<open>proposer_api\<close>,
  \<open>leveldb_api\<close>, \<open>tx_api\<close>, \<open>api\<close>), and what a theorem needs of them is a named hypothesis
  (\<open>tx_api_ok\<close>, \<open>takes_bursts\<close>, \<open>leveldb_ok\<close>, \<open>acceptor_ok\<close>, \<open>learner_ok\<close>, \<open>learner_live\<close>, \<open>accepting\<close>, \<open>promises_ok\<close>, \<open>stream_ok\<close>,
  \<open>counts_prepared\<close>, \dots), which the witness after the theorem
  discharges for a concrete instance.

  \<^bold>\<open>What is shown.\<close>  Refinement of the abstract machine and agreement for the network of plugin switches, on the invariant of
  monotone, well-formed registers; agreement for the P4-16 switches, as long as their leader is not reset, and what the P4_14 learner delivers; agreement for a DPDK deployment, total order and
  equal databases of its learners, the progress of a request from the client to the learner, and that the backup's recovery is a legal step of it; one value per instance on the DPDK path without failures; numbering of
  requests; round trips of messages, votes and commands; the answers of each handler on every branch;
  accounting of packets in the loops; buffers in bounds; service of the switch's control connection; the hash table as a map; what the proposer's loops send, and when they return; readiness
  of the port before the packet loop in every program.  Several theorems show behaviour that is hardly meant:
  accesses out of bounds, writes past a packet buffer, races, lost values, a switch program that never runs the protocol, loops that do not end.

  \<^bold>\<open>Bounds and fuel.\<close>  The packet loops run over the list of their rounds, each with the packets and clock readings it gets,
  so every finite run of the endless loops is covered.  \<^verbatim>\<open>send_batch\<close> takes fuel, and \<open>send_batch_returns_iff\<close> says when
  some fuel is enough; the other loops that may not end are partial functions into \<open>option\<close>, and \<open>try_accept_returns\<close> says when the proposer's returns.  The loops of the hash table are
  partial functions into \<open>option\<close>, and are shown to return; tables are followed up to \<open>2 ^ 30\<close> buckets before an insertion,
  beyond which the size overflows (\<open>kh_resize_overflow\<close>).  Latency in
  \<open>Dpdk_Pktgen\<close> is an integer number of nanoseconds where the source adds them up in a \<^verbatim>\<open>double\<close>.

  \<^bold>\<open>Not modelled.\<close>  Functions that only print; libpaxos, whose headers are copied into \<^verbatim>\<open>dpdk/include\<close> without
  their implementation; the functions the controller's \<^verbatim>\<open>init\<close> calls and no file holds; the parsers of the P4_14 programs, of which
  only the outcome is kept; the pool of packet buffers, which hands out one packet after the other and, in the proposer and
  the learner, runs dry only where a failed allocation is a case of the model; the Python clients and the scripts, but for the
  recovery of an instance.
\<close>

section \<open>From the coordinator to the acceptors\<close>

text \<open>A packet that holds a numbered accept message, at the acceptor.\<close>

lemma sequenced_dispatch:
  assumes "is_request E pkt" "unat (hdr_msgtype PXH (buf pkt)) = msg_code PAXOS_ACCEPT"
    and buf: "buf p = sequence_request E i (buf pkt)"
    and m: "acceptor_receive_accept L a ((hdr_body PXH (buf pkt) (hdr_value PXH (buf pkt)))\<lparr>iid := i\<rparr>) = (a', ret, out)"
  shows "for_acceptor E p \<and> paxos_dispatch L (buf p) a = (a', ret, Some out)"
proof -
  have "hdr_msgtype PXH (buf p) = hdr_msgtype PXH (buf pkt)" "hdr_value PXH (buf p) = hdr_value PXH (buf pkt)"
    "hdr_body PXH (buf p) v = (hdr_body PXH (buf pkt) v)\<lparr>iid := i\<rparr>" for v
    by (simp_all add: buf hdr_defs sequence_request_fields inst_of_sequenced)
  moreover have "buf p 23 = 17" "ld16 36 (buf p) = bswap16 ACCEPTOR_PORT"
    using assms(1) by (simp_all add: buf proto_kept sequence_request_fields is_request_def is_udp_def)
  ultimately show ?thesis
    using assms(2) m by (simp add: for_acceptor_def paxos_dispatch_def Let_def)
qed

lemma example_client_request_type: "unat (hdr_msgtype PXH (buf example_client_request)) = msg_code PAXOS_ACCEPT"
  using sent_hdr(1)[of example_message] by (simp add: example_client_request_def) (simp add: example_message_def)

text \<open>A client's accept message that the coordinator has numbered is taken by the acceptor process: it passes
  the acceptor's protocol and port tests, and libpaxos's acceptor is called with the client's message
  under the coordinator's instance.\<close>

theorem request_reaches_acceptor:
  assumes "is_request E pkt" "unat (hdr_msgtype PXH (buf pkt)) = msg_code PAXOS_ACCEPT"
    and p: "fst (Dpdk_Coordinator.paxos_rx_process E T port pkt c) = p"
    and m: "acceptor_receive_accept L a ((hdr_body PXH (buf pkt) (hdr_value PXH (buf pkt)))\<lparr>iid := Dpdk_Coordinator.cur_inst c\<rparr>) = (a', ret, out)"
  shows "for_acceptor E p \<and> paxos_dispatch L (buf p) a = (a', ret, Some out)"
proof (rule sequenced_dispatch[OF assms(1,2) _ m])
  show "buf p = sequence_request E (Dpdk_Coordinator.cur_inst c) (buf pkt)"
    using assms(1) p by (auto simp: Dpdk_Coordinator.paxos_rx_process_def is_request_def is_udp_def Let_def)
qed

theorem request_reaches_acceptor_witness:
  "for_acceptor example_env (fst (Dpdk_Coordinator.paxos_rx_process example_env counting_buffer 0 example_client_request
     (init_coordinator 0)))"
proof -
  have "acceptor_receive_accept example_acceptor 0 ((hdr_body PXH (buf example_client_request)
      (hdr_value PXH (buf example_client_request)))\<lparr>iid := Dpdk_Coordinator.cur_inst (init_coordinator (0 :: nat))\<rparr>)
    = (a', ret, out) \<Longrightarrow> ?thesis" for a' ret out
    using request_reaches_acceptor[OF example_client_request example_client_request_type refl, where T = counting_buffer
      and port = 0 and c = "init_coordinator 0" and L = example_acceptor and a = 0] by blast
  then show ?thesis by (meson prod_cases3)
qed

text \<open>An acceptor in state \<open>a\<close> answers the packet \<open>p\<close> with the accepted message \<open>r\<close>.\<close>

definition accepts :: "rte_env \<Rightarrow> 'a acceptor_api \<Rightarrow> 'a \<Rightarrow> mbuf \<Rightarrow> mbuf \<Rightarrow> bool" where
  "accepts E L a p r \<longleftrightarrow> (case paxos_dispatch L (buf p) a of
      (a', ret, Some out) \<Rightarrow> for_acceptor E p \<and> ret = 1 \<and> unat (mtype out) = msg_code PAXOS_ACCEPTED
        \<and> fst (Dpdk_Acceptor.paxos_rx_process E L p a) = r
    | _ \<Rightarrow> False)"

lemma accepts_keeps:
  assumes "accepts E L a p r"
  shows "inst_of r = inst_of p" "ballot (hdr_body PXH (buf r) v) = ballot (hdr_body PXH (buf p) v)"
    "value_bytes (hdr_value PXH (buf r)) = value_bytes (hdr_value PXH (buf p))"
proof -
  obtain a' out where out: "for_acceptor E p" "paxos_dispatch L (buf p) a = (a', 1, Some out)"
    "unat (mtype out) = msg_code PAXOS_ACCEPTED"
    and r: "fst (Dpdk_Acceptor.paxos_rx_process E L p a) = r"
    using assms by (auto simp: accepts_def split: prod.splits option.splits)
  from accepted_packet[OF out, of v] r
  have hdr: "hdr_body PXH (buf r) v = (hdr_body PXH (buf p) v)\<lparr>aid := aid (body out)\<rparr>"
    and val: "value_bytes (hdr_value PXH (buf r)) = value_bytes (hdr_value PXH (buf p))" by auto
  from arg_cong[OF hdr, of iid] arg_cong[OF hdr, of ballot] val
  show "inst_of r = inst_of p" "ballot (hdr_body PXH (buf r) v) = ballot (hdr_body PXH (buf p) v)"
    "value_bytes (hdr_value PXH (buf r)) = value_bytes (hdr_value PXH (buf p))"
    by (simp_all add: inst_of_def hdr_body_def)
qed

text \<open>One value per instance on the way without failures: whatever the acceptors do, two accepted messages that
  answer requests of one coordinator and name the same instance carry the same ballot and the same value, from whichever
  acceptors they come and however often the requests are delivered, as long as the coordinator's
  counter has not gone round.\<close>

theorem one_value_per_instance:
  assumes "length (filter (is_request E) pkts) < 2 ^ 32"
    and "C = Dpdk_Coordinator.add_timestamps E T port now pkts (init_coordinator d)"
    and "p \<in> set (filter is_udp (Dpdk_Coordinator.queued C))" "q \<in> set (filter is_udp (Dpdk_Coordinator.queued C))"
    and "accepts E L a p r" "accepts E L' a' q r'" "inst_of r = inst_of r'"
  shows "ballot (hdr_body PXH (buf r) v) = ballot (hdr_body PXH (buf r') v)
    \<and> value_bytes (hdr_value PXH (buf r)) = value_bytes (hdr_value PXH (buf r'))"
proof -
  have "inst_of p = inst_of q" using accepts_keeps(1)[OF assms(5)] accepts_keeps(1)[OF assms(6)] assms(7) by simp
  then have "p = q"
    using distinct_instances[OF assms(1), of T port now d] assms(2-4) by (auto simp: distinct_map dest: inj_onD)
  then show ?thesis using accepts_keeps(2,3)[OF assms(5)] accepts_keeps(2,3)[OF assms(6)] by simp
qed

text \<open>An acceptor that accepts everything, and one request in the coordinator's queue.\<close>

definition accept_all :: "nat acceptor_api" where
  "accept_all = example_acceptor\<lparr>acceptor_receive_accept := (\<lambda>a p. (a, 1, \<lparr>mtype = 3, body = p\<lparr>aid := 3\<rparr>\<rparr>))\<rparr>"

definition example_queue :: "mbuf list" where
  "example_queue = Dpdk_Coordinator.queued
     (Dpdk_Coordinator.add_timestamps example_env counting_buffer 0 0 [example_client_request] (init_coordinator 0))"

theorem one_value_per_instance_witness:
  "\<exists>p r r'. p \<in> set (filter is_udp example_queue) \<and> accepts example_env accept_all 0 p r \<and> accepts example_env accept_all 1 p r'
    \<and> value_bytes (hdr_value PXH (buf r)) = value_bytes (hdr_value PXH (buf r'))"
proof -
  obtain p where p: "p \<in> set (filter is_udp example_queue)"
    and buf: "buf p = sequence_request example_env 1 (buf example_client_request)"
    using rx_packet_request[OF example_client_request, of counting_buffer 0 0 "init_coordinator 0"]
    by (auto simp: example_queue_def Dpdk_Coordinator.add_timestamps_def init_coordinator_def)
  have acc: "accepts example_env accept_all a p (fst (Dpdk_Acceptor.paxos_rx_process example_env accept_all p a))" for a
    using sequenced_dispatch[OF example_client_request example_client_request_type buf, of accept_all a]
    by (simp add: accepts_def accept_all_def)
  have "inst_of (fst (Dpdk_Acceptor.paxos_rx_process example_env accept_all p a)) = inst_of p" for a
    by (rule accepts_keeps(1)[OF acc])
  then show ?thesis
    using one_value_per_instance[where pkts = "[example_client_request]" and T = counting_buffer and port = 0 and now = 0 and d = 0,
        OF _ refl _ _ acc[of 0] acc[of 1]] p acc
    by (simp add: example_client_request flip: example_queue_def) blast
qed

section \<open>From the packet generator to the learner and back\<close>

lemma request_fields:
  "content_length (set_cliaddr a (create_client_request h cmd 56)) = 56"
  "message_length (set_cliaddr a (create_client_request h cmd 56)) = 74"
  "req_cliaddr (set_cliaddr a (create_client_request h cmd 56)) = a"
  by (simp_all add: content_length_def message_length_def req_cliaddr_def set_cliaddr_def create_client_request_def
      Let_def sizeof_client_request_def mem_simps)

lemma request_content: "i < 56 \<Longrightarrow> set_cliaddr a (create_client_request h cmd 56) (18 + i) = cmd i"
  by (simp add: set_cliaddr_def create_client_request_def Let_def frame_simps) (simp add: memcpy_def)

lemma request_cong:
  assumes "\<And>i. i < 18 \<Longrightarrow> m i = m' i"
  shows "content_length m = content_length m'" "req_cliaddr m = req_cliaddr m'"
  using assms by (simp_all add: content_length_def req_cliaddr_def ld16_def ld32_def)

lemma client_addr_mac: "Dpdk_Learner.macs (s_addr client_addr) = Some [0x0c, 0xc4, 0x7a, 0xba, 0xc6, 0xad]"
  by (simp add: client_addr_def Dpdk_Learner.macs_def IPv4_def bswap32_def bswap16_def)

text \<open>The packet of a command: its value starts with the request.\<close>

lemma generated_packet:
  assumes "generate_packet G now g = Some g'" "pkt = last (Dpdk_Pktgen.sent g')"
  obtains m where "is_accepted E pkt" "from_offset (PXH + px_paxosval) (buf pkt) = m"
    "content_length m = 56" "req_cliaddr m = client_addr"
    "\<And>i. i < 56 \<Longrightarrow> m (18 + i) = command_bytes (stack G) now (op g) i"
proof -
  let ?cmd = "command_bytes (stack G) now (op g)"
  let ?req = "set_cliaddr client_addr (create_client_request (heap G) ?cmd 56)"
  let ?pm = "\<lparr>mtype = 3, body = \<lparr>iid = Dpdk_Pktgen.cur_inst g, ballot = 1, value_ballot = 1, aid = 0,
    body_value = \<lparr>paxos_value_len = 74, paxos_value_val = ?req\<rparr>\<rparr>\<rparr>"
  obtain pkt0 where pkt: "pkt = add_paxos_message (pktgen_env.rte G) ?pm pkt0 12345 LEARNER_PORT LEARNER_ADDR"
    using assms by (auto simp: generate_packet_def Let_def sizeof_command_def request_fields split: option.splits prod.splits)
  have val: "from_offset 58 (buf pkt) i = ?req i" if "i < 74" for i
    using sent_value[of ?pm i] that by (simp add: pkt from_offset_def)
  have "is_accepted E pkt"
    using sent_hdr(1)[of ?pm] by (simp add: is_accepted_def pkt)
      (simp add: add_paxos_message_def craft_new_packet_def Let_def mem_simps)
  then show thesis
    using that[of "from_offset 58 (buf pkt)"] request_cong[of "from_offset 58 (buf pkt)" ?req] val request_content
    by (simp add: request_fields)
qed

text \<open>C14: A command the packet generator sends, once libpaxos's learner delivers it, comes back to the generator from the
  first learner: the answer goes to the generator's address, and the time the generator reads in it is
  the time at which it sent the command, so what it adds to the latency is the time of the round
  trip.\<close>

theorem command_round_trip:
  assumes gen: "generate_packet G now g = Some g'" "pkt = last (Dpdk_Pktgen.sent g')"
    and now: "\<bar>tv_sec now\<bar> < 2 ^ 63" "\<bar>tv_nsec now\<bar> < 2 ^ 63"
    and learner: "takes_bursts waiting (learner_env.tx S)" "alloc_ok S" "bufs_ok waiting dl" "Dpdk_Learner.learner_id dl = 0"
    and lib: "Dpdk_Learner.learner_receive_accepted (learner_env.lib S) (Dpdk_Learner.paxos_learner dl)
        (hdr_body PXH (buf pkt) (hdr_value PXH (buf pkt))) = (l, r)"
      "learner_deliver_next (learner_env.lib S) l = (l', k, hdr_body PXH (buf pkt) (hdr_value PXH (buf pkt)))" "k \<noteq> 0"
  shows "\<exists>dl' p. Dpdk_Learner.paxos_rx_process S pkt dl = Some (pkt, 0, dl') \<and> Dpdk_Learner.queued dl' = Dpdk_Learner.queued dl @ [p]
    \<and> ld32 (IPH + ip_dst_addr) (buf p) = bswap32 (IPv4 192 168 4 97)
    \<and> bytes_at eth_d_addr 6 (buf p) = [0x0c, 0xc4, 0x7a, 0xba, 0xc6, 0xad]
    \<and> command_time (buf p) = now"
proof -
  obtain m where m: "is_accepted (learner_env.rte S) pkt" "from_offset (PXH + px_paxosval) (buf pkt) = m"
    "content_length m = 56" "req_cliaddr m = client_addr"
    "\<And>i. i < 56 \<Longrightarrow> m (18 + i) = command_bytes (stack G) now (op g) i"
    using generated_packet[OF gen] by metis
  have val: "m = paxos_value_val (body_value (hdr_body PXH (buf pkt) (hdr_value PXH (buf pkt))))"
    using m(2) by (simp add: hdr_body_def hdr_value_def)
  define p where "p = client_reply (learner_env.rte S) Dpdk_Learner.macs (from_offset req_content m) 56 client_addr
      (Dpdk_Learner.tx_mbufs dl ! Dpdk_Learner.nb_pkt_buf dl)"
  obtain dl' where dl': "Dpdk_Learner.paxos_rx_process S pkt dl = Some (pkt, 0, dl')"
    "Dpdk_Learner.queued dl' = Dpdk_Learner.queued dl @ [p]"
    using delivered_reply[OF learner m(1) lib val] m(3,4) by (auto simp: p_def)
  have payload: "buf p (42 + i) = command_bytes (stack G) now (op g) i" if "i < 56" for i
    using client_reply_payload[of i 56] that m(5)[OF that] by (simp add: p_def from_offset_def)
  have "ld64 42 (buf p) = ld64 0 (command_bytes (stack G) now (op g))"
    "ld64 50 (buf p) = ld64 8 (command_bytes (stack G) now (op g))"
    using payload payload[of "8 + i" for i] by (auto intro!: ld64_cong simp: add.assoc[symmetric])
  then have "command_time (buf p) = now"
    using now command_bytes_time[of "stack G" now "op g"]
    by (simp add: command_time_def signed_of_int signed_take_bit_int_eq_self abs_less_iff)
  then show ?thesis
    using dl' client_reply_fields(2) client_reply_mac[where macs = Dpdk_Learner.macs and dest = client_addr, OF client_addr_mac]
    by (intro exI[of _ dl'] exI[of _ p]) (simp add: p_def client_addr_def)
qed

text \<open>A generator whose device takes every packet, asking about time 5 s 7 ns.\<close>

definition example_pktgen_env :: "nat pktgen_env" where
  "example_pktgen_env = \<lparr>rte = example_env, tx_burst = (\<lambda>d pkt. (d + 1, 1)), fresh = Some example_mbuf,
     stack = (\<lambda>_. 0xAA), heap = (\<lambda>_. 0xBB)\<rparr>"

definition example_pktgen :: "nat pktgen" where
  "example_pktgen = \<lparr>cur_inst = 1, op = SET, dev = 0, tx_counter = 0, rx_counter = 0, latency = 0, sent = []\<rparr>"

theorem command_round_trip_witness:
  "\<exists>g dl p. generate_packet example_pktgen_env \<lparr>tv_sec = 5, tv_nsec = 7\<rparr> example_pktgen = Some g
    \<and> Dpdk_Learner.paxos_rx_process example_learner_env (last (Dpdk_Pktgen.sent g)) example_learner
        = Some (last (Dpdk_Pktgen.sent g), 0, dl)
    \<and> Dpdk_Learner.queued dl = [p] \<and> command_time (buf p) = \<lparr>tv_sec = 5, tv_nsec = 7\<rparr>"
proof -
  obtain g where g: "generate_packet example_pktgen_env \<lparr>tv_sec = 5, tv_nsec = 7\<rparr> example_pktgen = Some g"
    by (simp add: generate_packet_def example_pktgen_env_def Let_def)
  let ?b = "let pkt = last (Dpdk_Pktgen.sent g) in hdr_body PXH (buf pkt) (hdr_value PXH (buf pkt))"
  have "Dpdk_Learner.learner_receive_accepted (learner_env.lib example_learner_env)
      (Dpdk_Learner.paxos_learner example_learner) ?b = (Some ?b, 1)"
    "learner_deliver_next (learner_env.lib example_learner_env) (Some ?b) = (None, 1, ?b)"
    "Dpdk_Learner.learner_id example_learner = 0" "Dpdk_Learner.queued example_learner = []"
    by (simp_all add: example_learner_env_def echo_learner_def example_learner_def)
  then show ?thesis
    using command_round_trip[OF g refl _ _ example_learner_ok, where l = "Some ?b" and r = 1 and l' = None and k = 1] g
    by (simp add: Let_def) blast
qed

section \<open>Start-up of the programs\<close>

text \<open>The main programs with the callbacks their \<^verbatim>\<open>port_init\<close> registers.\<close>

definition programs :: "getopt \<Rightarrow> ((api \<Rightarrow> outcome host) \<times> (u8 \<Rightarrow> call list)) list" where
  "programs opts = [
     (Dpdk_Acceptor.main opts, Dpdk_Acceptor.callbacks), (Dpdk_Coordinator.main, Dpdk_Coordinator.callbacks),
     (Dpdk_Learner.main opts, Dpdk_Learner.callbacks), (Dpdk_Backup.main opts, Dpdk_Backup.callbacks),
     (Dpdk_Proposer.main, Dpdk_Proposer.callbacks), (Dpdk_Client.main opts, Dpdk_Client.callbacks),
     (Dpdk_Gen_Packet.main opts, Dpdk_Gen_Packet.callbacks), (Dpdk_Pktgen.main opts, Dpdk_Pktgen.callbacks)]"

text \<open>C19: None of the DPDK programs enters its packet loop before its port has been started and exactly its own packet
  callbacks have been registered, whatever DPDK answers and whatever options are given.\<close>

theorem programs_ready:
  assumes "(m, cbs) \<in> set (programs opts)" "run_state (m api) [] = (r, log)" "lcore_loop 0 \<in> set log"
  shows "\<exists>a b. log = a @ [lcore_loop 0] @ b \<and> port_ready 0 (cbs 0) a"
proof -
  note ready = acceptor_main.loop_only_when_ready coordinator_main.loop_only_when_ready
    learner_main.loop_only_when_ready backup_main.loop_only_when_ready proposer_main.loop_only_when_ready
    client_main.loop_only_when_ready gen_packet_main.loop_only_when_ready pktgen_main.loop_only_when_ready
  show ?thesis
    using assms unfolding programs_def list.set insert_iff prod.inject
    by - (elim disjE conjE emptyE; hypsubst; erule (1) ready)
qed

text \<open>DPDK as it answers when all goes well: pointers and counts are not zero, return codes are.\<close>

definition all_well :: api where
  "all_well log c = (case c of pool_create _ \<Rightarrow> 1 | zmalloc_tx_buffer \<Rightarrow> 1 | dev_count \<Rightarrow> 1 | _ \<Rightarrow> 0)"

theorem programs_ready_witness:
  "\<exists>a b. snd (run_state (Dpdk_Coordinator.main all_well) []) = a @ [lcore_loop 0] @ b
     \<and> port_ready 0 (Dpdk_Coordinator.callbacks 0) a"
  by (rule programs_ready[of Dpdk_Coordinator.main _ "[]" all_well "fst (run_state (Dpdk_Coordinator.main all_well) [])"])
    (simp_all add: programs_def Dpdk_Coordinator.main_def Dpdk_Coordinator.port_init_def all_well_def)

end
